theory Spec2Isabelle
  imports Main "HOL-Library.Word" "HOL-Library.Sublist"
begin

unbundle bit_operations_syntax

section \<open>Data model of havJSON\<close>

text \<open>
  The enumerations of \<^verbatim>\<open>havJSON.hpp\<close>. The constructors of
  \<^verbatim>\<open>havJSONDataType\<close> carry the prefix \<open>DT_\<close> and those of
  \<^verbatim>\<open>havJSONToken\<close> the prefix \<open>TK_\<close>, since the source uses the same
  enumerator names (\<^verbatim>\<open>Null\<close>, \<^verbatim>\<open>Int\<close>, ...) in both.
\<close>

datatype havJSONDataType =
    DT_Null | DT_Boolean | DT_Int | DT_UInt | DT_Long | DT_ULong
  | DT_Int64 | DT_UInt64 | DT_Double | DT_String | DT_Array | DT_Object

datatype havJSONToken =
    TK_None
  | TK_LeftSquareBracket | TK_LeftCurlyBracket | TK_RightSquareBracket
  | TK_RightCurlyBracket | TK_Colon | TK_Comma
  | TK_Null | TK_Boolean | TK_Int | TK_UInt | TK_Long | TK_ULong
  | TK_Int64 | TK_UInt64 | TK_Double | TK_String | TK_Value

record havJSONTokenValue =
  mToken :: havJSONToken
  mValue :: "string option"

text \<open>
  Exceptions are values. \<open>runtime_error\<close> carries the message of the source;
  \<open>invalid_argument\<close> and \<open>out_of_range\<close> are the exceptions of the
  \<^verbatim>\<open>std::sto*\<close> family, \<open>bad_variant_access\<close> and
  \<open>bad_optional_access\<close> those of \<^verbatim>\<open>std::get\<close> and
  \<^verbatim>\<open>std::optional::value\<close>. \<open>undefined_behaviour\<close> marks the places where
  the source reads a container out of range (\<^verbatim>\<open>front()\<close> or
  \<^verbatim>\<open>back()\<close> of an empty deque, \<^verbatim>\<open>operator[]\<close> past the end).
\<close>

datatype error =
    runtime_error string
  | invalid_argument
  | out_of_range
  | bad_variant_access
  | bad_optional_access
  | undefined_behaviour

text \<open>
  A \<^verbatim>\<open>double\<close> is its IEEE-754 binary64 bit pattern. The embedding does no
  floating-point arithmetic: the conversions between text and \<^verbatim>\<open>double\<close>
  (\<^verbatim>\<open>std::stod\<close>, \<^verbatim>\<open>std::to_string\<close>, stream output) are parameters,
  see \<open>platform\<close>.
\<close>

datatype double = double_of_bits (bits_of_double: "64 word")

text \<open>
  What the source leaves to the implementation: the width of \<^verbatim>\<open>long\<close> and
  \<^verbatim>\<open>unsigned long\<close> (the static assertions of lines 99--108 fix every other
  integer type), the signedness of plain \<^verbatim>\<open>char\<close>, and the floating-point
  conversions of the standard library:
  \<^item> \<open>stod\<close> is \<^verbatim>\<open>std::stod\<close>, with its exceptions;
  \<^item> \<open>fixed15\<close> is \<^verbatim>\<open>stream << std::fixed << std::setprecision(15) << d\<close>;
  \<^item> \<open>to_string_double\<close> is \<^verbatim>\<open>std::to_string(double)\<close>;
  \<^item> \<open>little_endian\<close> says that the host stores the least significant byte of
    a number first (\<^verbatim>\<open>std::memcpy\<close> and \<^verbatim>\<open>std::fwrite\<close> of a number).
\<close>

record platform =
  long_bits :: nat
  char_is_signed :: bool
  stod :: "string \<Rightarrow> error + double"
  fixed15 :: "double \<Rightarrow> string"
  to_string_double :: "double \<Rightarrow> string"
  little_endian :: bool

text \<open>
  \<^verbatim>\<open>havJSONData::havJSONVariant\<close>: one constructor per alternative of the
  \<^verbatim>\<open>std::variant\<close>, in the order of the source. The integer alternatives hold
  the mathematical value of the machine integer. The children of an array or object
  are \<^verbatim>\<open>std::shared_ptr<havJSONData>\<close>; the type parameter stands for the node
  type.

  A \<^verbatim>\<open>std::map<std::string, ...>\<close> is the list of its entries in iteration
  order, which is the order of the keys under \<^verbatim>\<open>std::less<std::string>\<close>
  (see \<open>map_insert\<close>).
\<close>

datatype 'a havJSONVariant =
    V_bool bool
  | V_int int
  | V_uint int
  | V_long int
  | V_ulong int
  | V_int64 int
  | V_uint64 int
  | V_double double
  | V_cstr string
  | V_string string
  | V_vector "'a list"
  | V_map "(string \<times> 'a) list"

datatype havJSONData =
  havJSONData (getType: havJSONDataType) (getValue: "havJSONData havJSONVariant")

subsection \<open>\<^verbatim>\<open>std::string\<close> comparison and \<^verbatim>\<open>std::map\<close>\<close>

text \<open>
  \<^verbatim>\<open>std::string::operator<\<close> compares with
  \<^verbatim>\<open>std::char_traits<char>::compare\<close>: lexicographically, each character as an
  \<^verbatim>\<open>unsigned char\<close>.
\<close>

fun string_less :: "string \<Rightarrow> string \<Rightarrow> bool" where
  "string_less [] [] = False"
| "string_less [] (y # ys) = True"
| "string_less (x # xs) [] = False"
| "string_less (x # xs) (y # ys) =
     ((of_char x :: nat) < of_char y \<or> (x = y \<and> string_less xs ys))"

text \<open>\<^verbatim>\<open>std::map::find\<close>: the entry with the given key, if any.\<close>

fun map_find :: "(string \<times> 'a) list \<Rightarrow> string \<Rightarrow> 'a option" where
  "map_find [] key = None"
| "map_find ((k, v) # m) key = (if k = key then Some v else map_find m key)"

text \<open>
  \<^verbatim>\<open>std::map::insert\<close>: the new entry is placed where the key order puts it; an
  entry whose key is already present stays as it is and nothing is inserted.
\<close>

fun map_insert :: "(string \<times> 'a) list \<Rightarrow> string \<times> 'a \<Rightarrow> (string \<times> 'a) list" where
  "map_insert [] (key, v) = [(key, v)]"
| "map_insert ((k, w) # m) (key, v) =
     (if string_less key k then (key, v) # (k, w) # m
      else if string_less k key then (k, w) # map_insert m (key, v)
      else (k, w) # m)"

text \<open>\<^verbatim>\<open>std::map::erase\<close> at the position of a key.\<close>

fun map_erase :: "(string \<times> 'a) list \<Rightarrow> string \<Rightarrow> (string \<times> 'a) list" where
  "map_erase [] key = []"
| "map_erase ((k, v) # m) key = (if k = key then m else (k, v) # map_erase m key)"

section \<open>Container operations of \<^verbatim>\<open>havJSONData\<close>\<close>

text \<open>
  A member function that mutates \<^verbatim>\<open>*this\<close> returns the pair of its outcome
  (\<open>Inl\<close> the exception thrown, \<open>Inr\<close> the normal return) and the object as it is
  left behind.
\<close>

text \<open>
  \<^verbatim>\<open>void clear()\<close>, lines 554--567. \<^verbatim>\<open>std::get\<close> returns a reference
  into \<^verbatim>\<open>mValue\<close>, so \<^verbatim>\<open>.clear()\<close> empties the container of the
  object itself; no branch returns, and the \<^verbatim>\<open>throw\<close> at the end is reached
  in every case.
\<close>

definition clear_array :: "havJSONData \<Rightarrow> error + havJSONData" where
  "clear_array this =
     (if getType this = DT_Array
      then (case getValue this of
              V_vector xs \<Rightarrow> Inr (havJSONData (getType this) (V_vector []))
            | _ \<Rightarrow> Inl bad_variant_access)
      else Inr this)"

definition clear_object :: "havJSONData \<Rightarrow> error + havJSONData" where
  "clear_object this =
     (if getType this = DT_Object
      then (case getValue this of
              V_map m \<Rightarrow> Inr (havJSONData (getType this) (V_map []))
            | _ \<Rightarrow> Inl bad_variant_access)
      else Inr this)"

definition clear :: "havJSONData \<Rightarrow> (error + unit) \<times> havJSONData" where
  "clear this =
     (case clear_array this of
        Inl e \<Rightarrow> (Inl e, this)
      | Inr this1 \<Rightarrow>
          (case clear_object this1 of
             Inl e \<Rightarrow> (Inl e, this1)
           | Inr this2 \<Rightarrow> (Inl (runtime_error ''Value is not an array or object!''), this2)))"

text \<open>
  \<^verbatim>\<open>void remove(const std::string& key)\<close>, lines 831--848.
  \<^verbatim>\<open>auto value = std::get<...>(mValue)\<close> deduces a non-reference type, so
  \<open>value\<close> is a copy of the map. \<open>remove_frame\<close> returns the outcome, the object
  and the local variable \<open>value\<close> as they are when the function returns;
  \<open>remove\<close> is what the caller sees.
\<close>

definition remove_frame ::
  "havJSONData \<Rightarrow> string \<Rightarrow> (error + unit) \<times> havJSONData \<times> (string \<times> havJSONData) list option"
where
  "remove_frame this key =
     (if getType this = DT_Object
      then (case getValue this of
              V_map m \<Rightarrow>
                (let value = m;
                     value = (case map_find value key of
                                Some itr \<Rightarrow> map_erase value key
                              | None \<Rightarrow> value)
                 in (Inr (), this, Some value))
            | _ \<Rightarrow> (Inl bad_variant_access, this, None))
      else (Inl (runtime_error ''Value is not an object!''), this, None))"

definition remove :: "havJSONData \<Rightarrow> string \<Rightarrow> (error + unit) \<times> havJSONData" where
  "remove this key = (case remove_frame this key of (r, this', value) \<Rightarrow> (r, this'))"




section \<open>Characters, C strings and number formatting\<close>

abbreviation quote :: char where "quote \<equiv> CHR 0x22"
abbreviation backslash :: char where "backslash \<equiv> CHR 0x5C"
abbreviation NUL :: char where "NUL \<equiv> CHR 0x00"

text \<open>The value of a \<^verbatim>\<open>char\<close> as an \<^verbatim>\<open>unsigned char\<close>.\<close>

abbreviation byte :: "char \<Rightarrow> nat" where
  "byte c \<equiv> of_char c"

text \<open>
  \<^verbatim>\<open>std::string(const char*)\<close>: the characters before the first NUL of the
  buffer.
\<close>

definition c_str :: "char list \<Rightarrow> string" where
  "c_str buffer = takeWhile (\<lambda>c. c \<noteq> NUL) buffer"

text \<open>
  \<^verbatim>\<open>std::string::operator[]\<close>: position \<^verbatim>\<open>size()\<close> holds the
  terminating NUL. The functions that use \<open>cxx_at\<close> stop at that NUL, so they do
  not read further.
\<close>

definition cxx_at :: "string \<Rightarrow> nat \<Rightarrow> char" where
  "cxx_at s i = (if i < length s then s ! i else NUL)"

text \<open>\<^verbatim>\<open>std::isxdigit\<close> in the classic locale.\<close>

definition char_between :: "char \<Rightarrow> char \<Rightarrow> char \<Rightarrow> bool" where
  "char_between lo c hi = (byte lo \<le> byte c \<and> byte c \<le> byte hi)"

definition isxdigit :: "char \<Rightarrow> bool" where
  "isxdigit c =
     (char_between CHR ''0'' c CHR ''9'' \<or> char_between CHR ''a'' c CHR ''f''
      \<or> char_between CHR ''A'' c CHR ''F'')"

definition isdigit :: "char \<Rightarrow> bool" where
  "isdigit c = char_between CHR ''0'' c CHR ''9''"

text \<open>\<^verbatim>\<open>std::isspace\<close> in the classic locale (skipped by \<^verbatim>\<open>strtol\<close>).\<close>

definition isspace :: "char \<Rightarrow> bool" where
  "isspace c = (c = CHR '' '' \<or> (9 \<le> byte c \<and> byte c \<le> 13))"

definition digit_value :: "char \<Rightarrow> nat" where
  "digit_value c =
     (if char_between CHR ''0'' c CHR ''9'' then byte c - byte CHR ''0''
      else if char_between CHR ''a'' c CHR ''f'' then byte c - byte CHR ''a'' + 10
      else byte c - byte CHR ''A'' + 10)"

text \<open>
  \<^verbatim>\<open>std::strtol(s, nullptr, 16)\<close> on a string of hexadecimal digits (the
  only strings the lexer passes, see \<open>read_hex\<close>).
\<close>

definition strtol16 :: "string \<Rightarrow> nat" where
  "strtol16 s = foldl (\<lambda>a c. a * 16 + digit_value c) 0 s"

text \<open>
  Decimal and hexadecimal output of an unsigned number
  (\<^verbatim>\<open>std::to_string\<close>, \<^verbatim>\<open><< std::hex\<close>, lower case), and
  \<^verbatim>\<open>std::setw(w) << std::setfill('0')\<close>.
\<close>

definition digit_char :: "nat \<Rightarrow> char" where
  "digit_char d = (if d < 10 then char_of (byte CHR ''0'' + d) else char_of (byte CHR ''a'' + (d - 10)))"

fun digits :: "nat \<Rightarrow> nat \<Rightarrow> string" where
  "digits b n = (if n < b \<or> b < 2 then [digit_char n] else digits b (n div b) @ [digit_char (n mod b)])"

declare digits.simps [simp del]

definition to_hex :: "nat \<Rightarrow> string" where
  "to_hex n = digits 16 n"

definition setw_fill0 :: "nat \<Rightarrow> string \<Rightarrow> string" where
  "setw_fill0 w s = replicate (w - length s) CHR ''0'' @ s"

definition to_string :: "int \<Rightarrow> string" where
  "to_string v = (if v < 0 then CHR ''-'' # digits 10 (nat (- v)) else digits 10 (nat v))"

section \<open>Construction, assignment and element access of \<^verbatim>\<open>havJSONData\<close>\<close>































section \<open>UTF-8 output: \<^verbatim>\<open>CodePointToString\<close> and \<^verbatim>\<open>ConvertToEscapedString\<close>\<close>

text \<open>
  \<^verbatim>\<open>CodePointToString\<close>, lines 961--990. The five-byte buffer starts as NULs
  and is returned as a C string. \<open>codePoint\<close> is the value of the
  \<^verbatim>\<open>unsigned int\<close> argument; the assignment to a \<^verbatim>\<open>char\<close> keeps the
  low eight bits (\<open>char_of\<close>).
\<close>

definition CodePointToString :: "nat \<Rightarrow> string" where
  "CodePointToString codePoint =
     c_str
       (if codePoint < 0x80 then
          [char_of codePoint, NUL, NUL, NUL, NUL]
        else if codePoint < 0x800 then
          [char_of (drop_bit 6 codePoint OR 0xc0),
           char_of ((codePoint AND 0x3f) OR 0x80), NUL, NUL, NUL]
        else if codePoint < 0x10000 then
          [char_of (drop_bit 12 codePoint OR 0xe0),
           char_of ((drop_bit 6 codePoint AND 0x3f) OR 0x80),
           char_of ((codePoint AND 0x3f) OR 0x80), NUL, NUL]
        else if codePoint < 0x110000 then
          [char_of (drop_bit 18 codePoint OR 0xf0),
           char_of ((drop_bit 12 codePoint AND 0x3f) OR 0x80),
           char_of ((drop_bit 6 codePoint AND 0x3f) OR 0x80),
           char_of ((codePoint AND 0x3f) OR 0x80), NUL]
        else [NUL, NUL, NUL, NUL, NUL])"

text \<open>
  \<^verbatim>\<open>ConvertToEscapedString\<close>, lines 992--1124. \<open>utf8_lead\<close> is the
  \<^verbatim>\<open>if\<close> chain of the \<^verbatim>\<open>default\<close> branch on the first byte: it
  gives \<open>(numOfBytes, writeAsHex, codePoint)\<close>. The masks are below 256, so the
  results do not depend on the signedness of \<^verbatim>\<open>char\<close>, and the comparison
  \<^verbatim>\<open>value[index] < 0x1f\<close> is made on a byte below 0x80 only.
\<close>

definition utf8_lead :: "char \<Rightarrow> error + nat \<times> bool \<times> nat" where
  "utf8_lead c =
     (if byte c AND 0x80 = 0x00 then
        (if byte c < 0x1f then Inr (1, True, byte c AND 0x7f) else Inr (1, False, 0))
      else if byte c AND 0xe0 = 0xc0 then Inr (2, True, byte c AND 0x1f)
      else if byte c AND 0xf0 = 0xe0 then Inr (3, True, byte c AND 0x0f)
      else if byte c AND 0xf8 = 0xf0 then Inr (4, True, byte c AND 0x07)
      else Inl (runtime_error ''Invalid UTF-8 sequence!''))"

text \<open>
  The loop over the continuation bytes,
  \<^verbatim>\<open>for (byteCount = 1; byteCount < numOfBytes; ++byteCount)\<close>; it returns the
  index of the last byte read and the code point.
\<close>

function utf8_continuation ::
  "string \<Rightarrow> nat \<Rightarrow> nat \<Rightarrow> nat \<Rightarrow> nat \<Rightarrow> error + nat \<times> nat"
where
  "utf8_continuation val index byteCount numOfBytes codePoint =
     (if byteCount < numOfBytes then
        (if byte (cxx_at val (index + 1)) AND 0xc0 \<noteq> 0x80
         then Inl (runtime_error ''Invalid UTF-8 sequence!'')
         else utf8_continuation val (index + 1) (byteCount + 1) numOfBytes
                (push_bit 6 codePoint OR (byte (cxx_at val (index + 1)) AND 0x3f)))
      else Inr (index, codePoint))"
  by pat_completeness auto
termination
  by (relation "measure (\<lambda>(val, index, byteCount, numOfBytes, codePoint). numOfBytes - byteCount)") auto

declare utf8_continuation.simps [simp del]

text \<open>\<^verbatim>\<open>"\\u" << std::hex << std::setw(4) << std::setfill('0') << n\<close>.\<close>

definition u_escape :: "nat \<Rightarrow> string" where
  "u_escape n = [backslash, CHR ''u''] @ setw_fill0 4 (to_hex n)"

text \<open>
  One iteration of the \<^verbatim>\<open>for\<close> loop: the \<^verbatim>\<open>switch\<close> on
  \<^verbatim>\<open>value[index]\<close>. The result is the index the iteration ends at (before
  \<^verbatim>\<open>++index\<close>) and the new \<^verbatim>\<open>resultValue\<close>.
\<close>

definition escape_step :: "string \<Rightarrow> nat \<Rightarrow> string \<Rightarrow> error + nat \<times> string" where
  "escape_step val index resultValue =
     (let c = val ! index in
      if c = quote then Inr (index, resultValue @ [backslash, quote])
      else if c = backslash then Inr (index, resultValue @ [backslash, backslash])
      else if c = CHR 0x08 then Inr (index, resultValue @ [backslash, CHR ''b''])
      else if c = CHR 0x0C then Inr (index, resultValue @ [backslash, CHR ''f''])
      else if c = CHR 0x0A then Inr (index, resultValue @ [backslash, CHR ''n''])
      else if c = CHR 0x0D then Inr (index, resultValue @ [backslash, CHR ''r''])
      else if c = CHR 0x09 then Inr (index, resultValue @ [backslash, CHR ''t''])
      else if c = CHR 0x0B then Inr (index, resultValue @ [backslash, CHR ''v''])
      else
        (case utf8_lead c of
           Inl e \<Rightarrow> Inl e
         | Inr (numOfBytes, writeAsHex, codePoint) \<Rightarrow>
             (case utf8_continuation val index 1 numOfBytes codePoint of
                Inl e \<Rightarrow> Inl e
              | Inr (index, codePoint) \<Rightarrow>
                  if writeAsHex then
                    (if 0x10000 \<le> codePoint \<and> codePoint \<le> 0x10ffff then
                       (let codePoint = codePoint - 0x10000;
                            highSurrogate = codePoint div 0x400 + 0xd800;
                            lowSurrogate = codePoint mod 0x400 + 0xdc00
                        in Inr (index, resultValue @ u_escape highSurrogate @ u_escape lowSurrogate))
                     else Inr (index, resultValue @ u_escape codePoint))
                  else Inr (index, resultValue @ [val ! index]))))"

lemma utf8_continuation_index:
  "utf8_continuation val index byteCount numOfBytes codePoint = Inr (index', codePoint')
   \<Longrightarrow> index \<le> index'"
proof (induction val index byteCount numOfBytes codePoint rule: utf8_continuation.induct)
  case (1 val index byteCount numOfBytes codePoint)
  show ?case
  proof (cases "byteCount < numOfBytes")
    case True
    with "1.prems" have ok: "\<not> byte (cxx_at val (index + 1)) AND 0xc0 \<noteq> 0x80"
      by (subst (asm) utf8_continuation.simps) (auto split: if_splits)
    with True "1.prems" have
      "utf8_continuation val (index + 1) (byteCount + 1) numOfBytes
         (push_bit 6 codePoint OR (byte (cxx_at val (index + 1)) AND 0x3f)) = Inr (index', codePoint')"
      by (subst (asm) utf8_continuation.simps) simp
    with "1.IH" [OF True ok] show ?thesis by simp
  next
    case False
    with "1.prems" show ?thesis
      by (subst (asm) utf8_continuation.simps) simp
  qed
qed

lemma escape_step_index:
  "escape_step val index resultValue = Inr (index', resultValue') \<Longrightarrow> index \<le> index'"
  unfolding escape_step_def Let_def
  by (auto split: if_splits sum.splits prod.splits dest: utf8_continuation_index)

function ConvertToEscapedString_loop :: "string \<Rightarrow> nat \<Rightarrow> string \<Rightarrow> error + string" where
  "ConvertToEscapedString_loop val index resultValue =
     (if index < length val then
        (case escape_step val index resultValue of
           Inl e \<Rightarrow> Inl e
         | Inr (index', resultValue') \<Rightarrow> ConvertToEscapedString_loop val (index' + 1) resultValue')
      else Inr resultValue)"
  by pat_completeness auto
termination
proof (relation "measure (\<lambda>(val, index, resultValue). length val - index)")
  show "wf (measure (\<lambda>(val, index, resultValue). length val - index))" by simp
next
  fix val :: string and index :: nat and resultValue :: string and x2 x y
  assume "index < length val" and "escape_step val index resultValue = Inr x2" and "(x, y) = x2"
  then have "index \<le> x" using escape_step_index [of val index resultValue x y] by simp
  with \<open>index < length val\<close>
  show "((val, x + 1, y), (val, index, resultValue))
        \<in> measure (\<lambda>(val, index, resultValue). length val - index)"
    by simp
qed

declare ConvertToEscapedString_loop.simps [simp del]

definition ConvertToEscapedString :: "string \<Rightarrow> error + string" where
  "ConvertToEscapedString val = ConvertToEscapedString_loop val 0 []"

section \<open>The lexer: string literals\<close>

text \<open>
  The loop that reads the four characters after \<^verbatim>\<open>\u\<close> (lines 1193--1214 and
  1238--1259): \<^verbatim>\<open>for (valueIndex = 0; valueIndex < 4; ++valueIndex)\<close>. It
  returns the index, \<^verbatim>\<open>hexString\<close> and the flag
  (\<^verbatim>\<open>isUnicodeEscapeSequence\<close>, \<^verbatim>\<open>surrogatePair\<close>) as the loop leaves
  them.
\<close>

abbreviation read_beyond_eof :: error where
  "read_beyond_eof \<equiv> runtime_error ''Read beyond end of file!''"

function read_hex ::
  "string \<Rightarrow> nat \<Rightarrow> nat \<Rightarrow> string \<Rightarrow> bool \<Rightarrow> error + nat \<times> string \<times> bool"
where
  "read_hex s index valueIndex hexString flag =
     (if valueIndex < 4 then
        (if index + 1 \<ge> length s then Inl read_beyond_eof
         else if \<not> isxdigit (s ! (index + 1)) then Inr (index + 1, hexString, False)
         else read_hex s (index + 1) (valueIndex + 1) (hexString @ [s ! (index + 1)]) True)
      else Inr (index, hexString, flag))"
  by pat_completeness auto
termination
  by (relation "measure (\<lambda>(s, index, valueIndex, hexString, flag). 4 - valueIndex)") auto

declare read_hex.simps [simp del]

text \<open>
  \<^verbatim>\<open>case 'u'\<close> of the escape \<^verbatim>\<open>switch\<close>, lines 1185--1322. \<open>index\<close>
  is the position of the \<^verbatim>\<open>u\<close>; the result is the index at the
  \<^verbatim>\<open>break\<close> and the new \<^verbatim>\<open>tempValue\<close>.
\<close>

definition escape_u :: "string \<Rightarrow> nat \<Rightarrow> string \<Rightarrow> error + nat \<times> string" where
  "escape_u s index tempValue =
     (case read_hex s index 0 [] False of
        Inl e \<Rightarrow> Inl e
      | Inr (index, hexString, isUnicodeEscapeSequence) \<Rightarrow>
          if isUnicodeEscapeSequence then
            (let codePoint = strtol16 hexString in
             if index + 1 \<ge> length s then Inl read_beyond_eof
             else if s ! (index + 1) = backslash then
               (if index + 2 \<ge> length s then Inl read_beyond_eof
                else if s ! (index + 2) = CHR ''u'' then
                  (case read_hex s (index + 2) 0 [] False of
                     Inl e \<Rightarrow> Inl e
                   | Inr (index, hexString, surrogatePair) \<Rightarrow>
                       if surrogatePair then
                         (if 0xd800 \<le> codePoint \<and> codePoint \<le> 0xdbff then
                            (let secondCodePoint = strtol16 hexString in
                             if 0xdc00 \<le> secondCodePoint \<and> secondCodePoint \<le> 0xdfff then
                               (let surrogatePairValue =
                                      0x10000 + (codePoint - 0xd800) * 0x400 + (secondCodePoint - 0xdc00)
                                in Inr (index, tempValue @ CodePointToString surrogatePairValue))
                             else Inl (runtime_error ''Invalid code point range for UTF-16 low surrogate pair!''))
                          else Inr (index - 6, tempValue @ CodePointToString codePoint))
                       else Inl (runtime_error ''Invalid code point for UTF-16 low surrogate pair!''))
                else Inr (index + 2 - 2, tempValue @ CodePointToString codePoint))
             else Inr (index + 1 - 1, tempValue @ CodePointToString codePoint))
          else
            Inr (index - 1,
                 (tempValue @ [CHR ''u'']) @ (if length hexString > 0 then hexString else [])))"

text \<open>
  One iteration of the loop of \<^verbatim>\<open>CheckForString\<close>, lines 1134--1337: either the
  function returns the token (\<open>Inl\<close>), or the iteration ends with a new index and
  \<^verbatim>\<open>tempValue\<close> (\<open>Inr\<close>).
\<close>

definition string_step ::
  "string \<Rightarrow> nat \<Rightarrow> string \<Rightarrow> error + (havJSONTokenValue + nat \<times> string)"
where
  "string_step s index tempValue =
     (let currentChar = s ! index in
      if currentChar = quote then
        Inr (Inl \<lparr>mToken = TK_Value, mValue = Some tempValue\<rparr>)
      else if currentChar = backslash then
        (if index + 1 \<ge> length s then Inl read_beyond_eof
         else
           (let index = index + 1; currentChar = s ! index in
            if currentChar = quote \<or> currentChar = backslash \<or> currentChar = CHR ''/'' then
              Inr (Inr (index, tempValue @ [currentChar]))
            else if currentChar = CHR ''b'' then Inr (Inr (index, tempValue @ [CHR 0x08]))
            else if currentChar = CHR ''f'' then Inr (Inr (index, tempValue @ [CHR 0x0C]))
            else if currentChar = CHR ''n'' then Inr (Inr (index, tempValue @ [CHR 0x0A]))
            else if currentChar = CHR ''r'' then Inr (Inr (index, tempValue @ [CHR 0x0D]))
            else if currentChar = CHR ''t'' then Inr (Inr (index, tempValue @ [CHR 0x09]))
            else if currentChar = CHR ''u'' then
              (case escape_u s index tempValue of
                 Inl e \<Rightarrow> Inl e
               | Inr r \<Rightarrow> Inr (Inr r))
            else if currentChar = CHR ''v'' then Inr (Inr (index, tempValue @ [CHR 0x0B]))
            else Inl (runtime_error ''Invalid escape character!'')))
      else Inr (Inr (index, tempValue @ [currentChar])))"

lemma read_hex_index:
  "read_hex s index valueIndex hexString flag = Inr (index', hexString', flag')
   \<Longrightarrow> valueIndex \<le> 4
   \<Longrightarrow> index \<le> index' \<and> (valueIndex < 4 \<longrightarrow> index < index')
       \<and> (flag' \<longrightarrow> index' + valueIndex = index + 4)"
proof (induction s index valueIndex hexString flag rule: read_hex.induct)
  case (1 s index valueIndex hexString flag)
  show ?case
  proof (cases "valueIndex < 4")
    case True
    note prem = "1.prems"(1) [unfolded read_hex.simps [of s index valueIndex]]
    from True prem have bound: "\<not> length s \<le> index + 1"
      by (auto split: if_splits)
    show ?thesis
    proof (cases "isxdigit (s ! (index + 1))")
      case False
      with True bound prem show ?thesis by auto
    next
      case hex: True
      with True bound prem have
        "read_hex s (index + 1) (valueIndex + 1) (hexString @ [s ! (index + 1)]) True
           = Inr (index', hexString', flag')"
        by simp
      from "1.IH" [OF True bound _ this] hex True show ?thesis by auto
    qed
  next
    case False
    with "1.prems" show ?thesis
      by (subst (asm) read_hex.simps) auto
  qed
qed

lemma escape_u_index:
  assumes "escape_u s index tempValue = Inr (index', tempValue')"
  shows "index \<le> index'"
proof -
  from assms obtain i1 h1 f1 where r1: "read_hex s index 0 [] False = Inr (i1, h1, f1)"
    unfolding escape_u_def by (auto split: sum.splits)
  from read_hex_index [OF r1] have b1: "index < i1" "f1 \<Longrightarrow> i1 = index + 4"
    by auto
  show ?thesis
  proof (cases f1)
    case False
    with assms r1 b1 show ?thesis
      unfolding escape_u_def by (auto split: if_splits)
  next
    case True
    note f1 = this
    show ?thesis
    proof (cases "s ! (i1 + 1) = backslash \<and> s ! (i1 + 2) = CHR ''u''")
      case False
      with assms r1 b1 f1 show ?thesis
        unfolding escape_u_def Let_def by (auto split: if_splits)
    next
      case True
      with assms r1 f1 obtain i2 h2 f2 where
        r2: "read_hex s (i1 + 2) 0 [] False = Inr (i2, h2, f2)"
        unfolding escape_u_def Let_def by (auto split: if_splits sum.splits)
      from read_hex_index [OF r2] have b2: "i1 + 2 < i2" "f2 \<Longrightarrow> i2 = i1 + 6"
        by auto
      from assms r1 r2 f1 True b1 b2 show ?thesis
        unfolding escape_u_def Let_def by (auto split: if_splits)
    qed
  qed
qed

lemma string_step_index:
  "string_step s index tempValue = Inr (Inr (index', tempValue')) \<Longrightarrow> index \<le> index'"
  unfolding string_step_def Let_def
  by (auto split: if_splits sum.splits dest: escape_u_index)

text \<open>
  The loop of \<^verbatim>\<open>CheckForString\<close> from a given index, and the function itself
  (lines 1126--1340): \<open>index\<close> is the position of the opening quote, the result is
  the token with the position of the closing quote.
\<close>

function CheckForString_loop ::
  "string \<Rightarrow> nat \<Rightarrow> string \<Rightarrow> error + havJSONTokenValue \<times> nat"
where
  "CheckForString_loop s index tempValue =
     (if index < length s then
        (case string_step s index tempValue of
           Inl e \<Rightarrow> Inl e
         | Inr (Inl result) \<Rightarrow> Inr (result, index)
         | Inr (Inr (index', tempValue')) \<Rightarrow> CheckForString_loop s (index' + 1) tempValue')
      else Inl (runtime_error ''Invalid string value!''))"
  by pat_completeness auto
termination
proof (relation "measure (\<lambda>(s, index, tempValue). length s - index)")
  show "wf (measure (\<lambda>(s, index, tempValue). length s - index))" by simp
next
  fix s :: string and index :: nat and tempValue :: string and x2 x2a x y
  assume "index < length s" and "string_step s index tempValue = Inr x2"
    and "x2 = Inr x2a" and "(x, y) = x2a"
  then have "index \<le> x" using string_step_index [of s index tempValue x y] by simp
  with \<open>index < length s\<close>
  show "((s, x + 1, y), (s, index, tempValue)) \<in> measure (\<lambda>(s, index, tempValue). length s - index)"
    by simp
qed

declare CheckForString_loop.simps [simp del]

definition CheckForString :: "nat \<Rightarrow> string \<Rightarrow> error + havJSONTokenValue \<times> nat" where
  "CheckForString index jsonStringStream = CheckForString_loop jsonStringStream (index + 1) []"

section \<open>The lexer: numbers\<close>

text \<open>
  The integer conversions of the standard library. \<open>parse_integer\<close> is the
  subject sequence of \<^verbatim>\<open>strtol\<close> and \<^verbatim>\<open>strtoul\<close> in base 10:
  leading white space, an optional sign, decimal digits; it gives the sign and the
  magnitude, or \<open>None\<close> when there is no digit (the \<^verbatim>\<open>std::sto*\<close> functions
  then throw \<^verbatim>\<open>std::invalid_argument\<close>). Characters behind the digits are not
  looked at: every call of the source discards the end position.
\<close>

definition parse_integer :: "string \<Rightarrow> (bool \<times> nat) option" where
  "parse_integer s =
     (let s1 = dropWhile isspace s;
          negative = (s1 \<noteq> [] \<and> hd s1 = CHR ''-'');
          s2 = (if s1 \<noteq> [] \<and> (hd s1 = CHR ''-'' \<or> hd s1 = CHR ''+'') then tl s1 else s1);
          ds = takeWhile isdigit s2
      in if ds = [] then None
         else Some (negative, foldl (\<lambda>a c. a * 10 + digit_value c) 0 ds))"

text \<open>
  \<open>sto_signed w\<close> is \<^verbatim>\<open>std::stoi\<close> (w = 32), \<^verbatim>\<open>std::stol\<close> (w the
  width of \<^verbatim>\<open>long\<close>) and \<^verbatim>\<open>std::stoll\<close> (w = 64):
  \<^verbatim>\<open>std::out_of_range\<close> when the value is not a w-bit two's complement number.
\<close>

definition sto_signed :: "nat \<Rightarrow> string \<Rightarrow> error + int" where
  "sto_signed w s =
     (case parse_integer s of
        None \<Rightarrow> Inl invalid_argument
      | Some (negative, n) \<Rightarrow>
          (let v = (if negative then - int n else int n) in
           if - (2 ^ (w - 1)) \<le> v \<and> v < 2 ^ (w - 1) then Inr v else Inl out_of_range))"

text \<open>
  \<open>sto_unsigned w\<close> is \<^verbatim>\<open>std::stoul\<close> and \<^verbatim>\<open>std::stoull\<close>:
  \<^verbatim>\<open>strtoul\<close> reports a range error when the magnitude exceeds the largest
  w-bit number, and negates a value with a minus sign in the unsigned type.
\<close>

definition sto_unsigned :: "nat \<Rightarrow> string \<Rightarrow> error + int" where
  "sto_unsigned w s =
     (case parse_integer s of
        None \<Rightarrow> Inl invalid_argument
      | Some (negative, n) \<Rightarrow>
          if n < 2 ^ w then Inr (if negative then (- int n) mod 2 ^ w else int n)
          else Inl out_of_range)"

definition stoi :: "string \<Rightarrow> error + int" where
  "stoi s = sto_signed 32 s"

definition stol :: "platform \<Rightarrow> string \<Rightarrow> error + int" where
  "stol P s = sto_signed (long_bits P) s"

definition stoll :: "string \<Rightarrow> error + int" where
  "stoll s = sto_signed 64 s"

definition stoul :: "platform \<Rightarrow> string \<Rightarrow> error + int" where
  "stoul P s = sto_unsigned (long_bits P) s"

definition stoull :: "string \<Rightarrow> error + int" where
  "stoull s = sto_unsigned 64 s"

text \<open>
  \<^verbatim>\<open>SkipWhitespaces\<close>, lines 914--931.
\<close>

definition SkipWhitespaces :: "char \<Rightarrow> bool \<Rightarrow> bool" where
  "SkipWhitespaces currentChar ignoreSpace =
     (if \<not> ignoreSpace \<and> currentChar = CHR '' '' then True
      else if currentChar = backslash \<or> currentChar = CHR ''/'' \<or> currentChar = CHR 0x08
            \<or> currentChar = CHR 0x0C \<or> currentChar = CHR 0x0A \<or> currentChar = CHR 0x0D
            \<or> currentChar = CHR 0x09 \<or> currentChar = CHR 0x0B
      then True
      else False)"

text \<open>
  \<^verbatim>\<open>CheckForNumber\<close>, lines 1342--1533. \<open>number_scan\<close> is the loop that
  collects the literal up to a comma or a character that \<^verbatim>\<open>SkipWhitespaces\<close>
  accepts; it returns the index the loop stops at and \<^verbatim>\<open>tempValue\<close>.
\<close>

function number_scan :: "string \<Rightarrow> nat \<Rightarrow> string \<Rightarrow> nat \<times> string" where
  "number_scan s index tempValue =
     (if index < length s then
        (if s ! index = CHR '','' \<or> SkipWhitespaces (s ! index) False then (index, tempValue)
         else number_scan s (index + 1) (tempValue @ [s ! index]))
      else (index, tempValue))"
  by pat_completeness auto
termination
  by (relation "measure (\<lambda>(s, index, tempValue). length s - index)") auto

declare number_scan.simps [simp del]

definition text_token :: "havJSONToken \<Rightarrow> string \<Rightarrow> havJSONTokenValue" where
  "text_token t v = \<lparr>mToken = t, mValue = Some v\<rparr>"

definition structural :: "havJSONToken \<Rightarrow> havJSONTokenValue" where
  "structural t = \<lparr>mToken = t, mValue = None\<rparr>"

text \<open>
  The conversion of the literal, lines 1360--1532: the \<^verbatim>\<open>try\<close> blocks nest
  through the handlers of \<^verbatim>\<open>std::out_of_range\<close>; a handler of
  \<^verbatim>\<open>std::invalid_argument\<close> rethrows.
\<close>

definition number_token :: "platform \<Rightarrow> string \<Rightarrow> error + havJSONTokenValue" where
  "number_token P tempValue =
     (let foundDecimalPoint = (CHR ''.'' \<in> set tempValue);
          foundExponent = (CHR ''e'' \<in> set tempValue \<or> CHR ''E'' \<in> set tempValue)
      in
      if tempValue ! 0 = CHR ''-'' then
        (if foundDecimalPoint \<or> foundExponent then
           (case stod P tempValue of
              Inl e \<Rightarrow> Inl e
            | Inr result \<Rightarrow> Inr (text_token TK_Double (fixed15 P result)))
         else
           (case stoi tempValue of
              Inr result \<Rightarrow> Inr (text_token TK_Int (to_string result))
            | Inl out_of_range \<Rightarrow>
                (case stol P tempValue of
                   Inr result \<Rightarrow> Inr (text_token TK_Long (to_string result))
                 | Inl out_of_range \<Rightarrow>
                     (case stoll tempValue of
                        Inr result \<Rightarrow> Inr (text_token TK_Int64 (to_string result))
                      | Inl e \<Rightarrow> Inl e)
                 | Inl e \<Rightarrow> Inl e)
            | Inl e \<Rightarrow> Inl e))
      else
        (if foundDecimalPoint \<or> foundExponent then
           (case stod P tempValue of
              Inl e \<Rightarrow> Inl e
            | Inr result \<Rightarrow> Inr (text_token TK_Double (fixed15 P result)))
         else
           (case (case stoul P tempValue of
                    Inl e \<Rightarrow> Inl e
                  | Inr testResult \<Rightarrow>
                      if testResult > 2 ^ 32 - 1 then Inl out_of_range else Inr testResult) of
              Inr result \<Rightarrow> Inr (text_token TK_UInt (to_string result))
            | Inl out_of_range \<Rightarrow>
                (case stoul P tempValue of
                   Inr result \<Rightarrow> Inr (text_token TK_ULong (to_string result))
                 | Inl out_of_range \<Rightarrow>
                     (case stoull tempValue of
                        Inr result \<Rightarrow> Inr (text_token TK_UInt64 (to_string result))
                      | Inl e \<Rightarrow> Inl e)
                 | Inl e \<Rightarrow> Inl e)
            | Inl e \<Rightarrow> Inl e)))"

text \<open>
  \<open>index\<close> is at least 1 in every call (the callers increment it first), so
  \<^verbatim>\<open>--index\<close> does not wrap around.
\<close>

definition CheckForNumber ::
  "platform \<Rightarrow> nat \<Rightarrow> string \<Rightarrow> char \<Rightarrow> error + havJSONTokenValue \<times> nat"
where
  "CheckForNumber P index jsonStringStream val =
     (case number_scan jsonStringStream index [val] of
        (index, tempValue) \<Rightarrow>
          (case number_token P tempValue of
             Inl e \<Rightarrow> Inl e
           | Inr result \<Rightarrow> Inr (result, index - 1)))"

section \<open>The lexer: literals and structure\<close>

text \<open>\<^verbatim>\<open>CheckToken\<close> and \<^verbatim>\<open>GetTokenAsCharacter\<close>, lines 933--959.\<close>

definition CheckToken :: "char \<Rightarrow> havJSONToken" where
  "CheckToken currentChar =
     (if currentChar = CHR ''['' then TK_LeftSquareBracket
      else if currentChar = CHR ''{'' then TK_LeftCurlyBracket
      else if currentChar = CHR '']'' then TK_RightSquareBracket
      else if currentChar = CHR ''}'' then TK_RightCurlyBracket
      else if currentChar = CHR '':'' then TK_Colon
      else if currentChar = CHR '','' then TK_Comma
      else TK_None)"

definition GetTokenAsCharacter :: "havJSONToken \<Rightarrow> char" where
  "GetTokenAsCharacter currentToken =
     (case currentToken of
        TK_LeftSquareBracket \<Rightarrow> CHR ''[''
      | TK_LeftCurlyBracket \<Rightarrow> CHR ''{''
      | TK_RightSquareBracket \<Rightarrow> CHR '']''
      | TK_RightCurlyBracket \<Rightarrow> CHR ''}''
      | TK_Colon \<Rightarrow> CHR '':''
      | TK_Comma \<Rightarrow> CHR '',''
      | _ \<Rightarrow> NUL)"

text \<open>
  \<^verbatim>\<open>CheckForLiteral\<close>, lines 1535--1564. The loop returns the index it stops
  at (the position of the last character on \<^verbatim>\<open>break\<close>, the size of the input
  when the input ends) and \<^verbatim>\<open>tempValue\<close>.
\<close>

function CheckForLiteral_loop ::
  "string \<Rightarrow> nat \<Rightarrow> string \<Rightarrow> nat \<Rightarrow> string \<Rightarrow> error + nat \<times> string"
where
  "CheckForLiteral_loop s index literalValue stringIndex tempValue =
     (if index < length s then
        (if s ! index \<noteq> cxx_at literalValue stringIndex
         then Inl (runtime_error (''Literal value invalid: '' @ literalValue))
         else if tempValue @ [s ! index] = literalValue then Inr (index, tempValue @ [s ! index])
         else CheckForLiteral_loop s (index + 1) literalValue (stringIndex + 1) (tempValue @ [s ! index]))
      else Inr (index, tempValue))"
  by pat_completeness auto
termination
  by (relation "measure (\<lambda>(s, index, literalValue, stringIndex, tempValue). length s - index)") auto

declare CheckForLiteral_loop.simps [simp del]

definition CheckForLiteral :: "nat \<Rightarrow> string \<Rightarrow> string \<Rightarrow> error + string \<times> nat" where
  "CheckForLiteral index jsonStringStream literalValue =
     (case CheckForLiteral_loop jsonStringStream index literalValue 1 [literalValue ! 0] of
        Inl e \<Rightarrow> Inl e
      | Inr (index, tempValue) \<Rightarrow>
          if length tempValue \<noteq> length literalValue
          then Inl (runtime_error ''Invalid literal value!'')
          else Inr (tempValue, index))"

text \<open>
  The \<^verbatim>\<open>case\<close> block that the array branch (lines 1620--1705) and the last
  branch (lines 1743--1828) of \<^verbatim>\<open>CheckTypeToken\<close> share word for word: a
  string, a literal or a number, chosen by the first character. The tests on
  \<^verbatim>\<open>currentChar\<close> are on different characters, so at most one of them applies;
  for \<^verbatim>\<open>u\<close> none does, and the token is a \<^verbatim>\<open>Value\<close> without text.
\<close>

definition is_number_start :: "char \<Rightarrow> bool" where
  "is_number_start c = (c \<in> set ''-+.:0123456789eE'')"

definition is_value_start :: "char \<Rightarrow> bool" where
  "is_value_start c = (c = quote \<or> c \<in> set ''tfnu'' \<or> is_number_start c)"

definition CheckTypeToken_value ::
  "platform \<Rightarrow> char \<Rightarrow> nat \<Rightarrow> string \<Rightarrow> error + havJSONTokenValue \<times> nat"
where
  "CheckTypeToken_value P currentChar index s =
     (if currentChar = quote then CheckForString index s
      else
        (case (if currentChar = CHR ''t'' then
                 (case CheckForLiteral (index + 1) s ''true'' of
                    Inl e \<Rightarrow> Inl e
                  | Inr (tempValue, index) \<Rightarrow> Inr (TK_Boolean, tempValue, index))
               else if currentChar = CHR ''f'' then
                 (case CheckForLiteral (index + 1) s ''false'' of
                    Inl e \<Rightarrow> Inl e
                  | Inr (tempValue, index) \<Rightarrow> Inr (TK_Boolean, tempValue, index))
               else if currentChar = CHR ''n'' then
                 (case CheckForLiteral (index + 1) s ''null'' of
                    Inl e \<Rightarrow> Inl e
                  | Inr (tempValue, index) \<Rightarrow> Inr (TK_Null, tempValue, index))
               else Inr (TK_Value, [], index + 1)) of
           Inl e \<Rightarrow> Inl e
         | Inr (tempToken, tempValue, index) \<Rightarrow>
             if is_number_start currentChar then CheckForNumber P index s currentChar
             else Inr (\<lparr>mToken = tempToken,
                         mValue = (if tempValue \<noteq> [] then Some tempValue else None)\<rparr>, index)))"

text \<open>
  \<^verbatim>\<open>CheckTypeToken\<close>, lines 1566--1842, one function per branch. The member
  \<^verbatim>\<open>mTokens\<close> is passed in and returned; the result is the token, the index
  (a reference parameter in the source) and \<^verbatim>\<open>mTokens\<close>. When the input ends
  inside a loop, the function returns its argument \<^verbatim>\<open>structuralToken\<close>.
\<close>

function CheckTypeToken_object ::
  "nat \<Rightarrow> string \<Rightarrow> havJSONTokenValue list
   \<Rightarrow> error + havJSONTokenValue \<times> nat \<times> havJSONTokenValue list"
where
  "CheckTypeToken_object index s mTokens =
     (if index < length s then
        (if SkipWhitespaces (s ! index) False then CheckTypeToken_object (index + 1) s mTokens
         else if CheckToken (s ! index) \<noteq> TK_None then
           CheckTypeToken_object (index + 1) s (mTokens @ [structural (CheckToken (s ! index))])
         else if s ! index = quote then
           (case CheckForString index s of
              Inl e \<Rightarrow> Inl e
            | Inr (result, index) \<Rightarrow> Inr (result\<lparr>mToken := TK_String\<rparr>, index, mTokens))
         else Inr (structural TK_None, index, mTokens))
      else Inr (structural TK_LeftCurlyBracket, index, mTokens))"
  by pat_completeness auto
termination
  by (relation "measure (\<lambda>(index, s, mTokens). length s - index)") auto

declare CheckTypeToken_object.simps [simp del]

function CheckTypeToken_array ::
  "platform \<Rightarrow> nat \<Rightarrow> string \<Rightarrow> havJSONTokenValue list
   \<Rightarrow> error + havJSONTokenValue \<times> nat \<times> havJSONTokenValue list"
where
  "CheckTypeToken_array P index s mTokens =
     (if index < length s then
        (if SkipWhitespaces (s ! index) False then CheckTypeToken_array P (index + 1) s mTokens
         else if is_value_start (s ! index) then
           (case CheckTypeToken_value P (s ! index) index s of
              Inl e \<Rightarrow> Inl e
            | Inr (result, index) \<Rightarrow> Inr (result, index, mTokens))
         else if s ! index = CHR ''{'' then
           Inr (structural TK_LeftCurlyBracket, index, mTokens @ [structural TK_LeftCurlyBracket])
         else if s ! index = CHR ''['' then
           Inr (structural TK_LeftSquareBracket, index, mTokens @ [structural TK_LeftSquareBracket])
         else Inr (structural TK_None, index, mTokens))
      else Inr (structural TK_LeftSquareBracket, index, mTokens))"
  by pat_completeness auto
termination
  by (relation "measure (\<lambda>(P, index, s, mTokens). length s - index)") auto

declare CheckTypeToken_array.simps [simp del]

function CheckTypeToken_other ::
  "platform \<Rightarrow> havJSONToken \<Rightarrow> nat \<Rightarrow> string \<Rightarrow> havJSONTokenValue list
   \<Rightarrow> error + havJSONTokenValue \<times> nat \<times> havJSONTokenValue list"
where
  "CheckTypeToken_other P structuralToken index s mTokens =
     (if index < length s then
        (if SkipWhitespaces (s ! index) False then
           CheckTypeToken_other P structuralToken (index + 1) s mTokens
         else if CheckToken (s ! index) \<noteq> TK_None then
           Inr (structural (CheckToken (s ! index)), index,
                mTokens @ [structural (CheckToken (s ! index))])
         else if is_value_start (s ! index) then
           (case CheckTypeToken_value P (s ! index) index s of
              Inl e \<Rightarrow> Inl e
            | Inr (result, index) \<Rightarrow> Inr (result, index, mTokens))
         else Inr (structural TK_None, index, mTokens))
      else Inr (structural structuralToken, index, mTokens))"
  by pat_completeness auto
termination
  by (relation "measure (\<lambda>(P, structuralToken, index, s, mTokens). length s - index)") auto

declare CheckTypeToken_other.simps [simp del]

definition CheckTypeToken ::
  "platform \<Rightarrow> havJSONToken \<Rightarrow> nat \<Rightarrow> string \<Rightarrow> havJSONTokenValue list
   \<Rightarrow> error + havJSONTokenValue \<times> nat \<times> havJSONTokenValue list"
where
  "CheckTypeToken P structuralToken index jsonStringStream mTokens =
     (if structuralToken = TK_LeftCurlyBracket then
        CheckTypeToken_object index jsonStringStream mTokens
      else if structuralToken = TK_LeftSquareBracket then
        CheckTypeToken_array P index jsonStringStream mTokens
      else CheckTypeToken_other P structuralToken index jsonStringStream mTokens)"

text \<open>
  \<^verbatim>\<open>Tokenization(const std::string&)\<close>, lines 2601--2805. The state of the
  loop is the index, the member \<^verbatim>\<open>mTokens\<close> and the local variables.
  \<open>Tokenization_step\<close> is the body of the loop for a character that
  \<^verbatim>\<open>SkipWhitespaces\<close> does not accept; it returns the state at the end of the
  body, before \<^verbatim>\<open>++index\<close>.

  \<^verbatim>\<open>--index\<close> followed by \<^verbatim>\<open>++index\<close> in the call of
  \<^verbatim>\<open>CheckTypeToken\<close> leaves the (unsigned) index as it was, also at 0: the
  model passes \<open>index\<close> in that case and \<open>index + 1\<close> otherwise.
  \<^verbatim>\<open>typeTokens[depthLevel]\<close> past the end of the deque is undefined behaviour.
\<close>

record lexer_state =
  l_index :: nat
  l_mTokens :: "havJSONTokenValue list"
  l_currentTypeToken :: havJSONToken
  l_typeTokens :: "havJSONToken list"
  l_typeTokenDepthLevels :: "nat list"
  l_depthLevel :: nat

definition is_open :: "havJSONToken \<Rightarrow> bool" where
  "is_open t = (t = TK_LeftCurlyBracket \<or> t = TK_LeftSquareBracket)"

definition is_close :: "havJSONToken \<Rightarrow> bool" where
  "is_close t = (t = TK_RightCurlyBracket \<or> t = TK_RightSquareBracket)"

definition Tokenization_open :: "havJSONToken \<Rightarrow> lexer_state \<Rightarrow> lexer_state" where
  "Tokenization_open tok st =
     (let st = (if is_open tok then
                  (let st = st\<lparr>l_currentTypeToken := tok, l_typeTokens := l_typeTokens st @ [tok]\<rparr>
                   in if l_depthLevel st > 0
                      then st\<lparr>l_typeTokenDepthLevels := l_typeTokenDepthLevels st @ [l_depthLevel st],
                              l_depthLevel := l_depthLevel st + 1\<rparr>
                      else st)
                else st)
      in if tok \<noteq> TK_None then st\<lparr>l_mTokens := l_mTokens st @ [structural tok]\<rparr> else st)"

definition Tokenization_close :: "lexer_state \<Rightarrow> error + lexer_state" where
  "Tokenization_close st =
     (if l_typeTokens st \<noteq> [] then
        (let st = (if l_typeTokenDepthLevels st \<noteq> []
                   then st\<lparr>l_depthLevel := last (l_typeTokenDepthLevels st),
                           l_typeTokenDepthLevels := butlast (l_typeTokenDepthLevels st)\<rparr>
                   else st\<lparr>l_depthLevel := 0\<rparr>)
         in if l_depthLevel st < length (l_typeTokens st)
            then Inr (st\<lparr>l_currentTypeToken := l_typeTokens st ! l_depthLevel st,
                         l_typeTokens := butlast (l_typeTokens st)\<rparr>)
            else Inl undefined_behaviour)
      else Inr st)"

definition Tokenization_step :: "platform \<Rightarrow> string \<Rightarrow> lexer_state \<Rightarrow> error + lexer_state" where
  "Tokenization_step P s st0 =
     (let tok = CheckToken (s ! l_index st0);
          st = Tokenization_open tok st0
      in
      if is_close tok then Tokenization_close st
      else
        (let tok = (if tok = TK_Comma then l_currentTypeToken st else tok);
             start = (if tok = TK_None then l_index st else l_index st + 1);
             tok = (if tok = TK_None then l_currentTypeToken st else tok)
         in
         case CheckTypeToken P tok start s (l_mTokens st) of
           Inl e \<Rightarrow> Inl e
         | Inr (typeToken, index, mTokens) \<Rightarrow>
             (let st = st\<lparr>l_index := index, l_mTokens := mTokens\<rparr> in
              if mToken typeToken \<noteq> TK_None then
                (if is_open (mToken typeToken) then
                   Inr (st\<lparr>l_currentTypeToken := mToken typeToken,
                            l_typeTokens := l_typeTokens st @ [mToken typeToken],
                            l_typeTokenDepthLevels := l_typeTokenDepthLevels st @ [l_depthLevel st],
                            l_depthLevel := l_depthLevel st + 1\<rparr>)
                 else Inr (st\<lparr>l_mTokens := l_mTokens st @ [typeToken]\<rparr>))
              else Inr st)))"

lemma CheckForString_loop_index:
  "CheckForString_loop s index tempValue = Inr (result, index') \<Longrightarrow> index \<le> index'"
proof (induction s index tempValue rule: CheckForString_loop.induct)
  case (1 s index tempValue)
  from "1.prems" have lt: "index < length s"
    by (subst (asm) CheckForString_loop.simps) (simp split: if_splits)
  show ?case
  proof (cases "string_step s index tempValue")
    case (Inl e)
    with "1.prems" lt show ?thesis
      by (subst (asm) CheckForString_loop.simps) simp
  next
    case (Inr r)
    show ?thesis
    proof (cases r)
      case (Inl tok)
      with Inr "1.prems" lt show ?thesis
        by (subst (asm) CheckForString_loop.simps) simp
    next
      case (Inr next_state)
      obtain i t where n: "next_state = (i, t)" by (cases next_state)
      with Inr \<open>string_step s index tempValue = Inr r\<close>
      have step: "string_step s index tempValue = Inr (Inr (i, t))" by simp
      with "1.prems" lt have "CheckForString_loop s (i + 1) t = Inr (result, index')"
        by (subst (asm) CheckForString_loop.simps) simp
      with "1.IH" [OF lt step refl refl] have "i + 1 \<le> index'" by simp
      with string_step_index [OF step] show ?thesis by simp
    qed
  qed
qed

lemma CheckForString_index:
  "CheckForString index s = Inr (result, index') \<Longrightarrow> index < index'"
  using CheckForString_loop_index [of s "index + 1" "[]" result index']
  by (simp add: CheckForString_def)

lemma CheckForLiteral_loop_index:
  "CheckForLiteral_loop s index literalValue stringIndex tempValue = Inr (index', tempValue')
   \<Longrightarrow> index \<le> index'"
proof (induction s index literalValue stringIndex tempValue rule: CheckForLiteral_loop.induct)
  case (1 s index literalValue stringIndex tempValue)
  note prem = "1.prems" [unfolded CheckForLiteral_loop.simps [of s index literalValue stringIndex]]
  show ?case
  proof (cases "index < length s")
    case False
    with prem show ?thesis by simp
  next
    case lt: True
    show ?thesis
    proof (cases "s ! index \<noteq> cxx_at literalValue stringIndex")
      case True
      with lt prem show ?thesis by simp
    next
      case same: False
      show ?thesis
      proof (cases "tempValue @ [s ! index] = literalValue")
        case True
        with lt same prem show ?thesis by simp
      next
        case False
        have "CheckForLiteral_loop s (index + 1) literalValue (stringIndex + 1) (tempValue @ [s ! index])
              = Inr (index', tempValue')"
          using prem by (simp only: lt same False if_True if_False)
        from "1.IH" [OF lt same False this] show ?thesis by simp
      qed
    qed
  qed
qed

lemma CheckForLiteral_index:
  "CheckForLiteral index s literalValue = Inr (tempValue, index') \<Longrightarrow> index \<le> index'"
  by (auto simp: CheckForLiteral_def split: sum.splits if_splits dest: CheckForLiteral_loop_index)

lemma number_scan_index:
  "number_scan s index tempValue = (index', lit) \<Longrightarrow> index \<le> index'"
proof (induction s index tempValue rule: number_scan.induct)
  case (1 s index tempValue)
  show ?case
  proof (cases "index < length s \<and> \<not> (s ! index = CHR '','' \<or> SkipWhitespaces (s ! index) False)")
    case True
    with "1.prems" have "number_scan s (index + 1) (tempValue @ [s ! index]) = (index', lit)"
      by (subst (asm) number_scan.simps) (simp split: if_splits)
    with "1.IH" True show ?thesis by fastforce
  next
    case False
    with "1.prems" show ?thesis
      by (subst (asm) number_scan.simps) (auto split: if_splits)
  qed
qed

lemma CheckForNumber_index:
  "CheckForNumber P index s c = Inr (result, index') \<Longrightarrow> index \<le> index' + 1"
  by (auto simp: CheckForNumber_def split: prod.splits sum.splits dest: number_scan_index)

lemma CheckTypeToken_value_index:
  assumes "CheckTypeToken_value P c index s = Inr (result, index')"
  shows "index \<le> index'"
proof (cases "c = quote")
  case True
  with assms CheckForString_index [of index s result index'] show ?thesis
    by (simp add: CheckTypeToken_value_def)
next
  case False
  with assms obtain tempToken tempValue i where
    lit: "(if c = CHR ''t'' then
            (case CheckForLiteral (index + 1) s ''true'' of
               Inl e \<Rightarrow> Inl e
             | Inr (tempValue, index) \<Rightarrow> Inr (TK_Boolean, tempValue, index))
          else if c = CHR ''f'' then
            (case CheckForLiteral (index + 1) s ''false'' of
               Inl e \<Rightarrow> Inl e
             | Inr (tempValue, index) \<Rightarrow> Inr (TK_Boolean, tempValue, index))
          else if c = CHR ''n'' then
            (case CheckForLiteral (index + 1) s ''null'' of
               Inl e \<Rightarrow> Inl e
             | Inr (tempValue, index) \<Rightarrow> Inr (TK_Null, tempValue, index))
          else Inr (TK_Value, [], index + 1)) = Inr (tempToken, tempValue, i)"
    and rest: "(if is_number_start c then CheckForNumber P i s c
               else Inr (\<lparr>mToken = tempToken,
                           mValue = (if tempValue \<noteq> [] then Some tempValue else None)\<rparr>, i))
               = Inr (result, index')"
    unfolding CheckTypeToken_value_def by (auto split: sum.splits prod.splits)
  from lit have "index + 1 \<le> i"
    by (auto split: if_splits sum.splits dest: CheckForLiteral_index)
  moreover from rest have "i \<le> index' + 1"
    by (auto split: if_splits dest: CheckForNumber_index)
  ultimately show ?thesis by simp
qed

lemma CheckTypeToken_object_index:
  "CheckTypeToken_object index s mTokens = Inr (result, index', mTokens') \<Longrightarrow> index \<le> index'"
proof (induction index s mTokens rule: CheckTypeToken_object.induct)
  case (1 index s mTokens)
  note prem = "1.prems" [unfolded CheckTypeToken_object.simps [of index s mTokens]]
  show ?case
  proof (cases "index < length s")
    case False
    with prem show ?thesis by simp
  next
    case lt: True
    show ?thesis
    proof (cases "SkipWhitespaces (s ! index) False")
      case True
      with lt prem "1.IH"(1) show ?thesis by fastforce
    next
      case ws: False
      show ?thesis
      proof (cases "CheckToken (s ! index) \<noteq> TK_None")
        case True
        with lt ws prem "1.IH"(2) show ?thesis by fastforce
      next
        case False
        with lt ws prem show ?thesis
          by (auto split: if_splits sum.splits dest: CheckForString_index)
      qed
    qed
  qed
qed

lemma CheckTypeToken_array_index:
  "CheckTypeToken_array P index s mTokens = Inr (result, index', mTokens') \<Longrightarrow> index \<le> index'"
proof (induction P index s mTokens rule: CheckTypeToken_array.induct)
  case (1 P index s mTokens)
  note prem = "1.prems" [unfolded CheckTypeToken_array.simps [of P index s mTokens]]
  show ?case
  proof (cases "index < length s")
    case False
    with prem show ?thesis by simp
  next
    case lt: True
    show ?thesis
    proof (cases "SkipWhitespaces (s ! index) False")
      case True
      with lt prem "1.IH" show ?thesis by fastforce
    next
      case False
      with lt prem show ?thesis
        by (auto split: if_splits sum.splits dest: CheckTypeToken_value_index)
    qed
  qed
qed

lemma CheckTypeToken_other_index:
  "CheckTypeToken_other P t index s mTokens = Inr (result, index', mTokens') \<Longrightarrow> index \<le> index'"
proof (induction P t index s mTokens rule: CheckTypeToken_other.induct)
  case (1 P t index s mTokens)
  note prem = "1.prems" [unfolded CheckTypeToken_other.simps [of P t index s mTokens]]
  show ?case
  proof (cases "index < length s")
    case False
    with prem show ?thesis by simp
  next
    case lt: True
    show ?thesis
    proof (cases "SkipWhitespaces (s ! index) False")
      case True
      with lt prem "1.IH" show ?thesis by fastforce
    next
      case False
      with lt prem show ?thesis
        by (auto split: if_splits sum.splits dest: CheckTypeToken_value_index)
    qed
  qed
qed

lemma CheckTypeToken_index:
  "CheckTypeToken P t index s mTokens = Inr (result, index', mTokens') \<Longrightarrow> index \<le> index'"
  by (auto simp: CheckTypeToken_def split: if_splits
        dest: CheckTypeToken_object_index CheckTypeToken_array_index CheckTypeToken_other_index)

lemma Tokenization_open_index [simp]: "l_index (Tokenization_open tok st) = l_index st"
  by (simp add: Tokenization_open_def Let_def)

lemma Tokenization_step_index:
  "Tokenization_step P s st = Inr st' \<Longrightarrow> l_index st \<le> l_index st'"
  unfolding Tokenization_step_def Tokenization_close_def Let_def
  by (fastforce split: if_splits sum.splits prod.splits dest: CheckTypeToken_index)

function Tokenization_loop :: "platform \<Rightarrow> string \<Rightarrow> lexer_state \<Rightarrow> error + lexer_state" where
  "Tokenization_loop P s st =
     (if l_index st < length s then
        (if SkipWhitespaces (s ! l_index st) False then
           Tokenization_loop P s (st\<lparr>l_index := l_index st + 1\<rparr>)
         else
           (case Tokenization_step P s st of
              Inl e \<Rightarrow> Inl e
            | Inr st' \<Rightarrow> Tokenization_loop P s (st'\<lparr>l_index := l_index st' + 1\<rparr>)))
      else Inr st)"
  by pat_completeness auto
termination
proof (relation "measure (\<lambda>(P, s, st). length s - l_index st)")
  show "wf (measure (\<lambda>(P, s, st). length s - l_index st))" by simp
next
  fix P :: platform and s :: string and st :: lexer_state
  assume "l_index st < length s"
  then show "((P, s, st\<lparr>l_index := l_index st + 1\<rparr>), (P, s, st))
             \<in> measure (\<lambda>(P, s, st). length s - l_index st)"
    by simp
next
  fix P :: platform and s :: string and st st' :: lexer_state
  assume "l_index st < length s" and "Tokenization_step P s st = Inr st'"
  with Tokenization_step_index [of P s st st']
  show "((P, s, st'\<lparr>l_index := l_index st' + 1\<rparr>), (P, s, st))
        \<in> measure (\<lambda>(P, s, st). length s - l_index st)"
    by simp
qed

declare Tokenization_loop.simps [simp del]

text \<open>
  \<^verbatim>\<open>Tokenization\<close> clears \<^verbatim>\<open>mTokens\<close>, runs the loop and returns whether
  there is a token; the model returns \<^verbatim>\<open>mTokens\<close> with it.
\<close>

definition Tokenization :: "platform \<Rightarrow> string \<Rightarrow> error + bool \<times> havJSONTokenValue list" where
  "Tokenization P jsonStringStream =
     (case Tokenization_loop P jsonStringStream
             \<lparr>l_index = 0, l_mTokens = [], l_currentTypeToken = TK_None, l_typeTokens = [],
              l_typeTokenDepthLevels = [], l_depthLevel = 0\<rparr> of
        Inl e \<Rightarrow> Inl e
      | Inr st \<Rightarrow> Inr (length (l_mTokens st) > 0, l_mTokens st))"

section \<open>The builder: \<^verbatim>\<open>ParseJSONContents\<close>\<close>

text \<open>
  Running a computation that may throw and going on with its result.
\<close>

definition and_then :: "error + 'a \<Rightarrow> ('a \<Rightarrow> error + 'b) \<Rightarrow> error + 'b" where
  "and_then m f = (case m of Inl e \<Rightarrow> Inl e | Inr x \<Rightarrow> f x)"

lemma and_then_simps [simp]:
  "and_then (Inl e) f = Inl e"
  "and_then (Inr x) f = f x"
  by (simp_all add: and_then_def)

lemma and_then_weak_cong [cong]: "m = m' \<Longrightarrow> and_then m f = and_then m' f"
  by simp

text \<open>
  The builder holds raw pointers to the nodes of the tree it builds
  (\<^verbatim>\<open>std::deque<havJSONData*> tokenTypeReferences\<close>; \<open>tokens_front\<close>,
  \<open>tokens_pop_front\<close> are \<^verbatim>\<open>mTokens.front()\<close> and
  \<^verbatim>\<open>mTokens.pop_front()\<close>, \<open>refs_back\<close> and \<open>refs_pop_back\<close> are
  \<^verbatim>\<open>tokenTypeReferences.back()\<close> and \<^verbatim>\<open>tokenTypeReferences.pop_back()\<close>). A pointer to a node is
  the path from the root to it: the index of an array element or the key of an
  object entry at each step. The builder only appends to arrays and inserts into
  maps, so a path keeps naming the node it was made for.
\<close>

datatype selector = Index nat | Key string

primrec node_at :: "selector list \<Rightarrow> havJSONData \<Rightarrow> havJSONData option" where
  "node_at [] node = Some node"
| "node_at (sel # path) node =
     (case (sel, getValue node) of
        (Index i, V_vector xs) \<Rightarrow> if i < length xs then node_at path (xs ! i) else None
      | (Key k, V_map m) \<Rightarrow>
          (case map_find m k of
             Some child \<Rightarrow> node_at path child
           | None \<Rightarrow> None)
      | _ \<Rightarrow> None)"

primrec update_at ::
  "selector list \<Rightarrow> (havJSONData \<Rightarrow> havJSONData) \<Rightarrow> havJSONData \<Rightarrow> havJSONData"
where
  "update_at [] f node = f node"
| "update_at (sel # path) f node =
     (case (sel, getValue node) of
        (Index i, V_vector xs) \<Rightarrow>
          havJSONData (getType node) (V_vector (xs[i := update_at path f (xs ! i)]))
      | (Key k, V_map m) \<Rightarrow>
          havJSONData (getType node)
            (V_map (map (\<lambda>(k', child). if k' = k then (k', update_at path f child)
                                         else (k', child)) m))
      | _ \<Rightarrow> node)"

record parser_state =
  p_mTokens :: "havJSONTokenValue list"
  p_tokenTypeReferences :: "selector list list"
  p_rootNode :: "havJSONData option"

text \<open>
  \<^verbatim>\<open>front()\<close>, \<^verbatim>\<open>pop_front()\<close>, \<^verbatim>\<open>back()\<close> and
  \<^verbatim>\<open>pop_back()\<close> of an empty deque are undefined behaviour, and so is the use
  of the null pointer that \<^verbatim>\<open>std::get_if\<close> returns for another alternative.
\<close>

definition tokens_front :: "parser_state \<Rightarrow> error + havJSONTokenValue" where
  "tokens_front st = (case p_mTokens st of [] \<Rightarrow> Inl undefined_behaviour | t # ts \<Rightarrow> Inr t)"

definition tokens_pop_front :: "parser_state \<Rightarrow> error + parser_state" where
  "tokens_pop_front st =
     (case p_mTokens st of
        [] \<Rightarrow> Inl undefined_behaviour
      | t # ts \<Rightarrow> Inr (st\<lparr>p_mTokens := ts\<rparr>))"

definition refs_back :: "parser_state \<Rightarrow> error + selector list \<times> havJSONData" where
  "refs_back st =
     (if p_tokenTypeReferences st = [] then Inl undefined_behaviour
      else
        (case p_rootNode st of
           None \<Rightarrow> Inl undefined_behaviour
         | Some root \<Rightarrow>
             (case node_at (last (p_tokenTypeReferences st)) root of
                None \<Rightarrow> Inl undefined_behaviour
              | Some node \<Rightarrow> Inr (last (p_tokenTypeReferences st), node))))"

definition refs_pop_back :: "parser_state \<Rightarrow> error + parser_state" where
  "refs_pop_back st =
     (if p_tokenTypeReferences st = [] then Inl undefined_behaviour
      else Inr (st\<lparr>p_tokenTypeReferences := butlast (p_tokenTypeReferences st)\<rparr>))"

text \<open>
  \<^verbatim>\<open>std::get_if<std::vector<...>>(back()->getAddress())->push_back(child)\<close>,
  and, with \<open>descend\<close>, the
  \<^verbatim>\<open>tokenTypeReferences.push_back(item->back().get())\<close> that follows it.
\<close>

definition push_back_child :: "havJSONData \<Rightarrow> bool \<Rightarrow> parser_state \<Rightarrow> error + parser_state" where
  "push_back_child child descend st =
     and_then (refs_back st) (\<lambda>(ref, node).
       case getValue node of
         V_vector xs \<Rightarrow>
           Inr (st\<lparr>p_rootNode :=
                      map_option
                        (update_at ref (\<lambda>n. havJSONData (getType n) (V_vector (xs @ [child]))))
                        (p_rootNode st),
                    p_tokenTypeReferences :=
                      (if descend then p_tokenTypeReferences st @ [ref @ [Index (length xs)]]
                       else p_tokenTypeReferences st)\<rparr>)
       | _ \<Rightarrow> Inl undefined_behaviour)"

text \<open>
  \<^verbatim>\<open>std::get_if<std::map<...>>(back()->getAddress())->insert({key, child})\<close>,
  and, with \<open>descend\<close>,
  \<^verbatim>\<open>tokenTypeReferences.push_back(itr.first->second.get())\<close>: the iterator that
  \<^verbatim>\<open>insert\<close> returns points to the entry with that key, the new one or the
  one that was there.
\<close>

definition insert_child ::
  "string \<Rightarrow> havJSONData \<Rightarrow> bool \<Rightarrow> parser_state \<Rightarrow> error + parser_state"
where
  "insert_child key child descend st =
     and_then (refs_back st) (\<lambda>(ref, node).
       case getValue node of
         V_map m \<Rightarrow>
           Inr (st\<lparr>p_rootNode :=
                      map_option
                        (update_at ref (\<lambda>n. havJSONData (getType n) (V_map (map_insert m (key, child)))))
                        (p_rootNode st),
                    p_tokenTypeReferences :=
                      (if descend then p_tokenTypeReferences st @ [ref @ [Key key]]
                       else p_tokenTypeReferences st)\<rparr>)
       | _ \<Rightarrow> Inl undefined_behaviour)"

text \<open>
  The conversion of a literal token to a value, the \<^verbatim>\<open>switch\<close> of lines
  2977--3018 and 3085--3126. \<^verbatim>\<open>static_cast\<close> to a narrower integer type keeps
  the low bits.
\<close>

definition token_value :: "havJSONTokenValue \<Rightarrow> error + string" where
  "token_value t = (case mValue t of None \<Rightarrow> Inl bad_optional_access | Some v \<Rightarrow> Inr v)"

definition wrap_signed :: "nat \<Rightarrow> int \<Rightarrow> int" where
  "wrap_signed w v = (v + 2 ^ (w - 1)) mod 2 ^ w - 2 ^ (w - 1)"

definition wrap_unsigned :: "nat \<Rightarrow> int \<Rightarrow> int" where
  "wrap_unsigned w v = v mod 2 ^ w"

definition is_value_token :: "havJSONToken \<Rightarrow> bool" where
  "is_value_token t =
     (t = TK_Value \<or> t = TK_Null \<or> t = TK_Boolean \<or> t = TK_Int \<or> t = TK_UInt \<or> t = TK_Long
      \<or> t = TK_ULong \<or> t = TK_Int64 \<or> t = TK_UInt64 \<or> t = TK_Double)"

definition make_value :: "platform \<Rightarrow> havJSONTokenValue \<Rightarrow> error + havJSONData" where
  "make_value P tok =
     and_then (token_value tok) (\<lambda>text.
       case mToken tok of
         TK_Null \<Rightarrow> Inr (havJSONData DT_Null (V_string text))
       | TK_Boolean \<Rightarrow> Inr (havJSONData DT_Boolean (V_bool (text = ''true'')))
       | TK_Int \<Rightarrow>
           and_then (stol P text) (\<lambda>v. Inr (havJSONData DT_Int (V_int (wrap_signed 32 v))))
       | TK_UInt \<Rightarrow>
           and_then (stoul P text) (\<lambda>v. Inr (havJSONData DT_UInt (V_uint (wrap_unsigned 32 v))))
       | TK_Long \<Rightarrow> and_then (stol P text) (\<lambda>v. Inr (havJSONData DT_Long (V_long v)))
       | TK_ULong \<Rightarrow> and_then (stoul P text) (\<lambda>v. Inr (havJSONData DT_ULong (V_ulong v)))
       | TK_Int64 \<Rightarrow> and_then (stoll text) (\<lambda>v. Inr (havJSONData DT_Int64 (V_int64 v)))
       | TK_UInt64 \<Rightarrow> and_then (stoull text) (\<lambda>v. Inr (havJSONData DT_UInt64 (V_uint64 v)))
       | TK_Double \<Rightarrow> and_then (stod P text) (\<lambda>v. Inr (havJSONData DT_Double (V_double v)))
       | _ \<Rightarrow> Inr (havJSONData DT_String (V_string text)))"

text \<open>
  The two statements \<^verbatim>\<open>if (rootNode != nullptr) ...\<close> and
  \<^verbatim>\<open>if (rootNode == nullptr) ...\<close> for an opening bracket (lines 2838--2857
  and 2893--2912): a new container becomes the root, or the last element of the
  array on top of the stack; below an object nothing is created here.
\<close>

definition empty_container :: "havJSONDataType \<Rightarrow> havJSONData" where
  "empty_container kind =
     havJSONData kind (if kind = DT_Object then V_map [] else V_vector [])"

definition parse_open :: "havJSONDataType \<Rightarrow> parser_state \<Rightarrow> error + parser_state" where
  "parse_open kind st =
     (case p_rootNode st of
        Some root \<Rightarrow>
          and_then (refs_back st) (\<lambda>(ref, node).
            if getType node = DT_Array then push_back_child (empty_container kind) True st
            else Inr st)
      | None \<Rightarrow>
          Inr (st\<lparr>p_rootNode := Some (empty_container kind),
                   p_tokenTypeReferences := p_tokenTypeReferences st @ [[]]\<rparr>))"

text \<open>
  The tokens that may follow \<^verbatim>\<open>{\<close> (lines 2863--2878) and \<^verbatim>\<open>[\<close> (lines
  2918--2931).
\<close>

definition valid_after_curly :: "havJSONToken \<Rightarrow> bool" where
  "valid_after_curly t =
     (t = TK_String \<or> is_value_token t \<or> t = TK_Colon \<or> t = TK_Comma
      \<or> t = TK_RightCurlyBracket \<or> t = TK_LeftCurlyBracket \<or> t = TK_LeftSquareBracket)"

definition valid_after_square :: "havJSONToken \<Rightarrow> bool" where
  "valid_after_square t =
     (is_value_token t \<or> t = TK_Comma \<or> t = TK_RightSquareBracket
      \<or> t = TK_LeftSquareBracket \<or> t = TK_LeftCurlyBracket)"

text \<open>
  How a part of the loop body ends: the body goes on (\<open>Go\<close>, with the state and
  the current \<^verbatim>\<open>token\<close>), the loop goes to its next iteration
  (\<open>Continue\<close>), or the function returns \<^verbatim>\<open>false\<close>.
\<close>

datatype flow =
    Go parser_state havJSONTokenValue
  | Continue parser_state
  | ReturnFalse

definition parse_bracket ::
  "havJSONDataType \<Rightarrow> parser_state \<Rightarrow> error + flow"
where
  "parse_bracket kind st =
     and_then (parse_open kind st) (\<lambda>st.
     and_then (tokens_pop_front st) (\<lambda>st.
     and_then (tokens_front st) (\<lambda>token.
       if \<not> (if kind = DT_Object then valid_after_curly (mToken token)
              else valid_after_square (mToken token))
       then Inr ReturnFalse
       else if is_open (mToken token) then Inr (Continue st)
       else Inr (Go st token))))"

text \<open>
  The block for a \<^verbatim>\<open>String\<close> token, lines 2952--3068: the key, then a colon,
  then a literal or an opening bracket. The result is the state, the current token
  and \<^verbatim>\<open>processed\<close>.
\<close>

definition expect_object :: "parser_state \<Rightarrow> error + unit" where
  "expect_object st =
     and_then (refs_back st) (\<lambda>(ref, node).
       if getType node = DT_Object then Inr ()
       else Inl (runtime_error ''Invalid token! Expected object!''))"

definition parse_pair ::
  "platform \<Rightarrow> parser_state \<Rightarrow> havJSONTokenValue
   \<Rightarrow> error + parser_state \<times> havJSONTokenValue \<times> bool"
where
  "parse_pair P st token =
     and_then (token_value token) (\<lambda>key.
     and_then (tokens_pop_front st) (\<lambda>st.
     and_then (tokens_front st) (\<lambda>token.
       if mToken token = TK_Colon then
         and_then (tokens_pop_front st) (\<lambda>st.
         and_then (tokens_front st) (\<lambda>token.
           if is_value_token (mToken token) then
             and_then (make_value P token) (\<lambda>val.
             and_then (expect_object st) (\<lambda>_.
             and_then (insert_child key val False st) (\<lambda>st. Inr (st, token, True))))
           else if mToken token = TK_LeftSquareBracket then
             and_then (expect_object st) (\<lambda>_.
             and_then (insert_child key (empty_container DT_Array) True st) (\<lambda>st.
               Inr (st, token, True)))
           else if mToken token = TK_LeftCurlyBracket then
             and_then (expect_object st) (\<lambda>_.
             and_then (insert_child key (empty_container DT_Object) True st) (\<lambda>st.
               Inr (st, token, True)))
           else Inr (st, token, False)))
       else Inr (st, token, False))))"

text \<open>
  The block \<^verbatim>\<open>if (processed == false)\<close>, lines 3070--3137: a literal that is
  not the value of a key is appended to the array on top of the stack.
\<close>

definition parse_element ::
  "platform \<Rightarrow> parser_state \<Rightarrow> havJSONTokenValue \<Rightarrow> error + parser_state"
where
  "parse_element P st token =
     (if is_value_token (mToken token) then
        and_then (make_value P token) (\<lambda>val.
        and_then (refs_back st) (\<lambda>(ref, node).
          if getType node = DT_Array then push_back_child val False st
          else Inl (runtime_error ''Invalid token! Expected array!'')))
      else Inr st)"

text \<open>One iteration of the \<^verbatim>\<open>while\<close> loop, lines 2824--3140.\<close>

definition ParseJSONContents_step :: "platform \<Rightarrow> parser_state \<Rightarrow> error + flow" where
  "ParseJSONContents_step P st =
     and_then (tokens_front st) (\<lambda>token.
       if mToken token = TK_Comma then and_then (tokens_pop_front st) (\<lambda>st. Inr (Continue st))
       else
         and_then (if mToken token = TK_LeftCurlyBracket then parse_bracket DT_Object st
                   else Inr (Go st token)) (\<lambda>fl.
         case fl of
           Go st token \<Rightarrow>
             and_then (if mToken token = TK_LeftSquareBracket then parse_bracket DT_Array st
                       else Inr (Go st token)) (\<lambda>fl.
             case fl of
               Go st token \<Rightarrow>
                 and_then (if is_close (mToken token) then refs_pop_back st else Inr st) (\<lambda>st.
                 and_then (if mToken token = TK_String then parse_pair P st token
                           else Inr (st, token, False)) (\<lambda>(st, token, processed).
                 and_then (if \<not> processed then parse_element P st token else Inr st) (\<lambda>st.
                 and_then (tokens_pop_front st) (\<lambda>st. Inr (Continue st)))))
             | other \<Rightarrow> Inr other)
         | other \<Rightarrow> Inr other))"

lemma tokens_pop_front_length:
  "tokens_pop_front st = Inr st' \<Longrightarrow> length (p_mTokens st') < length (p_mTokens st)"
  by (auto simp: tokens_pop_front_def split: list.splits)

lemma push_back_child_tokens:
  "push_back_child child descend st = Inr st' \<Longrightarrow> p_mTokens st' = p_mTokens st"
  by (auto simp: push_back_child_def and_then_def split: sum.splits prod.splits havJSONVariant.splits)

lemma insert_child_tokens:
  "insert_child key child descend st = Inr st' \<Longrightarrow> p_mTokens st' = p_mTokens st"
  by (auto simp: insert_child_def and_then_def split: sum.splits prod.splits havJSONVariant.splits)

lemma refs_pop_back_tokens:
  "refs_pop_back st = Inr st' \<Longrightarrow> p_mTokens st' = p_mTokens st"
  by (auto simp: refs_pop_back_def split: if_splits)

lemma parse_open_tokens:
  "parse_open kind st = Inr st' \<Longrightarrow> p_mTokens st' = p_mTokens st"
  by (auto simp: parse_open_def and_then_def
        split: option.splits sum.splits prod.splits if_splits dest: push_back_child_tokens)

lemma parse_bracket_length:
  assumes "parse_bracket kind st = Inr fl"
  shows "(\<forall>st' tok. fl = Go st' tok \<longrightarrow> length (p_mTokens st') < length (p_mTokens st))
         \<and> (\<forall>st'. fl = Continue st' \<longrightarrow> length (p_mTokens st') < length (p_mTokens st))"
proof -
  from assms obtain st1 st2 where
    o: "parse_open kind st = Inr st1" and p: "tokens_pop_front st1 = Inr st2"
    and fl: "fl = ReturnFalse \<or> fl = Continue st2 \<or> (\<exists>tok. fl = Go st2 tok)"
    by (auto simp: parse_bracket_def and_then_def split: sum.splits if_splits)
  from parse_open_tokens [OF o] tokens_pop_front_length [OF p]
  have "length (p_mTokens st2) < length (p_mTokens st)" by simp
  with fl show ?thesis by auto
qed

lemma parse_pair_length:
  assumes "parse_pair P st token = Inr (st', token', processed)"
  shows "length (p_mTokens st') \<le> length (p_mTokens st)"
proof -
  from assms obtain st1 where p1: "tokens_pop_front st = Inr st1"
    by (auto simp: parse_pair_def and_then_def split: sum.splits)
  from assms p1 have
    "st' = st1 \<or> (\<exists>st2 st3. tokens_pop_front st1 = Inr st2
                    \<and> (st' = st2 \<or> p_mTokens st' = p_mTokens st2))"
    by (auto simp: parse_pair_def and_then_def split: sum.splits if_splits
          dest: insert_child_tokens)
  with tokens_pop_front_length [OF p1] show ?thesis
    by (auto dest: tokens_pop_front_length)
qed

lemma parse_element_tokens:
  "parse_element P st token = Inr st' \<Longrightarrow> p_mTokens st' = p_mTokens st"
  by (auto simp: parse_element_def and_then_def
        split: if_splits sum.splits prod.splits dest: push_back_child_tokens)

lemma ParseJSONContents_step_length:
  assumes "ParseJSONContents_step P st = Inr (Continue st')"
  shows "length (p_mTokens st') < length (p_mTokens st)"
proof -
  from assms obtain token where f: "tokens_front st = Inr token"
    by (auto simp: ParseJSONContents_step_def and_then_def split: sum.splits)
  show ?thesis
  proof (cases "mToken token = TK_Comma")
    case True
    with assms f show ?thesis
      by (auto simp: ParseJSONContents_step_def and_then_def split: sum.splits
            dest: tokens_pop_front_length)
  next
    case False
    note nocomma = this
    from assms f nocomma obtain fl1 where
      b1: "(if mToken token = TK_LeftCurlyBracket then parse_bracket DT_Object st
            else Inr (Go st token)) = Inr fl1"
      by (auto simp: ParseJSONContents_step_def and_then_def split: sum.splits)
    show ?thesis
    proof (cases fl1)
      case ReturnFalse
      with assms f nocomma b1 show ?thesis
        by (simp add: ParseJSONContents_step_def)
    next
      case (Continue st1)
      with assms f nocomma b1 have "st' = st1"
        by (simp add: ParseJSONContents_step_def)
      with Continue b1 show ?thesis
        by (auto split: if_splits dest: parse_bracket_length)
    next
      case (Go st1 token1)
      with b1 have l1: "length (p_mTokens st1) \<le> length (p_mTokens st)"
        by (auto split: if_splits dest: parse_bracket_length)
      from assms f nocomma b1 Go obtain fl2 where
        b2: "(if mToken token1 = TK_LeftSquareBracket then parse_bracket DT_Array st1
              else Inr (Go st1 token1)) = Inr fl2"
        by (auto simp: ParseJSONContents_step_def and_then_def split: sum.splits)
      show ?thesis
      proof (cases fl2)
        case ReturnFalse
        with assms f nocomma b1 Go b2 show ?thesis
          by (simp add: ParseJSONContents_step_def)
      next
        case (Continue st2)
        with assms f nocomma b1 Go b2 have "st' = st2"
          by (simp add: ParseJSONContents_step_def)
        with Continue b2 l1 show ?thesis
          by (auto split: if_splits dest: parse_bracket_length)
      next
        case go2: (Go st2 token2)
        with b2 have l2: "length (p_mTokens st2) \<le> length (p_mTokens st1)"
          by (auto split: if_splits dest: parse_bracket_length)
        from assms f nocomma b1 Go b2 go2 obtain st3 st4 token4 processed st5 where
          s3: "(if is_close (mToken token2) then refs_pop_back st2 else Inr st2) = Inr st3"
          and s4: "(if mToken token2 = TK_String then parse_pair P st3 token2
                    else Inr (st3, token2, False)) = Inr (st4, token4, processed)"
          and s5: "(if \<not> processed then parse_element P st4 token4 else Inr st4) = Inr st5"
          and s6: "tokens_pop_front st5 = Inr st'"
          by (auto simp: ParseJSONContents_step_def and_then_def split: sum.splits prod.splits)
        from s3 have "p_mTokens st3 = p_mTokens st2"
          by (auto split: if_splits dest: refs_pop_back_tokens)
        moreover from s4 have "length (p_mTokens st4) \<le> length (p_mTokens st3)"
          by (auto split: if_splits dest: parse_pair_length)
        moreover from s5 have "p_mTokens st5 = p_mTokens st4"
          by (auto split: if_splits dest: parse_element_tokens)
        ultimately show ?thesis
          using tokens_pop_front_length [OF s6] l1 l2 by simp
      qed
    qed
  qed
qed

text \<open>
  The loop; \<open>None\<close> stands for \<^verbatim>\<open>return false\<close>.
\<close>

function ParseJSONContents_loop :: "platform \<Rightarrow> parser_state \<Rightarrow> error + parser_state option" where
  "ParseJSONContents_loop P st =
     (if p_mTokens st \<noteq> [] then
        (case ParseJSONContents_step P st of
           Inl e \<Rightarrow> Inl e
         | Inr ReturnFalse \<Rightarrow> Inr None
         | Inr (Continue st') \<Rightarrow> ParseJSONContents_loop P st'
         | Inr (Go st' token) \<Rightarrow> Inl undefined_behaviour)
      else Inr (Some st))"
  by pat_completeness auto
termination
proof (relation "measure (\<lambda>(P, st). length (p_mTokens st))")
  show "wf (measure (\<lambda>(P, st). length (p_mTokens st)))" by simp
next
  fix P :: platform and st st' :: parser_state and r
  assume "ParseJSONContents_step P st = Inr r" and "r = Continue st'"
  then show "((P, st'), (P, st)) \<in> measure (\<lambda>(P, st). length (p_mTokens st))"
    using ParseJSONContents_step_length [of P st st'] by simp
qed

declare ParseJSONContents_loop.simps [simp del]

text \<open>
  \<^verbatim>\<open>ParseJSONContents\<close>, lines 2807--3151, on the tokens of the member
  \<^verbatim>\<open>mTokens\<close>: \<open>None\<close> when the function returns \<^verbatim>\<open>false\<close>, else the
  value assigned to \<^verbatim>\<open>valueNode\<close>.
\<close>

definition ParseJSONContents :: "platform \<Rightarrow> havJSONTokenValue list \<Rightarrow> error + havJSONData option" where
  "ParseJSONContents P mTokens =
     (if mTokens = [] then Inr None
      else if mToken (mTokens ! 0) \<noteq> TK_LeftCurlyBracket
              \<and> mToken (mTokens ! 0) \<noteq> TK_LeftSquareBracket then Inr None
      else
        and_then (ParseJSONContents_loop P
                    \<lparr>p_mTokens = mTokens, p_tokenTypeReferences = [], p_rootNode = None\<rparr>) (\<lambda>r.
          case r of
            None \<Rightarrow> Inr None
          | Some st \<Rightarrow>
              (case p_rootNode st of
                 None \<Rightarrow> Inl (runtime_error ''No root node found!'')
               | Some rootNode \<Rightarrow> Inr (Some (havJSONData (getType rootNode) (getValue rootNode))))))"

text \<open>
  \<^verbatim>\<open>ParseContent\<close>, lines 3435--3453: the return value and \<^verbatim>\<open>valueNode\<close>,
  which is a default-constructed value (Null, holding the string \<^verbatim>\<open>null\<close>)
  when the function returns \<^verbatim>\<open>false\<close>.
\<close>

definition default_value :: havJSONData where
  "default_value = havJSONData DT_Null (V_string ''null'')"

definition ParseContent :: "platform \<Rightarrow> string \<Rightarrow> error + bool \<times> havJSONData" where
  "ParseContent P fileContents =
     and_then (Tokenization P fileContents) (\<lambda>(nonempty, mTokens).
       if nonempty then
         and_then (ParseJSONContents P mTokens) (\<lambda>r.
           case r of
             Some valueNode \<Rightarrow> Inr (True, valueNode)
           | None \<Rightarrow> Inr (False, default_value))
       else Inr (False, default_value))"

section \<open>The linearizer and the text writer\<close>

text \<open>
  \<^verbatim>\<open>std::get<T>\<close> on the variant of a value; it throws
  \<^verbatim>\<open>std::bad_variant_access\<close> when the variant holds another alternative.
\<close>

definition literal_tokens :: "platform \<Rightarrow> havJSONData \<Rightarrow> error + havJSONTokenValue list" where
  "literal_tokens P item =
     (case (getType item, getValue item) of
        (DT_Null, V_string s) \<Rightarrow> Inr [text_token TK_Null s]
      | (DT_Boolean, V_bool b) \<Rightarrow> Inr [text_token TK_Boolean (if b then ''true'' else ''false'')]
      | (DT_Int, V_int v) \<Rightarrow> Inr [text_token TK_Int (to_string v)]
      | (DT_UInt, V_uint v) \<Rightarrow> Inr [text_token TK_UInt (to_string v)]
      | (DT_Long, V_long v) \<Rightarrow> Inr [text_token TK_Long (to_string v)]
      | (DT_ULong, V_ulong v) \<Rightarrow> Inr [text_token TK_ULong (to_string v)]
      | (DT_Int64, V_int64 v) \<Rightarrow> Inr [text_token TK_Int64 (to_string v)]
      | (DT_UInt64, V_uint64 v) \<Rightarrow> Inr [text_token TK_UInt64 (to_string v)]
      | (DT_Double, V_double d) \<Rightarrow> Inr [text_token TK_Double (to_string_double P d)]
      | (DT_String, V_string s) \<Rightarrow> Inr [text_token TK_Value s]
      | _ \<Rightarrow> Inl bad_variant_access)"

text \<open>
  \<^verbatim>\<open>TokenizeArray\<close> (lines 3455--3531) and \<^verbatim>\<open>TokenizeObject\<close> (lines
  3533--3612) return the tokens they push. \<open>TokenizeArray_from\<close> and
  \<open>TokenizeObject_from\<close> are their loops from a position on: \<open>first\<close> says
  whether the position is the first one (\<^verbatim>\<open>index > 0\<close> and
  \<^verbatim>\<open>itr != rootObject.begin()\<close> decide about the comma). The ten literal cases
  of the \<^verbatim>\<open>switch\<close> are \<open>literal_tokens\<close>; the map is iterated in the order of
  its entries.
\<close>

function TokenizeArray_from ::
    "platform \<Rightarrow> bool \<Rightarrow> havJSONData list \<Rightarrow> error + havJSONTokenValue list"
  and TokenizeObject_from ::
    "platform \<Rightarrow> bool \<Rightarrow> (string \<times> havJSONData) list \<Rightarrow> error + havJSONTokenValue list"
where
  "TokenizeArray_from P first [] = Inr [structural TK_RightSquareBracket]"
| "TokenizeArray_from P first (currentValue # rest) =
     and_then
       (case (getType currentValue, getValue currentValue) of
          (DT_Array, V_vector newArray) \<Rightarrow>
            and_then (TokenizeArray_from P True newArray) (\<lambda>ts.
              Inr (structural TK_LeftSquareBracket # ts))
        | (DT_Array, _) \<Rightarrow> Inl bad_variant_access
        | (DT_Object, V_map rootObject) \<Rightarrow>
            and_then (TokenizeObject_from P True rootObject) (\<lambda>ts.
              Inr (structural TK_LeftCurlyBracket # ts))
        | (DT_Object, _) \<Rightarrow> Inl bad_variant_access
        | _ \<Rightarrow> literal_tokens P currentValue) (\<lambda>ts.
     and_then (TokenizeArray_from P False rest) (\<lambda>ts'.
       Inr ((if first then [] else [structural TK_Comma]) @ ts @ ts')))"
| "TokenizeObject_from P first [] = Inr [structural TK_RightCurlyBracket]"
| "TokenizeObject_from P first ((key, item) # rest) =
     and_then
       (case (getType item, getValue item) of
          (DT_Array, V_vector rootArray) \<Rightarrow>
            and_then (TokenizeArray_from P True rootArray) (\<lambda>ts.
              Inr (structural TK_LeftSquareBracket # ts))
        | (DT_Array, _) \<Rightarrow> Inl bad_variant_access
        | (DT_Object, V_map newObject) \<Rightarrow>
            and_then (TokenizeObject_from P True newObject) (\<lambda>ts.
              Inr (structural TK_LeftCurlyBracket # ts))
        | (DT_Object, _) \<Rightarrow> Inl bad_variant_access
        | _ \<Rightarrow> literal_tokens P item) (\<lambda>ts.
     and_then (TokenizeObject_from P False rest) (\<lambda>ts'.
       Inr ((if first then [] else [structural TK_Comma])
            @ [text_token TK_String key, structural TK_Colon] @ ts @ ts')))"
  by pat_completeness auto

termination
proof (relation "measure (\<lambda>x. case x of
                            Inl (P, first, xs) \<Rightarrow> size_list size xs
                          | Inr (P, first, m) \<Rightarrow> size_list (size_prod (\<lambda>_. 0) size) m)",
       goal_cases)
  case 1
  show ?case by simp
next
  case (2 P first currentValue rest x y newArray)
  then show ?case by (cases currentValue) simp
next
  case (3 P first currentValue rest x y rootObject)
  then show ?case by (cases currentValue) simp
next
  case 4
  then show ?case by simp
next
  case (5 P first key item rest x y rootArray)
  then show ?case by (cases item) simp
next
  case (6 P first key item rest x y newObject)
  then show ?case by (cases item) simp
next
  case 7
  then show ?case by simp
qed

definition TokenizeArray :: "platform \<Rightarrow> havJSONData list \<Rightarrow> error + havJSONTokenValue list" where
  "TokenizeArray P rootArray = TokenizeArray_from P True rootArray"

definition TokenizeObject ::
  "platform \<Rightarrow> (string \<times> havJSONData) list \<Rightarrow> error + havJSONTokenValue list"
where
  "TokenizeObject P rootObject = TokenizeObject_from P True rootObject"

text \<open>
  \<^verbatim>\<open>Tokenization(havJSONData&, std::deque<havJSONTokenValue>&)\<close>, lines
  3614--3650, called with an empty deque: the tokens, which are never none.
\<close>

definition Tokenization_value :: "platform \<Rightarrow> havJSONData \<Rightarrow> error + havJSONTokenValue list" where
  "Tokenization_value P rootNode =
     (if getType rootNode = DT_Array then
        (case getValue rootNode of
           V_vector rootArray \<Rightarrow>
             and_then (TokenizeArray P rootArray) (\<lambda>ts.
               Inr (structural TK_LeftSquareBracket # ts))
         | _ \<Rightarrow> Inl bad_variant_access)
      else if getType rootNode = DT_Object then
        (case getValue rootNode of
           V_map rootObject \<Rightarrow>
             and_then (TokenizeObject P rootObject) (\<lambda>ts.
               Inr (structural TK_LeftCurlyBracket # ts))
         | _ \<Rightarrow> Inl bad_variant_access)
      else Inl (runtime_error ''Invalid token: Expected array or object as root node!''))"

text \<open>
  \<^verbatim>\<open>ConvertJSONToString\<close>, lines 3652--4137, with
  \<^verbatim>\<open>formatted == false\<close>: the block of lines 3697--4071 is skipped, and the
  variables it alone reads (\<^verbatim>\<open>previousToken\<close>, \<^verbatim>\<open>currentType\<close>,
  \<^verbatim>\<open>tokenTypesSize\<close>) are left out. \<open>write_tokens\<close> is the loop over the
  tokens with the stack \<^verbatim>\<open>tokenTypes\<close> and the output so far;
  \<^verbatim>\<open>tokenTypes.back()\<close> on the empty stack is undefined behaviour.
\<close>

definition is_text_token :: "havJSONToken \<Rightarrow> bool" where
  "is_text_token t = (is_value_token t \<or> t = TK_String)"

fun write_tokens ::
  "havJSONTokenValue list \<Rightarrow> havJSONDataType list \<Rightarrow> string \<Rightarrow> error + string"
where
  "write_tokens [] tokenTypes jsonContentsAsString = Inr jsonContentsAsString"
| "write_tokens (t # ts) tokenTypes jsonContentsAsString =
     and_then (if is_close (mToken t) then
                 (if tokenTypes = [] then Inl undefined_behaviour else Inr (butlast tokenTypes))
               else Inr tokenTypes) (\<lambda>tokenTypes.
     and_then (if \<not> is_text_token (mToken t) then
                 Inr (jsonContentsAsString @ [GetTokenAsCharacter (mToken t)])
               else if mToken t = TK_String \<or> mToken t = TK_Value then
                 and_then (token_value t) (\<lambda>v.
                 and_then (ConvertToEscapedString v) (\<lambda>escaped.
                   Inr (jsonContentsAsString @ [quote] @ escaped @ [quote])))
               else
                 and_then (token_value t) (\<lambda>v. Inr (jsonContentsAsString @ v))) (\<lambda>out.
     write_tokens ts
       (if mToken t = TK_LeftCurlyBracket then tokenTypes @ [DT_Object]
        else if mToken t = TK_LeftSquareBracket then tokenTypes @ [DT_Array]
        else tokenTypes)
       out))"

text \<open>
  The result is the return value and the text appended to the (empty)
  \<^verbatim>\<open>jsonContentsAsString\<close>.
\<close>

definition ConvertJSONToString :: "platform \<Rightarrow> havJSONData \<Rightarrow> error + bool \<times> string" where
  "ConvertJSONToString P valueNode =
     and_then (Tokenization_value P valueNode) (\<lambda>tokens.
       if tokens = [] then Inr (False, [])
       else if mToken (tokens ! 0) \<noteq> TK_LeftCurlyBracket
               \<and> mToken (tokens ! 0) \<noteq> TK_LeftSquareBracket then Inr (False, [])
       else and_then (write_tokens tokens [] []) (\<lambda>out. Inr (True, out)))"

section \<open>The binary decoder: \<^verbatim>\<open>ConvertBSONToJSON\<close>\<close>

text \<open>
  \<^verbatim>\<open>havJSONBSONType\<close>, lines 144--157, and the conversion
  \<^verbatim>\<open>static_cast<havJSONBSONType>(currentChar)\<close>: a byte that is the value of
  no enumerator takes the \<^verbatim>\<open>default\<close> branch of the \<^verbatim>\<open>switch\<close>.
\<close>

datatype havJSONBSONType =
    BT_Double | BT_String | BT_Array | BT_BinaryData | BT_Boolean | BT_UTCDateTime
  | BT_NullValue | BT_JSCode | BT_Int | BT_Timestamp | BT_Int64

definition bson_type :: "char \<Rightarrow> havJSONBSONType option" where
  "bson_type c =
     (if byte c = 0x01 then Some BT_Double
      else if byte c = 0x02 then Some BT_String
      else if byte c = 0x04 then Some BT_Array
      else if byte c = 0x05 then Some BT_BinaryData
      else if byte c = 0x08 then Some BT_Boolean
      else if byte c = 0x09 then Some BT_UTCDateTime
      else if byte c = 0x0A then Some BT_NullValue
      else if byte c = 0x0D then Some BT_JSCode
      else if byte c = 0x10 then Some BT_Int
      else if byte c = 0x11 then Some BT_Timestamp
      else if byte c = 0x12 then Some BT_Int64
      else None)"

text \<open>
  \<^verbatim>\<open>havJSONBSONTypeValue\<close>, lines 189--194. The two \<^verbatim>\<open>int\<close> counters are
  integers without overflow: they stay below the size of the input.
\<close>

record havJSONBSONTypeValue =
  mType :: havJSONBSONType
  mCurrentIndex :: int
  mTotalLength :: int

text \<open>
  \<^verbatim>\<open>jsonStringStream[i]\<close> in the decoder: position \<^verbatim>\<open>size()\<close> holds NUL,
  a position beyond it is undefined behaviour. The decoder follows lengths that it
  reads from the input, so it can get there.
\<close>

definition string_at :: "string \<Rightarrow> nat \<Rightarrow> error + char" where
  "string_at s i = (if i \<le> length s then Inr (cxx_at s i) else Inl undefined_behaviour)"

text \<open>
  The \<open>n\<close> bytes from position \<open>index\<close> on, each as an \<^verbatim>\<open>unsigned char\<close>,
  and the number they are with the least significant byte first.
\<close>

definition bytes_at :: "string \<Rightarrow> nat \<Rightarrow> nat \<Rightarrow> error + nat list" where
  "bytes_at s index n =
     (if index + n \<le> length s + 1 then Inr (map (\<lambda>i. byte (cxx_at s (index + i))) [0..<n])
      else Inl undefined_behaviour)"

fun le_value :: "nat list \<Rightarrow> nat" where
  "le_value [] = 0"
| "le_value (b # bs) = b + 256 * le_value bs"

text \<open>
  \<^verbatim>\<open>std::memcpy\<close> of bytes into an integer or a \<^verbatim>\<open>double\<close> has the byte
  order of the host.
\<close>

definition native_value :: "platform \<Rightarrow> nat list \<Rightarrow> nat" where
  "native_value P bs = (if little_endian P then le_value bs else le_value (rev bs))"

text \<open>
  The expression
  \<^verbatim>\<open>(s[index + 3] << 24) | ((s[index + 2] & 0xff) << 16) | ((s[index + 1] & 0xff) << 8) | (s[index + 0] & 0xff)\<close>
  of lines 1872 and 2084: the 32-bit two's-complement number with these four bytes,
  the least significant first (the shift of the top byte, whatever the signedness
  of \<^verbatim>\<open>char\<close>, leaves these bits).
\<close>

definition int32_at :: "string \<Rightarrow> nat \<Rightarrow> error + int" where
  "int32_at s index =
     and_then (bytes_at s index 4) (\<lambda>bs. Inr (wrap_signed 32 (int (le_value bs))))"

text \<open>\<^verbatim>\<open>GetBSONKey\<close>, lines 1844--1868: the key text and the new index.\<close>

function GetBSONKey_loop :: "string \<Rightarrow> nat \<Rightarrow> string \<Rightarrow> error + string \<times> nat" where
  "GetBSONKey_loop s index stringValue =
     (if index \<le> length s then
        (if cxx_at s index \<noteq> NUL
         then GetBSONKey_loop s (index + 1) (stringValue @ [cxx_at s index])
         else Inr (stringValue, index))
      else Inl undefined_behaviour)"
  by pat_completeness auto
termination
  by (relation "measure (\<lambda>(s, index, stringValue). length s - index)")
     (auto simp: cxx_at_def split: if_splits)

declare GetBSONKey_loop.simps [simp del]

definition GetBSONKey :: "string \<Rightarrow> nat \<Rightarrow> error + string \<times> nat" where
  "GetBSONKey s index =
     and_then (GetBSONKey_loop s (index + 1) []) (\<lambda>(stringValue, index).
     and_then (ConvertToEscapedString stringValue) (\<lambda>stringValue.
       Inr ([quote] @ stringValue @ [quote] @ '': '', index + 1)))"

text \<open>\<^verbatim>\<open>GetBSONValueSize\<close>, lines 1870--1882: the size and the new index.\<close>

definition GetBSONValueSize :: "string \<Rightarrow> nat \<Rightarrow> error + int \<times> nat" where
  "GetBSONValueSize s index =
     and_then (int32_at s index) (\<lambda>valueSize.
       if valueSize < 0 then Inl (runtime_error ''Value size can't be negative!'')
       else Inr (valueSize, index + 4))"

text \<open>
  The local state of \<^verbatim>\<open>ConvertBSONToJSON\<close>, lines 1884--2599.
\<close>

record bson_decoder =
  d_index :: nat
  d_typeMemory :: "havJSONBSONTypeValue list"
  d_jsonContent :: string

definition append_json :: "string \<Rightarrow> bson_decoder \<Rightarrow> bson_decoder" where
  "append_json text st = st\<lparr>d_jsonContent := d_jsonContent st @ text\<rparr>"

text \<open>
  The block \<^verbatim>\<open>// Key\<close> that opens every case: inside an array the type byte
  and the two-byte key are skipped, at the top level the key is read.
\<close>

definition bson_key :: "string \<Rightarrow> bson_decoder \<Rightarrow> error + bson_decoder" where
  "bson_key s st =
     (if d_typeMemory st \<noteq> [] then
        (let typeValue = last (d_typeMemory st) in
         if mType typeValue = BT_Array then
           Inr (st\<lparr>d_index := d_index st + 3,
                   d_typeMemory := butlast (d_typeMemory st)
                     @ [typeValue\<lparr>mCurrentIndex := mCurrentIndex typeValue + 3\<rparr>]\<rparr>)
         else Inl (runtime_error ''Other types are not supported!''))
      else
        and_then (GetBSONKey s (d_index st)) (\<lambda>(keyValue, index).
          Inr (append_json keyValue (st\<lparr>d_index := index\<rparr>))))"

text \<open>
  The block that closes every case but \<^verbatim>\<open>Array\<close>: inside an array the
  counter of the array grows by the size \<open>n\<close> of the value, and a comma follows
  unless the array ends.
\<close>

definition bson_counted :: "int \<Rightarrow> bson_decoder \<Rightarrow> bson_decoder" where
  "bson_counted n st =
     (if d_typeMemory st \<noteq> [] then
        (let typeValue = last (d_typeMemory st) in
         if mType typeValue = BT_Array then
           (let typeValue = typeValue\<lparr>mCurrentIndex := mCurrentIndex typeValue + n\<rparr>;
                st = st\<lparr>d_typeMemory := butlast (d_typeMemory st) @ [typeValue]\<rparr>
            in if mCurrentIndex typeValue + 1 < mTotalLength typeValue
               then append_json '', '' st else st)
         else st)
      else st)"

text \<open>The loop of the \<^verbatim>\<open>String\<close> case, lines 2347--2354.\<close>

function bson_string_loop :: "string \<Rightarrow> nat \<Rightarrow> nat \<Rightarrow> string \<Rightarrow> error + string \<times> nat" where
  "bson_string_loop s valueSize index stringValue =
     (if index \<le> length s then
        (if cxx_at s index \<noteq> NUL \<and> length stringValue < valueSize
         then bson_string_loop s valueSize (index + 1) (stringValue @ [cxx_at s index])
         else Inr (stringValue, index))
      else Inl undefined_behaviour)"
  by pat_completeness auto
termination
  by (relation "measure (\<lambda>(s, valueSize, index, stringValue). length s - index)")
     (auto simp: cxx_at_def split: if_splits)

declare bson_string_loop.simps [simp del]

text \<open>
  The loop of the \<^verbatim>\<open>BinaryData\<close> case, lines 2490--2498. The byte is a
  \<^verbatim>\<open>char\<close> converted to \<^verbatim>\<open>unsigned int\<close>.
\<close>

definition char_to_unsigned :: "platform \<Rightarrow> char \<Rightarrow> nat" where
  "char_to_unsigned P c =
     (if char_is_signed P \<and> 0x80 \<le> byte c then 2 ^ 32 - 256 + byte c else byte c)"

function bson_binary_loop ::
  "platform \<Rightarrow> string \<Rightarrow> nat \<Rightarrow> nat \<Rightarrow> string \<Rightarrow> error + string"
where
  "bson_binary_loop P s binaryDataEnd binaryDataIndex jsonContent =
     (if binaryDataIndex < binaryDataEnd then
        (case string_at s binaryDataIndex of
           Inl e \<Rightarrow> Inl e
         | Inr c \<Rightarrow>
             bson_binary_loop P s binaryDataEnd (binaryDataIndex + 1)
               (jsonContent @ CodePointToString (char_to_unsigned P c)
                  @ (if binaryDataIndex + 1 < binaryDataEnd then '', '' else [])))
      else Inr jsonContent)"
  by pat_completeness auto
termination
  by (relation "measure (\<lambda>(P, s, binaryDataEnd, binaryDataIndex, jsonContent).
                           binaryDataEnd - binaryDataIndex)") auto

declare bson_binary_loop.simps [simp del]

text \<open>
  The \<^verbatim>\<open>switch\<close> on the type byte, lines 1919--2538, one case after the
  other.
\<close>

definition bson_value :: "platform \<Rightarrow> string \<Rightarrow> havJSONBSONType \<Rightarrow> bson_decoder \<Rightarrow> error + bson_decoder" where
  "bson_value P s type st =
     and_then (bson_key s st) (\<lambda>st.
       case type of
         BT_NullValue \<Rightarrow> Inr (bson_counted 0 (append_json ''null'' st))
       | BT_Boolean \<Rightarrow>
           and_then (string_at s (d_index st)) (\<lambda>c.
             Inr (bson_counted 1 (append_json (if c \<noteq> NUL then ''true'' else ''false'') st)))
       | BT_Int \<Rightarrow>
           and_then (int32_at s (d_index st)) (\<lambda>v.
             Inr (bson_counted 4 (append_json (to_string v) (st\<lparr>d_index := d_index st + 3\<rparr>))))
       | BT_Timestamp \<Rightarrow>
           and_then (bytes_at s (d_index st) 8) (\<lambda>bs.
             Inr (bson_counted 8
                    (append_json (to_string (int (native_value P bs)))
                       (st\<lparr>d_index := d_index st + 7\<rparr>))))
       | BT_Double \<Rightarrow>
           and_then (bytes_at s (d_index st) 8) (\<lambda>bs.
             Inr (bson_counted 8
                    (append_json (fixed15 P (double_of_bits (of_nat (native_value P bs))))
                       (st\<lparr>d_index := d_index st + 7\<rparr>))))
       | BT_Array \<Rightarrow>
           and_then (GetBSONValueSize s (d_index st)) (\<lambda>(valueSize, index).
             Inr (append_json ''[''
                    (st\<lparr>d_index := index - 1,
                        d_typeMemory := d_typeMemory st
                          @ [\<lparr>mType = BT_Array, mCurrentIndex = 4, mTotalLength = valueSize\<rparr>]\<rparr>)))
       | BT_BinaryData \<Rightarrow>
           and_then (GetBSONValueSize s (d_index st)) (\<lambda>(valueSize, index).
           and_then (string_at s index) (\<lambda>subtypeValue.
             if byte subtypeValue = 0x00 \<or> byte subtypeValue = 0x02 then
               and_then (bson_binary_loop P s (index + 1 + nat valueSize) (index + 1)
                           (d_jsonContent st @ ''['')) (\<lambda>jsonContent.
                 Inr (bson_counted (4 + valueSize)
                        (st\<lparr>d_index := index + 1, d_jsonContent := jsonContent @ '']''\<rparr>)))
             else if 0x80 \<le> byte subtypeValue
               then Inl (runtime_error ''User defined subtypes are unsupported!'')
             else Inl (runtime_error ''Unsupported subtype!'')))
       | BT_String \<Rightarrow>
           and_then (GetBSONValueSize s (d_index st)) (\<lambda>(valueSize, index).
           and_then (bson_string_loop s (nat valueSize) index []) (\<lambda>(stringValue, index).
           and_then (ConvertToEscapedString stringValue) (\<lambda>stringValue.
             Inr (bson_counted (4 + (int (length stringValue) + 1))
                    (append_json ([quote] @ stringValue @ [quote]) (st\<lparr>d_index := index\<rparr>))))))
       | BT_JSCode \<Rightarrow>
           and_then (GetBSONValueSize s (d_index st)) (\<lambda>(valueSize, index).
           and_then (bson_string_loop s (nat valueSize) index []) (\<lambda>(stringValue, index).
           and_then (ConvertToEscapedString stringValue) (\<lambda>stringValue.
             Inr (bson_counted (4 + (int (length stringValue) + 1))
                    (append_json ([quote] @ stringValue @ [quote]) (st\<lparr>d_index := index\<rparr>))))))
       | BT_UTCDateTime \<Rightarrow>
           and_then (bytes_at s (d_index st) 8) (\<lambda>bs.
             Inr (bson_counted 8
                    (append_json (to_string (wrap_signed 64 (int (native_value P bs))))
                       (st\<lparr>d_index := d_index st + 7\<rparr>))))
       | BT_Int64 \<Rightarrow>
           and_then (bytes_at s (d_index st) 8) (\<lambda>bs.
             Inr (bson_counted 8
                    (append_json (to_string (wrap_signed 64 (int (native_value P bs))))
                       (st\<lparr>d_index := d_index st + 7\<rparr>)))))"

text \<open>
  The block after the \<^verbatim>\<open>switch\<close>, lines 2540--2583: an array whose counter
  has reached its length is closed; at the top level a comma follows every
  element.
\<close>

definition bson_close :: "bson_decoder \<Rightarrow> error + bson_decoder" where
  "bson_close st =
     (if d_typeMemory st \<noteq> [] then
        (let typeValue = last (d_typeMemory st) in
         if mCurrentIndex typeValue + 1 = mTotalLength typeValue then
           (if mType typeValue = BT_Array then
              (let st = append_json '']'' st;
                   st = st\<lparr>d_index := d_index st + 2,
                           d_typeMemory := butlast (d_typeMemory st)\<rparr>
               in if d_typeMemory st \<noteq> [] then
                    (let nextTypeValue = last (d_typeMemory st) in
                     if mType nextTypeValue = BT_Array then
                       (let nextTypeValue =
                              nextTypeValue\<lparr>mCurrentIndex := mCurrentIndex nextTypeValue + 1\<rparr>;
                            st = st\<lparr>d_typeMemory := butlast (d_typeMemory st) @ [nextTypeValue]\<rparr>
                        in Inr (if mCurrentIndex nextTypeValue + 1 < mTotalLength nextTypeValue
                                then append_json '', '' st else st))
                     else Inr st)
                  else Inr st)
            else Inl (runtime_error ''Unsupported type!''))
         else Inr st)
      else Inr (append_json '', '' st))"

text \<open>
  The body of the \<^verbatim>\<open>for\<close> loop after the test for the end of the document,
  lines 1906--2583.
\<close>

definition ConvertBSONToJSON_step :: "platform \<Rightarrow> string \<Rightarrow> bson_decoder \<Rightarrow> error + bson_decoder" where
  "ConvertBSONToJSON_step P s st =
     (if d_typeMemory st \<noteq> []
         \<and> mCurrentIndex (last (d_typeMemory st)) > mTotalLength (last (d_typeMemory st))
      then Inl (runtime_error ''BSON type value index is greater than total length!'')
      else
        and_then (string_at s (d_index st)) (\<lambda>currentChar.
          case bson_type currentChar of
            None \<Rightarrow> Inl (runtime_error ''Unsupported type!'')
          | Some type \<Rightarrow> and_then (bson_value P s type st) bson_close))"
lemma GetBSONKey_loop_index:
  "GetBSONKey_loop s index stringValue = Inr (v, index') \<Longrightarrow> index \<le> index'"
proof (induction s index stringValue rule: GetBSONKey_loop.induct)
  case (1 s index stringValue)
  show ?case
  proof (cases "index \<le> length s \<and> cxx_at s index \<noteq> NUL")
    case True
    with "1.prems" have "GetBSONKey_loop s (index + 1) (stringValue @ [cxx_at s index]) = Inr (v, index')"
      by (subst (asm) GetBSONKey_loop.simps) simp
    with "1.IH" True show ?thesis by fastforce
  next
    case False
    with "1.prems" show ?thesis
      by (subst (asm) GetBSONKey_loop.simps) (auto split: if_splits)
  qed
qed

lemma GetBSONKey_index:
  "GetBSONKey s index = Inr (k, index') \<Longrightarrow> index \<le> index'"
  by (auto simp: GetBSONKey_def and_then_def split: sum.splits prod.splits
        dest!: GetBSONKey_loop_index)

lemma GetBSONValueSize_index:
  "GetBSONValueSize s index = Inr (v, index') \<Longrightarrow> index' = index + 4"
  by (auto simp: GetBSONValueSize_def and_then_def split: sum.splits if_splits)

lemma bson_string_loop_index:
  "bson_string_loop s valueSize index stringValue = Inr (v, index') \<Longrightarrow> index \<le> index'"
proof (induction s valueSize index stringValue rule: bson_string_loop.induct)
  case (1 s valueSize index stringValue)
  show ?case
  proof (cases "index \<le> length s \<and> cxx_at s index \<noteq> NUL \<and> length stringValue < valueSize")
    case True
    with "1.prems" have
      "bson_string_loop s valueSize (index + 1) (stringValue @ [cxx_at s index]) = Inr (v, index')"
      by (subst (asm) bson_string_loop.simps) simp
    with "1.IH" True show ?thesis by fastforce
  next
    case False
    with "1.prems" show ?thesis
      by (subst (asm) bson_string_loop.simps) (auto split: if_splits)
  qed
qed

lemma append_json_index [simp]: "d_index (append_json text st) = d_index st"
  by (simp add: append_json_def)

lemma bson_counted_index [simp]: "d_index (bson_counted n st) = d_index st"
  by (simp add: bson_counted_def Let_def)

lemma bson_key_index:
  "bson_key s st = Inr st' \<Longrightarrow> d_index st \<le> d_index st'"
  by (auto simp: bson_key_def and_then_def Let_def split: sum.splits prod.splits if_splits
        dest!: GetBSONKey_index)

lemma bson_value_index:
  assumes "bson_value P s type st = Inr st'"
  shows "d_index st \<le> d_index st'"
proof -
  from assms obtain st1 where k: "bson_key s st = Inr st1"
    by (auto simp: bson_value_def and_then_def split: sum.splits)
  have "d_index st1 \<le> d_index st'"
  proof (cases type)
    case BT_String
    with assms k show ?thesis
      by (auto simp: bson_value_def and_then_def split: sum.splits prod.splits
            dest!: GetBSONValueSize_index bson_string_loop_index)
  next
    case BT_JSCode
    with assms k show ?thesis
      by (auto simp: bson_value_def and_then_def split: sum.splits prod.splits
            dest!: GetBSONValueSize_index bson_string_loop_index)
  next
    case BT_Array
    with assms k show ?thesis
      by (auto simp: bson_value_def and_then_def split: sum.splits prod.splits
            dest!: GetBSONValueSize_index)
  next
    case BT_BinaryData
    with assms k show ?thesis
      by (auto simp: bson_value_def and_then_def split: sum.splits prod.splits if_splits
            dest!: GetBSONValueSize_index)
  qed (use assms k in \<open>auto simp: bson_value_def and_then_def split: sum.splits\<close>)
  with bson_key_index [OF k] show ?thesis by simp
qed

lemma bson_close_index:
  "bson_close st = Inr st' \<Longrightarrow> d_index st \<le> d_index st'"
  by (auto simp: bson_close_def Let_def split: if_splits)

lemma ConvertBSONToJSON_step_index:
  "ConvertBSONToJSON_step P s st = Inr st' \<Longrightarrow> d_index st \<le> d_index st'"
  by (auto simp: ConvertBSONToJSON_step_def and_then_def
        split: if_splits sum.splits option.splits
        dest!: bson_value_index bson_close_index)

text \<open>
  The \<^verbatim>\<open>for\<close> loop, lines 1896--2584: it returns the state at the
  \<^verbatim>\<open>break\<close> or when its condition fails.
\<close>

function ConvertBSONToJSON_loop ::
  "platform \<Rightarrow> string \<Rightarrow> int \<Rightarrow> bson_decoder \<Rightarrow> error + bson_decoder"
where
  "ConvertBSONToJSON_loop P s totalDocumentSize st =
     (if int (d_index st) < totalDocumentSize then
        (if int (d_index st) + 1 = totalDocumentSize then Inr (st\<lparr>d_index := d_index st + 1\<rparr>)
         else
           (case ConvertBSONToJSON_step P s st of
              Inl e \<Rightarrow> Inl e
            | Inr st' \<Rightarrow>
                ConvertBSONToJSON_loop P s totalDocumentSize (st'\<lparr>d_index := d_index st' + 1\<rparr>)))
      else Inr st)"
  by pat_completeness auto
termination
proof (relation "measure (\<lambda>(P, s, totalDocumentSize, st). nat (totalDocumentSize - int (d_index st)))")
  show "wf (measure (\<lambda>(P, s, totalDocumentSize, st). nat (totalDocumentSize - int (d_index st))))"
    by simp
next
  fix P :: platform and s :: string and totalDocumentSize :: int and st st' :: bson_decoder
  assume "int (d_index st) < totalDocumentSize"
    and "ConvertBSONToJSON_step P s st = Inr st'"
  then show "((P, s, totalDocumentSize, st'\<lparr>d_index := d_index st' + 1\<rparr>), (P, s, totalDocumentSize, st))
             \<in> measure (\<lambda>(P, s, totalDocumentSize, st). nat (totalDocumentSize - int (d_index st)))"
    using ConvertBSONToJSON_step_index [of P s st st'] by simp
qed

declare ConvertBSONToJSON_loop.simps [simp del]

text \<open>
  \<^verbatim>\<open>ConvertBSONToJSON\<close>: the text of the document.
\<close>

definition strip_comma :: "string \<Rightarrow> string" where
  "strip_comma jsonContent =
     (if length jsonContent \<ge> 2 \<and> drop (length jsonContent - 2) jsonContent = '', ''
      then take (length jsonContent - 2) jsonContent else jsonContent)"

definition ConvertBSONToJSON :: "platform \<Rightarrow> string \<Rightarrow> error + string" where
  "ConvertBSONToJSON P jsonStringStream =
     and_then (GetBSONValueSize jsonStringStream 0) (\<lambda>(totalDocumentSize, index).
     and_then (ConvertBSONToJSON_loop P jsonStringStream totalDocumentSize
                 \<lparr>d_index = index, d_typeMemory = [], d_jsonContent = ''{''\<rparr>) (\<lambda>st.
     and_then (string_at jsonStringStream (d_index st)) (\<lambda>c.
       if c \<noteq> NUL then Inl (runtime_error ''EOO not found!'')
       else Inr (strip_comma (d_jsonContent st) @ ''}''))))"

text \<open>
  \<^verbatim>\<open>ParseFile\<close> with \<^verbatim>\<open>jsonType == havJSONType::BSON\<close>, lines 3153--3433,
  from the contents of a file that could be opened: the bytes are read as they are
  (lines 3309--3324), converted to text and parsed. The result is the return value
  and \<^verbatim>\<open>valueNode\<close>.
\<close>

definition ParseFile_BSON :: "platform \<Rightarrow> string \<Rightarrow> error + bool \<times> havJSONData" where
  "ParseFile_BSON P file =
     (if file = [] then Inr (False, default_value)
      else
        and_then (ConvertBSONToJSON P file) (\<lambda>fileContents.
          if fileContents = [] then Inr (False, default_value)
          else ParseContent P fileContents))"

section \<open>The binary encoder: \<^verbatim>\<open>ConvertJSONToBSON\<close> and \<^verbatim>\<open>WriteBSONFile\<close>\<close>

text \<open>
  \<^verbatim>\<open>havJSONBSONDataType\<close>, lines 196--202. \<^verbatim>\<open>mCurrentArrayItemIndex\<close> is a
  \<^verbatim>\<open>std::uint16_t\<close>; the two \<^verbatim>\<open>int\<close> members count bytes of the output
  and are numbers without overflow.
\<close>

record havJSONBSONDataType =
  mDataType :: havJSONDataType
  mIndexToWriteTotalSizeTo :: nat
  mArrayTotalSize :: nat
  mCurrentArrayItemIndex :: nat

text \<open>
  The first loop, lines 4183--4209: colons and commas are erased, and three kinds
  of number tokens are renamed.
\<close>

definition narrow_token :: "havJSONTokenValue \<Rightarrow> havJSONTokenValue" where
  "narrow_token t =
     (let t = (if mToken t = TK_UInt then t\<lparr>mToken := TK_Int\<rparr> else t);
          t = (if mToken t = TK_Long then t\<lparr>mToken := TK_Int64\<rparr> else t);
          t = (if mToken t = TK_ULong then t\<lparr>mToken := TK_UInt64\<rparr> else t)
      in t)"

fun bson_tokens :: "havJSONTokenValue list \<Rightarrow> havJSONTokenValue list" where
  "bson_tokens [] = []"
| "bson_tokens (t # ts) =
     (if mToken t = TK_Colon \<or> mToken t = TK_Comma then bson_tokens ts
      else narrow_token t # bson_tokens ts)"

text \<open>
  The loops
  \<^verbatim>\<open>for (int sindex = stringOutput.size() - 2; sindex >= 0; sindex -= 2)\<close> that
  turn a string of hexadecimal digits into bytes, the last two digits first; a
  leading digit without a partner is left out. \<^verbatim>\<open>strtol\<close> gives a number
  below 256, which the conversion to \<^verbatim>\<open>char\<close> keeps.
\<close>

function hex_bytes :: "string \<Rightarrow> char list" where
  "hex_bytes stringOutput =
     (if length stringOutput < 2 then []
      else char_of (strtol16 (drop (length stringOutput - 2) stringOutput))
             # hex_bytes (take (length stringOutput - 2) stringOutput))"
  by pat_completeness auto
termination
  by (relation "measure length") auto

declare hex_bytes.simps [simp del]

text \<open>
  The loops \<^verbatim>\<open>for (sindex = 0; sindex < n; ++sindex)\<close> that push the first
  \<open>n\<close> characters of a string, and NUL where the string has ended.
\<close>

definition padded :: "nat \<Rightarrow> string \<Rightarrow> char list" where
  "padded n stringOutput = map (\<lambda>sindex. if sindex < length stringOutput then stringOutput ! sindex else NUL) [0..<n]"

text \<open>
  \<^verbatim>\<open>std::vector::insert\<close> of the bytes of the array size, one after the other
  from position \<open>pos\<close> on (lines 4263--4269); a position beyond the end is
  undefined behaviour.
\<close>

fun insert_bytes :: "char list \<Rightarrow> nat \<Rightarrow> char list \<Rightarrow> error + char list" where
  "insert_bytes out pos [] = Inr out"
| "insert_bytes out pos (b # bs) =
     (if pos \<le> length out then insert_bytes (take pos out @ [b] @ drop pos out) (pos + 1) bs
      else Inl undefined_behaviour)"

text \<open>
  The local state of the second loop of \<^verbatim>\<open>ConvertJSONToBSON\<close>.
\<close>

record bson_encoder =
  e_tokenTypes :: "havJSONBSONDataType list"
  e_fileIndex :: nat
  e_out :: "char list"

definition set_currentType :: "havJSONBSONDataType \<Rightarrow> bson_encoder \<Rightarrow> bson_encoder" where
  "set_currentType currentType st =
     st\<lparr>e_tokenTypes := butlast (e_tokenTypes st) @ [currentType]\<rparr>"

definition push_bytes :: "char list \<Rightarrow> bson_encoder \<Rightarrow> bson_encoder" where
  "push_bytes bs st = st\<lparr>e_out := e_out st @ bs\<rparr>"

text \<open>
  \<open>written n\<close> is \<^verbatim>\<open>fileIndex += n\<close> followed by
  \<^verbatim>\<open>if (currentType.mDataType == havJSONDataType::Array) currentType.mArrayTotalSize += n\<close>.
\<close>

definition written :: "nat \<Rightarrow> bson_encoder \<Rightarrow> bson_encoder" where
  "written n st =
     (let currentType = last (e_tokenTypes st);
          st = st\<lparr>e_fileIndex := e_fileIndex st + n\<rparr>
      in if mDataType currentType = DT_Array
         then set_currentType (currentType\<lparr>mArrayTotalSize := mArrayTotalSize currentType + n\<rparr>) st
         else st)"

text \<open>The type byte of the first \<^verbatim>\<open>switch\<close>, lines 4312--4356.\<close>

definition type_byte :: "havJSONToken \<Rightarrow> error + char list" where
  "type_byte t =
     (if t = TK_Value then Inr [CHR 0x02]
      else if t = TK_Null then Inr [CHR 0x0a]
      else if t = TK_Boolean then Inr [CHR 0x08]
      else if t = TK_Int then Inr [CHR 0x10]
      else if t = TK_UInt64 then Inr [CHR 0x11]
      else if t = TK_Int64 then Inr [CHR 0x12]
      else if t = TK_Double then Inr [CHR 0x01]
      else if t = TK_LeftSquareBracket then Inr [CHR 0x04]
      else if t = TK_String \<or> t = TK_LeftCurlyBracket \<or> is_close t then Inr []
      else Inl (runtime_error ''Unsupported token!''))"

text \<open>
  The second \<^verbatim>\<open>switch\<close>, lines 4395--4602, on the current token.
  \<^verbatim>\<open><< std::hex\<close> prints a signed number as the unsigned number with the
  same bits.
\<close>

definition encode_payload :: "platform \<Rightarrow> havJSONTokenValue \<Rightarrow> bson_encoder \<Rightarrow> error + bson_encoder" where
  "encode_payload P t st =
     (if mToken t = TK_Value then
        and_then (token_value t) (\<lambda>v.
        and_then (ConvertToEscapedString v) (\<lambda>stringValue.
          Inr (written (4 + length stringValue + 1)
                 (push_bytes (padded 4 (CodePointToString (length v + 1)) @ stringValue @ [NUL]) st))))
      else if mToken t = TK_Boolean then
        and_then (token_value t) (\<lambda>v.
          Inr (written 1 (push_bytes [if v = ''true'' then CHR 0x01 else CHR 0x00] st)))
      else if mToken t = TK_Int then
        and_then (token_value t) (\<lambda>v.
        and_then (stoi v) (\<lambda>n.
          Inr (written 4
                 (push_bytes (hex_bytes (setw_fill0 8 (to_hex (nat (n mod 2 ^ 32))))) st))))
      else if mToken t = TK_UInt64 then
        and_then (token_value t) (\<lambda>v.
        and_then (stoull v) (\<lambda>n.
          Inr (written 8
                 (push_bytes (hex_bytes (setw_fill0 16 (to_hex (nat n)))) st))))
      else if mToken t = TK_Int64 then
        and_then (token_value t) (\<lambda>v.
        and_then (stoll v) (\<lambda>n.
          Inr (written 8
                 (push_bytes (hex_bytes (setw_fill0 16 (to_hex (nat (n mod 2 ^ 64))))) st))))
      else if mToken t = TK_Double then
        and_then (token_value t) (\<lambda>v.
        and_then (stod P v) (\<lambda>doubleValue.
          Inr (written 8
                 (push_bytes (hex_bytes (to_hex (unat (bits_of_double doubleValue)))) st))))
      else if mToken t = TK_String then
        and_then (token_value t) (\<lambda>v.
        and_then (ConvertToEscapedString v) (\<lambda>stringValue.
          Inr (written (length stringValue + 1) (push_bytes (stringValue @ [NUL]) st))))
      else if is_close (mToken t) then Inr (written 1 (push_bytes [NUL] st))
      else if mToken t = TK_Null \<or> is_open (mToken t) then Inr st
      else Inl (runtime_error ''Unsupported token!''))"

text \<open>
  One iteration of the second loop, lines 4224--4615, at the token \<open>t\<close> with the
  tokens \<open>ts\<close> after it. \<^verbatim>\<open>tokenTypes.back()\<close> on the empty deque and the
  dereference of the end iterator are undefined behaviour.
\<close>

definition encode_value ::
  "platform \<Rightarrow> havJSONTokenValue \<Rightarrow> havJSONTokenValue list \<Rightarrow> bson_encoder \<Rightarrow> error + bson_encoder"
where
  "encode_value P t ts st =
     (if mToken t = TK_Value \<or> mToken t = TK_Null \<or> mToken t = TK_Boolean \<or> mToken t = TK_Int
         \<or> mToken t = TK_UInt64 \<or> mToken t = TK_Int64 \<or> mToken t = TK_Double
         \<or> mToken t = TK_String \<or> is_open (mToken t) \<or> is_close (mToken t)
      then
        and_then (if mDataType (last (e_tokenTypes st)) \<noteq> DT_Array
                  then (case ts of [] \<Rightarrow> Inl undefined_behaviour | n # ns \<Rightarrow> Inr n)
                  else Inr t) (\<lambda>nextToken.
        and_then (type_byte (mToken nextToken)) (\<lambda>bs.
          let st = push_bytes bs st;
              st = (if \<not> is_close (mToken nextToken) then
                      (let currentType = last (e_tokenTypes st);
                           st = st\<lparr>e_fileIndex := e_fileIndex st + 1\<rparr>
                       in if mDataType currentType = DT_Array
                          then set_currentType
                                 (currentType\<lparr>mArrayTotalSize := mArrayTotalSize currentType + 1\<rparr>) st
                          else st)
                    else st);
              st = (if mDataType (last (e_tokenTypes st)) = DT_Array then
                      (let currentType = last (e_tokenTypes st);
                           st = push_bytes (padded 2 (to_hex (mCurrentArrayItemIndex currentType))) st;
                           st = st\<lparr>e_fileIndex := e_fileIndex st + 2\<rparr>
                       in set_currentType
                            (currentType\<lparr>mArrayTotalSize := mArrayTotalSize currentType + 2\<rparr>) st)
                    else st)
          in encode_payload P t st))
      else Inl (runtime_error ''Unsupported token!''))"

definition encode_step ::
  "platform \<Rightarrow> havJSONTokenValue \<Rightarrow> havJSONTokenValue list \<Rightarrow> bson_encoder \<Rightarrow> error + bson_encoder"
where
  "encode_step P t ts st =
     (if e_tokenTypes st = [] then Inl undefined_behaviour
      else if mToken t = TK_LeftCurlyBracket then
        Inr (st\<lparr>e_tokenTypes := e_tokenTypes st
                  @ [\<lparr>mDataType = DT_Object, mIndexToWriteTotalSizeTo = e_fileIndex st,
                      mArrayTotalSize = 0, mCurrentArrayItemIndex = 0\<rparr>]\<rparr>)
      else if mToken t = TK_LeftSquareBracket then
        Inr (st\<lparr>e_tokenTypes := e_tokenTypes st
                  @ [\<lparr>mDataType = DT_Array, mIndexToWriteTotalSizeTo = e_fileIndex st,
                      mArrayTotalSize = 4, mCurrentArrayItemIndex = 0\<rparr>]\<rparr>)
      else if is_close (mToken t) then
        and_then
          (if mToken t = TK_RightSquareBracket then
             (let currentType = last (e_tokenTypes st);
                  currentType = currentType\<lparr>mArrayTotalSize := mArrayTotalSize currentType + 1\<rparr>
              in and_then (insert_bytes (e_out st) (mIndexToWriteTotalSizeTo currentType)
                             (hex_bytes (setw_fill0 8 (to_hex (mArrayTotalSize currentType)))))
                   (\<lambda>out. Inr ((set_currentType currentType st)
                                  \<lparr>e_out := out, e_fileIndex := e_fileIndex st + 4\<rparr>)))
           else Inr st) (\<lambda>st.
          Inr (st\<lparr>e_out := e_out st @ [NUL],
                  e_tokenTypes := butlast (e_tokenTypes st),
                  e_fileIndex := e_fileIndex st + 1\<rparr>))
      else
        and_then (encode_value P t ts st) (\<lambda>st.
          let currentType = last (e_tokenTypes st)
          in if mDataType currentType = DT_Array
             then Inr (set_currentType
                         (currentType\<lparr>mCurrentArrayItemIndex :=
                                        (mCurrentArrayItemIndex currentType + 1) mod 2 ^ 16\<rparr>) st)
             else Inr st))"

fun encode_loop ::
  "platform \<Rightarrow> havJSONTokenValue list \<Rightarrow> bson_encoder \<Rightarrow> error + bson_encoder"
where
  "encode_loop P [] st = Inr st"
| "encode_loop P (t # ts) st =
     (case encode_step P t ts st of
        Inl e \<Rightarrow> Inl e
      | Inr st' \<Rightarrow> encode_loop P ts st')"

text \<open>
  \<^verbatim>\<open>ConvertJSONToBSON\<close>, lines 4167--4621: the return value and the vector
  \<^verbatim>\<open>jsonContentsAsBinaryStream\<close>, which the caller passes and the function
  appends to.
\<close>

definition ConvertJSONToBSON ::
  "platform \<Rightarrow> havJSONData \<Rightarrow> char list \<Rightarrow> error + bool \<times> char list"
where
  "ConvertJSONToBSON P valueNode jsonContentsAsBinaryStream =
     and_then (Tokenization_value P valueNode) (\<lambda>tokens.
       if tokens = [] then Inr (False, jsonContentsAsBinaryStream)
       else if mToken (tokens ! 0) \<noteq> TK_LeftCurlyBracket
         then Inl (runtime_error ''BSON document must be an object!'')
       else
         (case bson_tokens tokens of
            [] \<Rightarrow> Inl undefined_behaviour
          | t # ts \<Rightarrow>
              and_then
                (encode_loop P ts
                   \<lparr>e_tokenTypes =
                      (if mToken t = TK_LeftCurlyBracket
                       then [\<lparr>mDataType = DT_Object, mIndexToWriteTotalSizeTo = 0,
                              mArrayTotalSize = 0, mCurrentArrayItemIndex = 0\<rparr>]
                       else []),
                    e_fileIndex = 0,
                    e_out = jsonContentsAsBinaryStream\<rparr>) (\<lambda>st. Inr (True, e_out st))))"

text \<open>
  \<^verbatim>\<open>WriteBSONFile\<close>, lines 4623--4656, for a file that could be opened: the
  return value and the bytes written to the file. \<^verbatim>\<open>fwrite\<close> writes the four
  bytes of the \<^verbatim>\<open>std::int32_t\<close> \<open>fileSize\<close> in the order of the host.
\<close>

definition native_bytes32 :: "platform \<Rightarrow> nat \<Rightarrow> char list" where
  "native_bytes32 P n =
     (let bs = map (\<lambda>i. char_of (drop_bit (8 * i) n)) [0..<4]
      in if little_endian P then bs else rev bs)"

definition WriteBSONFile ::
  "platform \<Rightarrow> havJSONData \<Rightarrow> char list \<Rightarrow> error + bool \<times> char list"
where
  "WriteBSONFile P valueNode jsonContentsAsBinaryStream =
     and_then (ConvertJSONToBSON P valueNode jsonContentsAsBinaryStream) (\<lambda>(ok, out).
       if ok then Inr (True, native_bytes32 P (length out + 4) @ out)
       else Inr (False, []))"

section \<open>The number rule of the specification\<close>

text \<open>
  Section 4.1, ``Number scanning'', in its own words: a literal that contains
  \<^verbatim>\<open>.\<close>, \<^verbatim>\<open>e\<close> or \<^verbatim>\<open>E\<close> is a Double, re-emitted with fixed
  15-digit precision; any other literal is the narrowest of Int32, wide int, Int64
  that fits when it starts with \<^verbatim>\<open>-\<close>, and the narrowest of UInt32, wide
  unsigned, UInt64 that fits otherwise. A literal without digits is a bad number, and
  so is one that no width fits.
\<close>

definition fits_signed :: "nat \<Rightarrow> int \<Rightarrow> bool" where
  "fits_signed w v = (- (2 ^ (w - 1)) \<le> v \<and> v < 2 ^ (w - 1))"

definition fits_unsigned :: "nat \<Rightarrow> int \<Rightarrow> bool" where
  "fits_unsigned w v = (0 \<le> v \<and> v < 2 ^ w)"

definition narrowest_signed :: "platform \<Rightarrow> int \<Rightarrow> error + havJSONTokenValue" where
  "narrowest_signed P v =
     (if fits_signed 32 v then Inr (text_token TK_Int (to_string v))
      else if fits_signed (long_bits P) v then Inr (text_token TK_Long (to_string v))
      else if fits_signed 64 v then Inr (text_token TK_Int64 (to_string v))
      else Inl out_of_range)"

definition narrowest_unsigned :: "platform \<Rightarrow> int \<Rightarrow> error + havJSONTokenValue" where
  "narrowest_unsigned P v =
     (if fits_unsigned 32 v then Inr (text_token TK_UInt (to_string v))
      else if fits_unsigned (long_bits P) v then Inr (text_token TK_ULong (to_string v))
      else if fits_unsigned 64 v then Inr (text_token TK_UInt64 (to_string v))
      else Inl out_of_range)"

definition number_token_spec :: "platform \<Rightarrow> string \<Rightarrow> error + havJSONTokenValue" where
  "number_token_spec P lit =
     (if CHR ''.'' \<in> set lit \<or> CHR ''e'' \<in> set lit \<or> CHR ''E'' \<in> set lit then
        (case stod P lit of
           Inl e \<Rightarrow> Inl e
         | Inr d \<Rightarrow> Inr (text_token TK_Double (fixed15 P d)))
      else
        (case parse_integer lit of
           None \<Rightarrow> Inl invalid_argument
         | Some (negative, n) \<Rightarrow>
             if hd lit = CHR ''-'' then narrowest_signed P (- int n)
             else narrowest_unsigned P (int n)))"

section \<open>UTF-8 as the standard defines it\<close>

text \<open>
  The encoding of a code point in UTF-8 (RFC 3629), written with division and
  remainder; it is the reference the functions of the source are compared with, not a
  translation of source code: one byte below U+0080, two below U+0800, three below
  U+10000, four otherwise.
\<close>

definition utf8_encoding :: "nat \<Rightarrow> string" where
  "utf8_encoding cp =
     (if cp < 0x80 then [char_of cp]
      else if cp < 0x800 then
        [char_of (0xC0 + cp div 0x40), char_of (0x80 + cp mod 0x40)]
      else if cp < 0x10000 then
        [char_of (0xE0 + cp div 0x1000), char_of (0x80 + cp div 0x40 mod 0x40),
         char_of (0x80 + cp mod 0x40)]
      else
        [char_of (0xF0 + cp div 0x40000), char_of (0x80 + cp div 0x1000 mod 0x40),
         char_of (0x80 + cp div 0x40 mod 0x40), char_of (0x80 + cp mod 0x40)])"

text \<open>
  What the escaper writes for one code point, in the words of the specification
  (section 4.4, ``Outgoing escaping'') as amended for claim C7: the eight named
  characters as their two-character escapes; the other code points below U+001F and
  those from U+0080 on as \<^verbatim>\<open>\uXXXX\<close>, a code point from U+10000 on as the two
  halves of its UTF-16 surrogate pair; every other code point up to U+007F as itself.
\<close>

definition escaped_code_point :: "nat \<Rightarrow> string" where
  "escaped_code_point cp =
     (if cp = 0x22 then [backslash, quote]
      else if cp = 0x5C then [backslash, backslash]
      else if cp = 0x08 then [backslash, CHR ''b'']
      else if cp = 0x0C then [backslash, CHR ''f'']
      else if cp = 0x0A then [backslash, CHR ''n'']
      else if cp = 0x0D then [backslash, CHR ''r'']
      else if cp = 0x09 then [backslash, CHR ''t'']
      else if cp = 0x0B then [backslash, CHR ''v'']
      else if cp < 0x1F then u_escape cp
      else if cp < 0x80 then [char_of cp]
      else if cp < 0x10000 then u_escape cp
      else u_escape ((cp - 0x10000) div 0x400 + 0xD800) @ u_escape ((cp - 0x10000) mod 0x400 + 0xDC00))"

section \<open>Runs of the string lexer\<close>

text \<open>
  The state of the loop of \<^verbatim>\<open>CheckForString\<close> after \<open>n\<close> iterations that
  neither return nor throw: the loop \<^emph>\<open>arrives\<close> at the index and decoded string
  that \<open>string_steps\<close> gives. An \<^emph>\<open>ordinary\<close> character is one that the loop
  copies as it is.
\<close>

fun string_steps :: "nat \<Rightarrow> string \<Rightarrow> nat \<times> string \<Rightarrow> (nat \<times> string) option" where
  "string_steps 0 s (index, tempValue) = Some (index, tempValue)"
| "string_steps (Suc n) s (index, tempValue) =
     (if index < length s then
        (case string_step s index tempValue of
           Inr (Inr (index', tempValue')) \<Rightarrow> string_steps n s (index' + 1, tempValue')
         | _ \<Rightarrow> None)
      else None)"

definition ordinary :: "char \<Rightarrow> bool" where
  "ordinary c = (c \<noteq> quote \<and> c \<noteq> backslash)"

section \<open>The key order of the specification\<close>

text \<open>
  What the specification says of the entries of an object: the keys are unique,
  and they are in lexicographic order, which for \<^verbatim>\<open>std::string\<close> keys is
  \<open>string_less\<close>. A value is well formed when this holds of every object in it.
\<close>

definition object_invariant :: "(string \<times> 'a) list \<Rightarrow> bool" where
  "object_invariant m = (distinct (map fst m) \<and> sorted_wrt string_less (map fst m))"

fun well_formed :: "havJSONData \<Rightarrow> bool" where
  "well_formed (havJSONData t v) =
     (case v of
        V_vector xs \<Rightarrow> list_all well_formed xs
      | V_map m \<Rightarrow> object_invariant m \<and> list_all well_formed (map snd m)
      | _ \<Rightarrow> True)"




text \<open>
  A token list gives the keys of every object in ascending order: \<open>stack\<close> holds,
  for each bracket that is open, the key seen last inside it, and every key must be
  above the one before it in the same object.
\<close>

fun ascending_keys :: "string option list \<Rightarrow> havJSONTokenValue list \<Rightarrow> bool" where
  "ascending_keys stack [] = True"
| "ascending_keys stack (t # ts) =
     (if is_open (mToken t) then ascending_keys (None # stack) ts
      else if is_close (mToken t) then ascending_keys (tl stack) ts
      else if mToken t = TK_String then
        (case stack of
           [] \<Rightarrow> ascending_keys stack ts
         | previous # below \<Rightarrow>
             (case (previous, mValue t) of
                (Some k, Some key) \<Rightarrow> string_less k key
              | (Some k, None) \<Rightarrow> False
              | (None, _) \<Rightarrow> True)
             \<and> ascending_keys (mValue t # below) ts)
      else ascending_keys stack ts)"









section \<open>Properties of the container operations\<close>

lemma map_find_erase_None: "map_find m key = None \<Longrightarrow> map_erase m key = m"
  by (induction m) (auto split: if_splits)

text \<open>
  Claim C9. For every Object value and every key, \<^verbatim>\<open>remove(key)\<close> returns
  normally and leaves the entries of the object as they were: the function erases the
  key from the local copy \<open>value\<close> of the map only.
\<close>

theorem remove_key_leaves_object_unchanged:
  "remove (havJSONData DT_Object (V_map m)) key = (Inr (), havJSONData DT_Object (V_map m))
   \<and> snd (snd (remove_frame (havJSONData DT_Object (V_map m)) key)) = Some (map_erase m key)"
  by (cases "map_find m key")
     (simp_all add: remove_def remove_frame_def map_find_erase_None)

text \<open>
  Claim C10. \<^verbatim>\<open>clear()\<close> throws for every value. For an Array and for an
  Object the exception is the \<^verbatim>\<open>runtime_error\<close> of the last line, and it is
  raised after the elements have been erased.
\<close>

theorem clear_always_throws:
  "(\<exists>e. fst (clear this) = Inl e)
   \<and> clear (havJSONData DT_Array (V_vector xs)) =
       (Inl (runtime_error ''Value is not an array or object!''), havJSONData DT_Array (V_vector []))
   \<and> clear (havJSONData DT_Object (V_map m)) =
       (Inl (runtime_error ''Value is not an array or object!''), havJSONData DT_Object (V_map []))"
  by (cases this)
     (auto simp: clear_def clear_array_def clear_object_def
           split: sum.splits havJSONVariant.splits)

section \<open>Evaluation of the model on concrete inputs\<close>

lemma char_of_eval:
  "char_of (n::nat) = Char (odd n) (odd (n div 2)) (odd (n div 4)) (odd (n div 8))
     (odd (n div 16)) (odd (n div 32)) (odd (n div 64)) (odd (n div 128))"
  by (simp add: char_of_def bit_iff_odd_drop_bit drop_bit_eq_div)

lemma replicate_eval: "replicate n x = (if n = 0 then [] else x # replicate (n - 1) x)"
  by (cases n) simp_all

lemmas escape_eval =
  ConvertToEscapedString_def ConvertToEscapedString_loop.simps escape_step_def utf8_lead_def
  utf8_continuation.simps cxx_at_def u_escape_def setw_fill0_def to_hex_def digits.simps
  digit_char_def Let_def char_of_eval replicate_eval

lemmas string_lexer_eval =
  CheckForString_def CheckForString_loop.simps string_step_def escape_u_def read_hex.simps
  isxdigit_def char_between_def strtol16_def digit_value_def CodePointToString_def c_str_def
  Let_def char_of_eval

lemmas number_eval =
  CheckForNumber_def number_scan.simps SkipWhitespaces_def number_token_def stoi_def stol_def
  stoll_def stoul_def stoull_def sto_signed_def sto_unsigned_def parse_integer_def isspace_def
  isdigit_def char_between_def digit_value_def to_string_def digits.simps digit_char_def
  text_token_def structural_def char_of_eval Let_def

lemmas lexer_eval =
  Tokenization_def Tokenization_loop.simps Tokenization_step_def Tokenization_open_def
  Tokenization_close_def CheckTypeToken_def CheckTypeToken_object.simps
  CheckTypeToken_array.simps CheckTypeToken_other.simps CheckTypeToken_value_def
  CheckForLiteral_def CheckForLiteral_loop.simps CheckToken_def is_open_def is_close_def
  is_value_start_def is_number_start_def cxx_at_def string_lexer_eval number_eval

lemmas builder_eval =
  ParseContent_def ParseJSONContents_def ParseJSONContents_loop.simps ParseJSONContents_step_def
  parse_bracket_def parse_open_def parse_pair_def parse_element_def expect_object_def
  make_value_def token_value_def wrap_signed_def wrap_unsigned_def is_value_token_def
  valid_after_curly_def valid_after_square_def empty_container_def push_back_child_def
  insert_child_def tokens_front_def tokens_pop_front_def refs_back_def refs_pop_back_def
  default_value_def

lemmas writer_eval =
  ConvertJSONToString_def Tokenization_value_def TokenizeArray_def TokenizeObject_def
  literal_tokens_def is_text_token_def is_value_token_def is_close_def GetTokenAsCharacter_def
  token_value_def text_token_def structural_def to_string_def digits.simps digit_char_def
  char_of_eval escape_eval

lemmas bson_eval =
  ParseFile_BSON_def ConvertBSONToJSON_def ConvertBSONToJSON_loop.simps ConvertBSONToJSON_step_def
  strip_comma_def bson_close_def bson_value_def bson_counted_def bson_key_def append_json_def
  bson_string_loop.simps bson_binary_loop.simps char_to_unsigned_def
  GetBSONValueSize_def GetBSONKey_def GetBSONKey_loop.simps int32_at_def bytes_at_def
  native_value_def string_at_def bson_type_def
  WriteBSONFile_def native_bytes32_def ConvertJSONToBSON_def encode_step_def encode_value_def
  encode_payload_def type_byte_def written_def push_bytes_def set_currentType_def
  padded_def hex_bytes.simps narrow_token_def
  upt_rec [of _ "numeral n" for n] upt_rec [of _ "Suc n" for n]

section \<open>Properties of the string lexer\<close>

lemma not_bit_of_less:
  fixes a :: nat
  assumes "a < 2 ^ n" "n \<le> k"
  shows "\<not> bit a k"
proof -
  from assms(2) have "2 ^ n \<le> (2::nat) ^ k" by simp
  with assms(1) have "a < 2 ^ k" by linarith
  then have "a div 2 ^ k = 0" by simp
  then show ?thesis by (simp add: bit_iff_odd)
qed

lemma or_push_bit_add:
  fixes a :: nat
  assumes "a < 2 ^ n"
  shows "push_bit n b OR a = push_bit n b + a"
proof (rule disjunctive_add [symmetric])
  fix k
  show "\<not> bit (push_bit n b) k \<or> \<not> bit a k"
    using not_bit_of_less [OF assms, of k] by (cases "k < n") (simp_all add: bit_push_bit_iff)
qed

lemma and_mask_nat: "(x::nat) AND mask n = x mod 2 ^ n"
  by (simp add: take_bit_eq_mask [symmetric] take_bit_eq_mod)

lemma and_3f: "(x::nat) AND 0x3f = x mod 64"
  using and_mask_nat [of x 6] by (simp add: mask_eq_exp_minus_1)

lemma or_80: "(x::nat) < 64 \<Longrightarrow> x OR 0x80 = 0x80 + x"
  using or_push_bit_add [of x 7 1] by (simp add: ac_simps)

lemma or_c0: "(x::nat) < 64 \<Longrightarrow> x OR 0xc0 = 0xc0 + x"
  using or_push_bit_add [of x 6 3] by (simp add: ac_simps)

lemma or_e0: "(x::nat) < 32 \<Longrightarrow> x OR 0xe0 = 0xe0 + x"
  using or_push_bit_add [of x 5 7] by (simp add: ac_simps)

lemma or_f0: "(x::nat) < 16 \<Longrightarrow> x OR 0xf0 = 0xf0 + x"
  using or_push_bit_add [of x 4 15] by (simp add: ac_simps)

lemma char_of_not_NUL: "0 < n \<Longrightarrow> n < 256 \<Longrightarrow> char_of (n::nat) \<noteq> NUL"
proof
  assume "0 < n" "n < 256" "char_of n = NUL"
  then have "byte (char_of n) = byte NUL" by simp
  with \<open>0 < n\<close> \<open>n < 256\<close> show False by (simp add: of_char_of)
qed

lemma CodePointToString_utf8:
  assumes "0 < cp" "cp < 0x110000"
  shows "CodePointToString cp = utf8_encoding cp"
proof -
  have m: "cp mod 64 < 64" "cp div 64 mod 64 < 64" "cp div 4096 mod 64 < 64" by simp_all
  consider "cp < 0x80" | "0x80 \<le> cp" "cp < 0x800" | "0x800 \<le> cp" "cp < 0x10000"
    | "0x10000 \<le> cp" by linarith
  then show ?thesis
  proof cases
    case 1
    with assms show ?thesis
      by (simp add: CodePointToString_def utf8_encoding_def c_str_def char_of_not_NUL)
  next
    case 2
    then have d: "cp div 64 < 64" by simp
    from 2 show ?thesis
      by (simp add: CodePointToString_def utf8_encoding_def c_str_def char_of_not_NUL
            drop_bit_eq_div and_3f or_80 [OF m(1)] or_c0 [OF d])
  next
    case 3
    then have d: "cp div 4096 < 32" by simp
    from 3 show ?thesis
      by (simp add: CodePointToString_def utf8_encoding_def c_str_def char_of_not_NUL
            drop_bit_eq_div and_3f or_80 [OF m(1)] or_80 [OF m(2)] or_e0 [OF d])
  next
    case 4
    with assms have d: "cp div 262144 < 16" by simp
    from 4 assms show ?thesis
      by (simp add: CodePointToString_def utf8_encoding_def c_str_def char_of_not_NUL
            drop_bit_eq_div and_3f or_80 [OF m(1)] or_80 [OF m(2)] or_80 [OF m(3)] or_f0 [OF d])
  qed
qed


text \<open>
  When the loop of the string lexer stands at a \<^verbatim>\<open>\uXXXX\<close> escape whose value
  \<open>high\<close> lies in D800..DBFF and that is followed at once by a \<^verbatim>\<open>\uXXXX\<close>
  escape whose value \<open>low\<close> lies in DC00..DFFF, it goes on behind the second
  escape with the UTF-8 encoding of the one code point appended.
\<close>

lemma surrogate_pair_loop:
  assumes hex: "isxdigit h1" "isxdigit h2" "isxdigit h3" "isxdigit h4"
               "isxdigit l1" "isxdigit l2" "isxdigit l3" "isxdigit l4"
    and high: "high = strtol16 [h1, h2, h3, h4]" "0xD800 \<le> high" "high \<le> 0xDBFF"
    and low: "low = strtol16 [l1, l2, l3, l4]" "0xDC00 \<le> low" "low \<le> 0xDFFF"
    and s: "s = pre @ [backslash, CHR ''u'', h1, h2, h3, h4,
                      backslash, CHR ''u'', l1, l2, l3, l4] @ rest"
  shows "CheckForString_loop s (length pre) tempValue =
         CheckForString_loop s (length pre + 12)
           (tempValue @ utf8_encoding (0x10000 + (high - 0xD800) * 0x400 + (low - 0xDC00)))"
proof -
  let ?cp = "0x10000 + (high - 0xD800) * 0x400 + (low - 0xDC00)"
  from high low have cp: "0 < ?cp" "?cp < 0x110000" by simp_all
  have len: "length s = length pre + 12 + length rest"
    by (simp add: s)
  have r1: "read_hex s (Suc (length pre)) 0 [] False = Inr (5 + length pre, [h1, h2, h3, h4], True)"
    using hex by (simp add: s read_hex.simps nth_append)
  have r2: "read_hex s (7 + length pre) 0 [] False = Inr (11 + length pre, [l1, l2, l3, l4], True)"
    using hex by (simp add: s read_hex.simps nth_append)
  have at: "s ! length pre = backslash" "s ! Suc (length pre) = CHR ''u''"
    "s ! (6 + length pre) = backslash" "s ! (7 + length pre) = CHR ''u''"
    by (simp_all add: s nth_append)
  have "escape_u s (Suc (length pre)) tempValue = Inr (11 + length pre, tempValue @ CodePointToString ?cp)"
    using high low by (simp add: escape_u_def Let_def r1 r2 at len)
  then have "string_step s (length pre) tempValue = Inr (Inr (11 + length pre, tempValue @ utf8_encoding ?cp))"
    by (simp add: string_step_def Let_def CodePointToString_utf8 [OF cp] at len)
  then show ?thesis
    by (subst CheckForString_loop.simps) (simp add: len add.commute)
qed

text \<open>
  What the loop has decoded stays: the loop over \<open>n\<close> iterations is the loop from
  where it arrives, every iteration appends, and so the token begins with the
  string decoded so far. Ordinary characters are copied one by one.
\<close>

lemma string_steps_loop:
  "string_steps n s (index, tempValue) = Some (index', tempValue')
   \<Longrightarrow> CheckForString_loop s index tempValue = CheckForString_loop s index' tempValue'"
proof (induction n arbitrary: index tempValue)
  case 0
  then show ?case by simp
next
  case (Suc n)
  from Suc.prems obtain i t where lt: "index < length s"
    and st: "string_step s index tempValue = Inr (Inr (i, t))"
    and rest: "string_steps n s (i + 1, t) = Some (index', tempValue')"
    by (auto split: if_splits sum.splits prod.splits)
  from lt st have "CheckForString_loop s index tempValue = CheckForString_loop s (i + 1) t"
    by (subst CheckForString_loop.simps) simp
  with Suc.IH [OF rest] show ?case by simp
qed

lemma escape_u_appends:
  "escape_u s index tempValue = Inr (index', tempValue') \<Longrightarrow> \<exists>a. tempValue' = tempValue @ a"
  unfolding escape_u_def Let_def
  by (auto split: sum.splits prod.splits if_splits)

lemma string_step_appends:
  "string_step s index tempValue = Inr (Inr (index', tempValue')) \<Longrightarrow> \<exists>a. tempValue' = tempValue @ a"
  unfolding string_step_def Let_def
  by (auto split: if_splits sum.splits dest: escape_u_appends)

lemma CheckForString_loop_keeps:
  "CheckForString_loop s index tempValue = Inr (tok, index')
   \<Longrightarrow> \<exists>more. tok = \<lparr>mToken = TK_Value, mValue = Some (tempValue @ more)\<rparr>"
proof (induction s index tempValue rule: CheckForString_loop.induct)
  case (1 s index tempValue)
  from "1.prems" have lt: "index < length s"
    by (subst (asm) CheckForString_loop.simps) (simp split: if_splits)
  show ?case
  proof (cases "string_step s index tempValue")
    case (Inl e)
    with lt "1.prems" show ?thesis by (subst (asm) CheckForString_loop.simps) simp
  next
    case (Inr r)
    show ?thesis
    proof (cases r)
      case (Inl result)
      with Inr lt "1.prems" have "tok = result"
        by (subst (asm) CheckForString_loop.simps) simp
      moreover from Inr Inl have "result = \<lparr>mToken = TK_Value, mValue = Some tempValue\<rparr>"
        unfolding string_step_def Let_def by (auto split: if_splits sum.splits)
      ultimately show ?thesis by simp
    next
      case inr: (Inr p)
      obtain i t where p: "p = (i, t)" by (cases p)
      from Inr inr p lt "1.prems" have "CheckForString_loop s (i + 1) t = Inr (tok, index')"
        by (subst (asm) CheckForString_loop.simps) simp
      from "1.IH" [OF lt Inr inr p [symmetric] this] obtain more where
        "tok = \<lparr>mToken = TK_Value, mValue = Some (t @ more)\<rparr>" by blast
      moreover from Inr inr p string_step_appends obtain a where "t = tempValue @ a" by blast
      ultimately show ?thesis by simp
    qed
  qed
qed

lemma ordinary_run:
  assumes "list_all ordinary cs" "s = a @ cs @ b"
  shows "CheckForString_loop s (length a) tempValue
         = CheckForString_loop s (length a + length cs) (tempValue @ cs)"
  using assms
proof (induction cs arbitrary: a tempValue)
  case Nil
  then show ?case by simp
next
  case (Cons c cs)
  from Cons.prems have c: "s ! length a = c" "length a < length s" "ordinary c"
    by (simp_all add: nth_append)
  then have "string_step s (length a) tempValue = Inr (Inr (length a, tempValue @ [c]))"
    by (simp add: string_step_def ordinary_def)
  with c have "CheckForString_loop s (length a) tempValue
      = CheckForString_loop s (length a + 1) (tempValue @ [c])"
    by (subst CheckForString_loop.simps) simp
  moreover from Cons.prems have
    "CheckForString_loop s (length (a @ [c])) (tempValue @ [c])
       = CheckForString_loop s (length (a @ [c]) + length cs) ((tempValue @ [c]) @ cs)"
    by (intro Cons.IH) auto
  ultimately show ?case by simp
qed


lemma string_steps_numeral:
  "string_steps (numeral k) s (index, tempValue) =
     (if index < length s then
        (case string_step s index tempValue of
           Inr (Inr (index', tempValue')) \<Rightarrow> string_steps (pred_numeral k) s (index' + 1, tempValue')
         | _ \<Rightarrow> None)
      else None)"
  by (simp add: numeral_eq_Suc)

text \<open>
  Claim C5 as stated fails: in the literal \<^verbatim>\<open>"\uD83D\uD83D\uDE00"\<close> the second
  escape lies in the high range and is followed at once by an escape in the low
  range, and the lexer emits nothing for the pair. It reads the second escape as
  the other half of the first one and throws.
\<close>

theorem surrogate_after_escape_counterexample:
  "CheckForString 0 ([quote, backslash] @ ''uD83D'' @ [backslash] @ ''uD83D'' @ [backslash] @ ''uDE00'' @ [quote])
     = Inl (runtime_error ''Invalid code point range for UTF-16 low surrogate pair!'')"
  by (simp add: string_lexer_eval)

text \<open>
  Behind an escape that is not in the high range the loop does arrive at the
  pair: the lexer steps back to the second escape and reads it anew.
\<close>

lemma surrogate_pair_after_plain_escape:
  "CheckForString 0
     ([quote, backslash] @ ''u0041'' @ [backslash] @ ''uD83D'' @ [backslash] @ ''uDE00'' @ [quote])
     = Inr (\<lparr>mToken = TK_Value,
             mValue = Some [CHR ''A'', CHR 0xF0, CHR 0x9F, CHR 0x98, CHR 0x80]\<rparr>, 19)"
  by (simp add: string_lexer_eval)

text \<open>
  Claim C5, as amended. When the loop of the string lexer arrives at a
  \<^verbatim>\<open>\uXXXX\<close> escape whose value \<open>high\<close> lies in D800..DBFF and that is
  followed at once by a \<^verbatim>\<open>\uXXXX\<close> escape whose value \<open>low\<close> lies in
  DC00..DFFF, the lexer appends to the decoded string the UTF-8 encoding of the one
  code point \<open>0x10000 + (high - 0xD800) * 0x400 + (low - 0xDC00)\<close> and goes on
  behind the second escape. Every token it returns for the literal holds the string
  decoded before the pair, followed by that encoding; and it does return the token,
  with the position of the closing quote, when only ordinary characters stand
  between the pair and the closing quote.
\<close>

theorem surrogate_pair_in_token:
  assumes hex: "isxdigit h1" "isxdigit h2" "isxdigit h3" "isxdigit h4"
               "isxdigit l1" "isxdigit l2" "isxdigit l3" "isxdigit l4"
    and high: "high = strtol16 [h1, h2, h3, h4]" "0xD800 \<le> high" "high \<le> 0xDBFF"
    and low: "low = strtol16 [l1, l2, l3, l4]" "0xDC00 \<le> low" "low \<le> 0xDFFF"
    and s: "s = pre @ [backslash, CHR ''u'', h1, h2, h3, h4,
                      backslash, CHR ''u'', l1, l2, l3, l4] @ rest"
    and arrives: "string_steps n s (index + 1, []) = Some (length pre, decoded)"
    and cp: "cp = 0x10000 + (high - 0xD800) * 0x400 + (low - 0xDC00)"
  shows "CheckForString index s
           = CheckForString_loop s (length pre + 12) (decoded @ utf8_encoding cp)
         \<and> (\<forall>tok index'. CheckForString index s = Inr (tok, index')
               \<longrightarrow> (\<exists>more. tok = \<lparr>mToken = TK_Value,
                                     mValue = Some (decoded @ utf8_encoding cp @ more)\<rparr>))
         \<and> (list_all ordinary post \<and> rest = post @ quote # after
               \<longrightarrow> CheckForString index s
                     = Inr (\<lparr>mToken = TK_Value,
                             mValue = Some (decoded @ utf8_encoding cp @ post)\<rparr>,
                            length pre + 12 + length post))"
proof (intro conjI allI impI)
  have "CheckForString index s = CheckForString_loop s (length pre) decoded"
    using string_steps_loop [OF arrives] by (simp add: CheckForString_def)
  also have "\<dots> = CheckForString_loop s (length pre + 12) (decoded @ utf8_encoding cp)"
    unfolding cp by (rule surrogate_pair_loop [OF hex high low s])
  finally show eq: "CheckForString index s
      = CheckForString_loop s (length pre + 12) (decoded @ utf8_encoding cp)" .
  show "\<exists>more. tok = \<lparr>mToken = TK_Value, mValue = Some (decoded @ utf8_encoding cp @ more)\<rparr>"
    if "CheckForString index s = Inr (tok, index')" for tok index'
    using that eq CheckForString_loop_keeps [of s "length pre + 12" "decoded @ utf8_encoding cp" tok index']
    by simp
  show "CheckForString index s
          = Inr (\<lparr>mToken = TK_Value, mValue = Some (decoded @ utf8_encoding cp @ post)\<rparr>,
                 length pre + 12 + length post)"
    if "list_all ordinary post \<and> rest = post @ quote # after"
  proof -
    let ?a = "pre @ [backslash, CHR ''u'', h1, h2, h3, h4, backslash, CHR ''u'', l1, l2, l3, l4]"
    from that s have s': "s = ?a @ post @ (quote # after)" by simp
    have la: "length ?a = length pre + 12" by simp
    from that have 1: "CheckForString_loop s (length ?a) (decoded @ utf8_encoding cp)
        = CheckForString_loop s (length ?a + length post) ((decoded @ utf8_encoding cp) @ post)"
      by (intro ordinary_run [OF _ s']) simp
    have "s ! (length ?a + length post) = quote" "length ?a + length post < length s"
      unfolding s' by (simp_all add: nth_append)
    then have 2: "CheckForString_loop s (length ?a + length post) ((decoded @ utf8_encoding cp) @ post)
        = Inr (\<lparr>mToken = TK_Value, mValue = Some ((decoded @ utf8_encoding cp) @ post)\<rparr>,
               length ?a + length post)"
      by (subst CheckForString_loop.simps) (simp add: string_step_def)
    from eq 1 [unfolded la] 2 [unfolded la] show ?thesis
      by (simp only: append_assoc)
  qed
qed

theorem surrogate_pair_in_token_witness:
  "isxdigit CHR ''D'' \<and> isxdigit CHR ''8'' \<and> isxdigit CHR ''3'' \<and> isxdigit CHR ''E''
   \<and> isxdigit CHR ''0''
   \<and> 0xD800 \<le> strtol16 ''D83D'' \<and> strtol16 ''D83D'' \<le> 0xDBFF
   \<and> 0xDC00 \<le> strtol16 ''DE00'' \<and> strtol16 ''DE00'' \<le> 0xDFFF
   \<and> string_steps 2
         ([quote, CHR ''a'', backslash, CHR ''n'', backslash] @ ''uD83D'' @ [backslash] @ ''uDE00''
            @ [CHR ''b'', quote, CHR '',''])
         (0 + 1, [])
       = Some (length [quote, CHR ''a'', backslash, CHR ''n''], [CHR ''a'', CHR 0x0A])
   \<and> list_all ordinary [CHR ''b'']
   \<and> CheckForString 0
         ([quote, CHR ''a'', backslash, CHR ''n'', backslash] @ ''uD83D'' @ [backslash] @ ''uDE00''
            @ [CHR ''b'', quote, CHR '',''])
       = Inr (\<lparr>mToken = TK_Value,
               mValue = Some [CHR ''a'', CHR 0x0A, CHR 0xF0, CHR 0x9F, CHR 0x98, CHR 0x80, CHR ''b'']\<rparr>,
              17)"
  using surrogate_pair_in_token
    [of "CHR ''D''" "CHR ''8''" "CHR ''3''" "CHR ''D''" "CHR ''D''" "CHR ''E''" "CHR ''0''" "CHR ''0''"
        "strtol16 ''D83D''" "strtol16 ''DE00''"
        "[quote, CHR ''a'', backslash, CHR ''n'', backslash] @ ''uD83D'' @ [backslash] @ ''uDE00''
            @ [CHR ''b'', quote, CHR '','']"
        "[quote, CHR ''a'', backslash, CHR ''n'']" "[CHR ''b'', quote, CHR '','']"
        2 0 "[CHR ''a'', CHR 0x0A]" "0x10000 + (strtol16 ''D83D'' - 0xD800) * 0x400 + (strtol16 ''DE00'' - 0xDC00)"
        "[CHR ''b'']" "[CHR '','']"]
  by (simp add: string_lexer_eval utf8_encoding_def ordinary_def string_steps_numeral)

text \<open>
  Claim C6 as stated fails: the literal \<^verbatim>\<open>"\u12G4"\<close> has a
  \<^verbatim>\<open>\u\<close> whose third following character is not a hexadecimal digit, and
  the lexer returns the string \<^verbatim>\<open>u12G4\<close> for it.
\<close>

theorem bad_hex_counterexample:
  "CheckForString 0 ([quote, backslash] @ ''u12G4'' @ [quote])
     = Inr (\<lparr>mToken = TK_Value, mValue = Some ''u12G4''\<rparr>, 7)"
  by (simp add: string_lexer_eval)

lemma read_hex_stops:
  assumes "list_all isxdigit hs" "valueIndex + length hs < 4" "\<not> isxdigit c"
    and "s = pre @ hs @ c # rest" "Suc index = length pre"
  shows "read_hex s index valueIndex acc flag = Inr (index + length hs + 1, acc @ hs, False)"
  using assms
proof (induction hs arbitrary: pre index valueIndex acc flag)
  case Nil
  then show ?case
    by (subst read_hex.simps) (simp add: nth_append)
next
  case (Cons a hs)
  from Cons.prems have step:
    "read_hex s index valueIndex acc flag = read_hex s (index + 1) (valueIndex + 1) (acc @ [a]) True"
    by (subst read_hex.simps) (simp add: nth_append)
  from Cons.prems have
    "read_hex s (index + 1) (valueIndex + 1) (acc @ [a]) True
       = Inr (index + 1 + length hs + 1, (acc @ [a]) @ hs, False)"
    by (intro Cons.IH [where pre = "pre @ [a]"]) simp_all
  with step show ?case by simp
qed

text \<open>
  Claim C6, as amended. A \<^verbatim>\<open>\u\<close> that is followed by fewer than four
  hexadecimal digits \<open>hs\<close> and then by a character \<open>c\<close> that is not one does
  not make the lexer fail where the loop meets it: the lexer appends \<^verbatim>\<open>u\<close> and
  the digits read so far to the decoded string and goes on at \<open>c\<close>. Lexing fails
  (with ``Invalid code point for UTF-16 low surrogate pair!'') when such an escape
  comes directly behind a complete \<^verbatim>\<open>\uXXXX\<close> escape, where it is read as the
  second half of a pair.
\<close>

theorem bad_hex_is_read_literally:
  assumes "list_all isxdigit hs" "length hs < 4" "\<not> isxdigit c"
  shows
    "(let s = pre @ [backslash, CHR ''u''] @ hs @ [c] @ rest in
        CheckForString_loop s (length pre) tempValue =
        CheckForString_loop s (length pre + 2 + length hs) (tempValue @ [CHR ''u''] @ hs))
     \<and> (isxdigit h1 \<and> isxdigit h2 \<and> isxdigit h3 \<and> isxdigit h4 \<longrightarrow>
          CheckForString_loop
            (pre @ [backslash, CHR ''u'', h1, h2, h3, h4, backslash, CHR ''u''] @ hs @ [c] @ rest)
            (length pre) tempValue
          = Inl (runtime_error ''Invalid code point for UTF-16 low surrogate pair!''))"
proof (intro conjI impI)
  define s where "s = pre @ [backslash, CHR ''u''] @ hs @ [c] @ rest"
  have len: "length s = length pre + 2 + length hs + 1 + length rest"
    by (simp add: s_def)
  have at: "s ! length pre = backslash" "s ! Suc (length pre) = CHR ''u''"
    by (simp_all add: s_def nth_append)
  have r: "read_hex s (Suc (length pre)) 0 [] False = Inr (Suc (length pre) + length hs + 1, [] @ hs, False)"
    using assms by (intro read_hex_stops [where pre = "pre @ [backslash, CHR ''u'']" and c = c and rest = rest])
      (simp_all add: s_def)
  have "escape_u s (Suc (length pre)) tempValue = Inr (Suc (length pre) + length hs, tempValue @ [CHR ''u''] @ hs)"
    by (simp add: escape_u_def r)
  then have "string_step s (length pre) tempValue = Inr (Inr (Suc (length pre) + length hs, tempValue @ [CHR ''u''] @ hs))"
    by (simp add: string_step_def Let_def at len)
  then have "CheckForString_loop s (length pre) tempValue =
        CheckForString_loop s (length pre + 2 + length hs) (tempValue @ [CHR ''u''] @ hs)"
    by (subst CheckForString_loop.simps) (simp add: len)
  then show "let s = pre @ [backslash, CHR ''u''] @ hs @ [c] @ rest in
        CheckForString_loop s (length pre) tempValue =
        CheckForString_loop s (length pre + 2 + length hs) (tempValue @ [CHR ''u''] @ hs)"
    by (simp add: s_def Let_def)
next
  assume hex: "isxdigit h1 \<and> isxdigit h2 \<and> isxdigit h3 \<and> isxdigit h4"
  define s where
    "s = pre @ [backslash, CHR ''u'', h1, h2, h3, h4, backslash, CHR ''u''] @ hs @ [c] @ rest"
  have len: "length s = length pre + 8 + length hs + 1 + length rest"
    by (simp add: s_def)
  have at: "s ! length pre = backslash" "s ! Suc (length pre) = CHR ''u''"
    "s ! (6 + length pre) = backslash" "s ! (7 + length pre) = CHR ''u''"
    by (simp_all add: s_def nth_append)
  have r1: "read_hex s (Suc (length pre)) 0 [] False = Inr (5 + length pre, [h1, h2, h3, h4], True)"
    using hex by (simp add: s_def read_hex.simps nth_append)
  have r2: "read_hex s (7 + length pre) 0 [] False = Inr (7 + length pre + length hs + 1, [] @ hs, False)"
    using assms
    by (intro read_hex_stops
          [where pre = "pre @ [backslash, CHR ''u'', h1, h2, h3, h4, backslash, CHR ''u'']"
             and c = c and rest = rest])
       (simp_all add: s_def)
  have "escape_u s (Suc (length pre)) tempValue
          = Inl (runtime_error ''Invalid code point for UTF-16 low surrogate pair!'')"
    by (simp add: escape_u_def Let_def r1 r2 at len)
  then have "string_step s (length pre) tempValue
          = Inl (runtime_error ''Invalid code point for UTF-16 low surrogate pair!'')"
    by (simp add: string_step_def Let_def at len)
  then show "CheckForString_loop
            (pre @ [backslash, CHR ''u'', h1, h2, h3, h4, backslash, CHR ''u''] @ hs @ [c] @ rest)
            (length pre) tempValue
          = Inl (runtime_error ''Invalid code point for UTF-16 low surrogate pair!'')"
    unfolding s_def [symmetric]
    by (subst CheckForString_loop.simps) (simp add: len)
qed


theorem bad_hex_is_read_literally_witness:
  "list_all isxdigit ''12'' \<and> length ''12'' < 4 \<and> \<not> isxdigit CHR ''G''
   \<and> CheckForString_loop ([quote, backslash] @ ''u12G4'' @ [quote]) 1 []
       = CheckForString_loop ([quote, backslash] @ ''u12G4'' @ [quote]) 5 ''u12''
   \<and> isxdigit CHR ''0'' \<and> isxdigit CHR ''4'' \<and> isxdigit CHR ''1''
   \<and> CheckForString_loop
         ([quote, backslash] @ ''u0041'' @ [backslash] @ ''u12G4'' @ [quote]) 1 []
       = Inl (runtime_error ''Invalid code point for UTF-16 low surrogate pair!'')"
  using bad_hex_is_read_literally
    [of "''12''" "CHR ''G''" "[quote]" "''4'' @ [quote]" "[]"
        "CHR ''0''" "CHR ''0''" "CHR ''4''" "CHR ''1''"]
  by (simp add: isxdigit_def char_between_def Let_def eval_nat_numeral)


section \<open>Properties of the escaper\<close>

lemma and_high:
  fixes a :: nat
  assumes "a < 2 ^ n"
  shows "(push_bit n b + a) AND push_bit n c = push_bit n (b AND c)"
proof -
  have "(push_bit n b OR a) AND push_bit n c = push_bit n (b AND c)"
  proof (rule bit_eqI)
    fix k
    show "bit ((push_bit n b OR a) AND push_bit n c) k = bit (push_bit n (b AND c)) k"
      using not_bit_of_less [OF assms, of k]
      by (cases "k < n") (auto simp add: bit_and_iff bit_or_iff bit_push_bit_iff)
  qed
  then show ?thesis using assms by (simp add: or_push_bit_add)
qed

lemma and_low:
  fixes a :: nat
  assumes "a < 2 ^ n"
  shows "(push_bit n b + a) AND mask n = a"
  using assms by (simp add: and_mask_nat push_bit_eq_mult)

lemma byte_char_of: "n < 256 \<Longrightarrow> byte (char_of (n::nat)) = n"
  by (simp add: of_char_of)

lemma ascii_byte:
  fixes x :: nat
  assumes "x < 0x80"
  shows "x AND 0x80 = 0" "x AND 0x7f = x"
  using assms and_high [of x 7 0 1] and_low [of x 7 0] by (simp_all add: mask_eq_exp_minus_1)

lemma lead2_byte:
  fixes d :: nat
  assumes "d < 0x20"
  shows "(0xC0 + d) AND 0x80 = 0x80" "(0xC0 + d) AND 0xe0 = 0xc0" "(0xC0 + d) AND 0x1f = d"
  using assms and_high [of "64 + d" 7 1 1] and_high [of d 5 6 7] and_low [of d 5 6]
  by (simp_all add: mask_eq_exp_minus_1)

lemma lead3_byte:
  fixes d :: nat
  assumes "d < 0x10"
  shows "(0xE0 + d) AND 0x80 = 0x80" "(0xE0 + d) AND 0xe0 = 0xe0" "(0xE0 + d) AND 0xf0 = 0xe0"
    "(0xE0 + d) AND 0x0f = d"
  using assms and_high [of "96 + d" 7 1 1] and_high [of d 5 7 7] and_high [of d 4 14 15]
    and_low [of d 4 14]
  by (simp_all add: mask_eq_exp_minus_1)

lemma lead4_byte:
  fixes d :: nat
  assumes "d < 0x08"
  shows "(0xF0 + d) AND 0x80 = 0x80" "(0xF0 + d) AND 0xe0 = 0xe0" "(0xF0 + d) AND 0xf0 = 0xf0"
    "(0xF0 + d) AND 0xf8 = 0xf0" "(0xF0 + d) AND 0x07 = d"
  using assms and_high [of "112 + d" 7 1 1] and_high [of "16 + d" 5 7 7] and_high [of d 4 15 15]
    and_high [of d 3 30 31] and_low [of d 3 30]
  by (simp_all add: mask_eq_exp_minus_1)

lemma cont_byte:
  fixes m :: nat
  assumes "m < 0x40"
  shows "(0x80 + m) AND 0xc0 = 0x80" "(0x80 + m) AND 0x3f = m" "push_bit 6 a OR m = a * 64 + m"
  using assms and_high [of m 6 2 3] and_low [of m 6 2] or_push_bit_add [of m 6 a]
  by (simp_all add: mask_eq_exp_minus_1 push_bit_eq_mult)


lemma char_of_eq_iff: "n < 256 \<Longrightarrow> (char_of (n::nat) = c) = (n = byte c)"
  by (auto simp: of_char_of)

lemma escape_step_1:
  assumes "cp < 0x80" "cp \<noteq> 0x1F" "val = pre @ [char_of cp] @ rest"
  shows "escape_step val (length pre) res = Inr (length pre, res @ escaped_code_point cp)"
proof -
  have c: "val ! length pre = char_of cp" by (simp add: assms(3))
  have b: "byte (char_of cp) = cp" using assms(1) by (simp add: byte_char_of)
  have k: "utf8_continuation val i n n x = Inr (i, x)" for i n x
    by (simp add: utf8_continuation.simps)
  from assms(1) have lt: "cp < 256" by simp
  show ?thesis
    using assms(1,2) ascii_byte [OF assms(1)]
    by (simp add: escape_step_def utf8_lead_def escaped_code_point_def c b k
          char_of_eq_iff [OF lt] Let_def)
qed


lemma utf8_continuation_done: "utf8_continuation val i n n x = Inr (i, x)"
  by (simp add: utf8_continuation.simps)

lemma utf8_continuation_done': "n = k \<Longrightarrow> utf8_continuation val i n k x = Inr (i, x)"
  by (simp add: utf8_continuation.simps)

lemma utf8_continuation_step:
  assumes "byteCount < numOfBytes" "cxx_at val (Suc index) = char_of (0x80 + m)" "m < 0x40"
  shows "utf8_continuation val index byteCount numOfBytes a
         = utf8_continuation val (Suc index) (Suc byteCount) numOfBytes (a * 64 + m)"
proof -
  from assms(3) have "byte (char_of (0x80 + m)) = 0x80 + m"
    by (simp add: byte_char_of)
  with assms cont_byte(1,2) [OF assms(3)] cont_byte(3) [OF assms(3), of a] show ?thesis
    by (subst utf8_continuation.simps) simp
qed

lemma not_named_escape:
  assumes "0x80 \<le> n" "n < 256"
  shows "char_of (n::nat) \<noteq> quote" "char_of n \<noteq> backslash" "char_of n \<noteq> CHR 0x08"
    "char_of n \<noteq> CHR 0x0C" "char_of n \<noteq> CHR 0x0A" "char_of n \<noteq> CHR 0x0D"
    "char_of n \<noteq> CHR 0x09" "char_of n \<noteq> CHR 0x0B"
  using assms by (simp_all add: char_of_eq_iff)

lemma utf8_lead_2: "d < 0x20 \<Longrightarrow> utf8_lead (char_of (0xC0 + d)) = Inr (2, True, d)"
  using lead2_byte [of d] by (simp add: utf8_lead_def byte_char_of)

lemma utf8_lead_3: "d < 0x10 \<Longrightarrow> utf8_lead (char_of (0xE0 + d)) = Inr (3, True, d)"
  using lead3_byte [of d] by (simp add: utf8_lead_def byte_char_of)

lemma utf8_lead_4: "d < 0x08 \<Longrightarrow> utf8_lead (char_of (0xF0 + d)) = Inr (4, True, d)"
  using lead4_byte [of d] by (simp add: utf8_lead_def byte_char_of)

lemma escape_step_2:
  assumes "0x80 \<le> cp" "cp < 0x800"
    and "val = pre @ [char_of (0xC0 + cp div 0x40), char_of (0x80 + cp mod 0x40)] @ rest"
  shows "escape_step val (length pre) res = Inr (Suc (length pre), res @ u_escape cp)"
proof -
  define d where "d = cp div 0x40"
  define m where "m = cp mod 0x40"
  have d: "d < 0x20" and m: "m < 0x40" and cp: "d * 64 + m = cp"
    using assms(2) by (simp_all add: d_def m_def)
  have c0: "val ! length pre = char_of (0xC0 + d)"
    and c1: "cxx_at val (Suc (length pre)) = char_of (0x80 + m)"
    by (simp_all add: assms(3) d_def m_def cxx_at_def nth_append)
  have "utf8_continuation val (length pre) (Suc 0) 2 d
          = utf8_continuation val (Suc (length pre)) (Suc (Suc 0)) 2 (d * 64 + m)"
    by (rule utf8_continuation_step [OF _ c1 m]) simp
  also have "\<dots> = Inr (Suc (length pre), d * 64 + m)"
    by (rule utf8_continuation_done') simp
  finally have k: "utf8_continuation val (length pre) (Suc 0) 2 d = Inr (Suc (length pre), cp)"
    by (simp only: cp)
  from d have "0x80 \<le> 0xC0 + d" "0xC0 + d < 256" by simp_all
  note ne = not_named_escape [OF this]
  show ?thesis
    using assms(1,2)
    by (simp add: escape_step_def c0 ne utf8_lead_2 [OF d] k Let_def)
qed


lemma escape_step_3:
  assumes "0x800 \<le> cp" "cp < 0x10000"
    and "val = pre @ [char_of (0xE0 + cp div 0x1000), char_of (0x80 + cp div 0x40 mod 0x40),
                      char_of (0x80 + cp mod 0x40)] @ rest"
  shows "escape_step val (length pre) res = Inr (Suc (Suc (length pre)), res @ u_escape cp)"
proof -
  define d where "d = cp div 0x1000"
  define m1 where "m1 = cp div 0x40 mod 0x40"
  define m2 where "m2 = cp mod 0x40"
  have d: "d < 0x10" and m: "m1 < 0x40" "m2 < 0x40"
    using assms(2) by (simp_all add: d_def m1_def m2_def)
  have "cp div 0x40 = d * 64 + m1"
    by (simp add: d_def m1_def div_mult2_eq [of cp 64 64, simplified])
  then have cp: "(d * 64 + m1) * 64 + m2 = cp"
    using div_mult_mod_eq [of cp 64] by (simp only: m2_def numeral_eq_iff)
  have c0: "val ! length pre = char_of (0xE0 + d)"
    and c1: "cxx_at val (Suc (length pre)) = char_of (0x80 + m1)"
    and c2: "cxx_at val (Suc (Suc (length pre))) = char_of (0x80 + m2)"
    by (simp_all add: assms(3) d_def m1_def m2_def cxx_at_def nth_append)
  have "utf8_continuation val (length pre) (Suc 0) 3 d
          = utf8_continuation val (Suc (length pre)) (Suc (Suc 0)) 3 (d * 64 + m1)"
    by (rule utf8_continuation_step [OF _ c1 m(1)]) simp
  also have "\<dots> = utf8_continuation val (Suc (Suc (length pre))) (Suc (Suc (Suc 0))) 3
                      ((d * 64 + m1) * 64 + m2)"
    by (rule utf8_continuation_step [OF _ c2 m(2)]) simp
  also have "\<dots> = Inr (Suc (Suc (length pre)), (d * 64 + m1) * 64 + m2)"
    by (rule utf8_continuation_done') simp
  finally have k: "utf8_continuation val (length pre) (Suc 0) 3 d = Inr (Suc (Suc (length pre)), cp)"
    by (simp only: cp)
  from d have "0x80 \<le> 0xE0 + d" "0xE0 + d < 256" by simp_all
  note ne = not_named_escape [OF this]
  show ?thesis
    using assms(1,2)
    by (simp add: escape_step_def c0 ne utf8_lead_3 [OF d] k Let_def)
qed

lemma escape_step_4:
  assumes "0x10000 \<le> cp" "cp < 0x110000"
    and "val = pre @ [char_of (0xF0 + cp div 0x40000), char_of (0x80 + cp div 0x1000 mod 0x40),
                      char_of (0x80 + cp div 0x40 mod 0x40), char_of (0x80 + cp mod 0x40)] @ rest"
  shows "escape_step val (length pre) res =
         Inr (Suc (Suc (Suc (length pre))),
              res @ u_escape ((cp - 0x10000) div 0x400 + 0xD800)
                  @ u_escape ((cp - 0x10000) mod 0x400 + 0xDC00))"
proof -
  define d where "d = cp div 0x40000"
  define m1 where "m1 = cp div 0x1000 mod 0x40"
  define m2 where "m2 = cp div 0x40 mod 0x40"
  define m3 where "m3 = cp mod 0x40"
  have d: "d < 0x08" and m: "m1 < 0x40" "m2 < 0x40" "m3 < 0x40"
    using assms(2) by (simp_all add: d_def m1_def m2_def m3_def)
  have "cp div 0x1000 = d * 64 + m1"
    by (simp add: d_def m1_def div_mult2_eq [of cp 4096 64, simplified])
  moreover have "cp div 0x40 = cp div 0x1000 * 64 + m2"
    by (simp add: m2_def div_mult2_eq [of cp 64 64, simplified])
  ultimately have cp: "((d * 64 + m1) * 64 + m2) * 64 + m3 = cp"
    using div_mult_mod_eq [of cp 64] by (simp only: m3_def)
  have c0: "val ! length pre = char_of (0xF0 + d)"
    and c1: "cxx_at val (Suc (length pre)) = char_of (0x80 + m1)"
    and c2: "cxx_at val (Suc (Suc (length pre))) = char_of (0x80 + m2)"
    and c3: "cxx_at val (Suc (Suc (Suc (length pre)))) = char_of (0x80 + m3)"
    by (simp_all add: assms(3) d_def m1_def m2_def m3_def cxx_at_def nth_append)
  have "utf8_continuation val (length pre) (Suc 0) 4 d
          = utf8_continuation val (Suc (length pre)) (Suc (Suc 0)) 4 (d * 64 + m1)"
    by (rule utf8_continuation_step [OF _ c1 m(1)]) simp
  also have "\<dots> = utf8_continuation val (Suc (Suc (length pre))) (Suc (Suc (Suc 0))) 4
                      ((d * 64 + m1) * 64 + m2)"
    by (rule utf8_continuation_step [OF _ c2 m(2)]) simp
  also have "\<dots> = utf8_continuation val (Suc (Suc (Suc (length pre)))) (Suc (Suc (Suc (Suc 0)))) 4
                      (((d * 64 + m1) * 64 + m2) * 64 + m3)"
    by (rule utf8_continuation_step [OF _ c3 m(3)]) simp
  also have "\<dots> = Inr (Suc (Suc (Suc (length pre))), ((d * 64 + m1) * 64 + m2) * 64 + m3)"
    by (rule utf8_continuation_done') simp
  finally have k: "utf8_continuation val (length pre) (Suc 0) 4 d
                   = Inr (Suc (Suc (Suc (length pre))), cp)"
    by (simp only: cp)
  from d have "0x80 \<le> 0xF0 + d" "0xF0 + d < 256" by simp_all
  note ne = not_named_escape [OF this]
  show ?thesis
    using assms(1,2)
    by (simp add: escape_step_def c0 ne utf8_lead_4 [OF d] k Let_def)
qed

lemma escape_step_code_point:
  assumes "cp < 0x110000" "cp \<noteq> 0x1F" "val = pre @ utf8_encoding cp @ rest"
  shows "escape_step val (length pre) res
         = Inr (length pre + length (utf8_encoding cp) - 1, res @ escaped_code_point cp)"
proof -
  consider "cp < 0x80" | "0x80 \<le> cp" "cp < 0x800" | "0x800 \<le> cp" "cp < 0x10000"
    | "0x10000 \<le> cp" by linarith
  then show ?thesis
  proof cases
    case 1
    with assms escape_step_1 [of cp val pre rest res] show ?thesis
      by (simp add: utf8_encoding_def)
  next
    case 2
    with assms escape_step_2 [of cp val pre rest res] show ?thesis
      by (simp add: utf8_encoding_def escaped_code_point_def)
  next
    case 3
    with assms escape_step_3 [of cp val pre rest res] show ?thesis
      by (simp add: utf8_encoding_def escaped_code_point_def)
  next
    case 4
    with assms escape_step_4 [of cp val pre rest res] show ?thesis
      by (simp add: utf8_encoding_def escaped_code_point_def)
  qed
qed

lemma utf8_encoding_length: "0 < length (utf8_encoding cp)"
  by (simp add: utf8_encoding_def)

lemma escape_loop_code_points:
  assumes "\<forall>cp \<in> set cps. cp < 0x110000 \<and> cp \<noteq> 0x1F"
  shows "ConvertToEscapedString_loop (pre @ concat (map utf8_encoding cps)) (length pre) res
         = Inr (res @ concat (map escaped_code_point cps))"
  using assms
proof (induction cps arbitrary: pre res)
  case Nil
  show ?case by (subst ConvertToEscapedString_loop.simps) simp
next
  case (Cons cp cps)
  define val where "val = pre @ concat (map utf8_encoding (cp # cps))"
  from Cons.prems have cp: "cp < 0x110000" "cp \<noteq> 0x1F" by simp_all
  have val: "val = pre @ utf8_encoding cp @ concat (map utf8_encoding cps)"
    by (simp add: val_def)
  have val': "val = (pre @ utf8_encoding cp) @ concat (map utf8_encoding cps)"
    by (simp add: val_def)
  have step: "escape_step val (length pre) res
              = Inr (length pre + length (utf8_encoding cp) - 1, res @ escaped_code_point cp)"
    by (rule escape_step_code_point [OF cp val])
  have lt: "length pre < length val"
    using utf8_encoding_length [of cp] by (simp add: val)
  have "ConvertToEscapedString_loop val (length pre) res
        = ConvertToEscapedString_loop val (length (pre @ utf8_encoding cp)) (res @ escaped_code_point cp)"
    using utf8_encoding_length [of cp] lt
    by (subst ConvertToEscapedString_loop.simps) (simp add: step)
  also have "\<dots> = Inr ((res @ escaped_code_point cp) @ concat (map escaped_code_point cps))"
    unfolding val'
    using Cons.prems by (intro Cons.IH) simp
  finally show ?case by (simp add: val_def)
qed

text \<open>
  Claim C7 as stated fails at U+007F: DEL is not a printable character, and the
  escaper writes it as the single byte 7F, not as \<^verbatim>\<open>\u007f\<close>.
\<close>

theorem escaper_del_counterexample:
  "ConvertToEscapedString [CHR 0x7F] = Inr [CHR 0x7F]"
  by (simp add: escape_eval)

text \<open>
  U+001F is the other code point the claim fails at: the test
  \<^verbatim>\<open>value[index] < 0x1f\<close> of line 1045 leaves out the last control character,
  which is written as the single byte 1F, while U+001E is written as
  \<^verbatim>\<open>\u001e\<close>.
\<close>

lemma escaper_unit_separator:
  "ConvertToEscapedString [CHR 0x1F] = Inr [CHR 0x1F]
   \<and> ConvertToEscapedString [CHR 0x1E] = Inr ([backslash] @ ''u001e'')"
  by (simp add: escape_eval)

text \<open>
  Claim C7, as amended. For the UTF-8 encoding of every sequence of code points
  below 0x110000 none of which is U+001F, the escaper returns the concatenation of
  \<open>escaped_code_point\<close> over the sequence: the eight named escapes, a single byte for
  every other code point from U+0020 to U+007F (DEL included),
  \<^verbatim>\<open>\uXXXX\<close> for the other code points below U+001F and for U+0080 to U+FFFF,
  and two \<^verbatim>\<open>\uXXXX\<close> sequences, the UTF-16 surrogate pair, from U+10000 on.
\<close>

theorem escaper_output:
  assumes "\<forall>cp \<in> set cps. cp < 0x110000 \<and> cp \<noteq> 0x1F"
  shows "ConvertToEscapedString (concat (map utf8_encoding cps))
         = Inr (concat (map escaped_code_point cps))"
  using escape_loop_code_points [OF assms, of "[]" "[]"]
  by (simp add: ConvertToEscapedString_def)


theorem escaper_output_witness:
  "(0x41 :: nat) < 0x110000 \<and> (0x41 :: nat) \<noteq> 0x1F
   \<and> (0x7F :: nat) < 0x110000 \<and> (0x7F :: nat) \<noteq> 0x1F
   \<and> (0x3A9 :: nat) < 0x110000 \<and> (0x3A9 :: nat) \<noteq> 0x1F
   \<and> (0x1F600 :: nat) < 0x110000 \<and> (0x1F600 :: nat) \<noteq> 0x1F
   \<and> ConvertToEscapedString
         [CHR ''A'', CHR 0x7F, CHR 0xCE, CHR 0xA9, CHR 0xF0, CHR 0x9F, CHR 0x98, CHR 0x80]
       = Inr (''A'' @ [CHR 0x7F] @ [backslash] @ ''u03a9''
              @ [backslash] @ ''ud83d'' @ [backslash] @ ''ude00'')"
  using escaper_output [of "[0x41, 0x7F, 0x3A9, 0x1F600]"]
  by (simp add: utf8_encoding_def escaped_code_point_def u_escape_def setw_fill0_def to_hex_def
        digits.simps digit_char_def char_of_eval replicate_eval)


section \<open>Properties of the number lexer\<close>

lemma number_scan_hd:
  "number_scan s index acc = (index', lit) \<Longrightarrow> acc \<noteq> [] \<Longrightarrow> lit \<noteq> [] \<and> hd lit = hd acc"
proof (induction s index acc rule: number_scan.induct)
  case (1 s index tempValue)
  show ?case
  proof (cases "index < length s \<and> \<not> (s ! index = CHR '','' \<or> SkipWhitespaces (s ! index) False)")
    case True
    with "1.prems" have "number_scan s (index + 1) (tempValue @ [s ! index]) = (index', lit)"
      by (subst (asm) number_scan.simps) (simp split: if_splits)
    with "1.IH" True "1.prems"(2) show ?thesis by simp
  next
    case False
    with "1.prems" show ?thesis
      by (subst (asm) number_scan.simps) (auto split: if_splits)
  qed
qed

lemma parse_integer_sign:
  assumes "lit \<noteq> []" "\<not> isspace (hd lit)" "parse_integer lit = Some (negative, n)"
  shows "negative = (hd lit = CHR ''-'')"
proof -
  from assms(1,2) have "dropWhile isspace lit = lit"
    by (cases lit) simp_all
  with assms show ?thesis
    by (auto simp: parse_integer_def Let_def split: if_splits)
qed

lemma number_token_narrowest:
  assumes w: "long_bits P = 32 \<or> long_bits P = 64" and lit: "lit \<noteq> []" "\<not> isspace (hd lit)"
  shows "number_token P lit = number_token_spec P lit"
proof (cases "CHR ''.'' \<in> set lit \<or> CHR ''e'' \<in> set lit \<or> CHR ''E'' \<in> set lit")
  case True
  then show ?thesis
    by (auto simp: number_token_def number_token_spec_def Let_def)
next
  case False
  note nofloat = this
  from lit have hd: "lit ! 0 = hd lit" by (cases lit) simp_all
  show ?thesis
  proof (cases "parse_integer lit")
    case None
    with nofloat show ?thesis
      by (simp add: number_token_def number_token_spec_def Let_def hd stoi_def stol_def stoll_def
            stoul_def stoull_def sto_signed_def sto_unsigned_def)
  next
    case (Some a)
    then obtain negative n where p: "parse_integer lit = Some (negative, n)" by (cases a) auto
    from parse_integer_sign [OF lit p] have neg: "negative = (hd lit = CHR ''-'')" .
    show ?thesis
    proof (cases "hd lit = CHR ''-''")
      case True
      with nofloat p neg w show ?thesis
        by (auto simp: number_token_def number_token_spec_def Let_def hd stoi_def stol_def stoll_def
              sto_signed_def narrowest_signed_def fits_signed_def)
    next
      case False
      with nofloat p neg w show ?thesis
        by (auto simp: number_token_def number_token_spec_def Let_def hd stoul_def stoull_def
              sto_unsigned_def narrowest_unsigned_def fits_unsigned_def)
    qed
  qed
qed


text \<open>
  A platform for the examples: \<^verbatim>\<open>long\<close> of the given width, and the
  floating-point conversions at the one number the examples use (1.5, the bit
  pattern 3FF8000000000000, in the spellings that occur there).
\<close>

definition example_platform :: "nat \<Rightarrow> platform" where
  "example_platform w =
     \<lparr>long_bits = w, char_is_signed = True,
      stod = (\<lambda>s. if s \<in> set [''1.5'', ''1.5]'', ''1.5}'', ''1.500000000000000'', ''1.500000'']
                   then Inr (double_of_bits 0x3FF8000000000000) else Inl invalid_argument),
      fixed15 = (\<lambda>d. if d = double_of_bits 0x3FF8000000000000 then ''1.500000000000000'' else []),
      to_string_double = (\<lambda>d. if d = double_of_bits 0x3FF8000000000000 then ''1.500000'' else []),
      little_endian = True\<rparr>"

text \<open>
  Claim C3. For the literal \<open>lit\<close> that \<^verbatim>\<open>CheckForNumber\<close> scans (from a
  first character that is not white space, on a platform whose \<^verbatim>\<open>long\<close> has 32
  or 64 bits), the token is the one of the number rule: a Double with the fixed
  15-digit text when the literal contains \<^verbatim>\<open>.\<close>, \<^verbatim>\<open>e\<close> or \<^verbatim>\<open>E\<close>,
  else the narrowest signed kind that fits a literal starting with \<^verbatim>\<open>-\<close> and
  the narrowest unsigned kind that fits any other; a wider conversion is tried only
  when the narrower one is out of range.
\<close>

theorem CheckForNumber_narrowest:
  assumes "long_bits P = 32 \<or> long_bits P = 64" and "\<not> isspace val"
    and "number_scan s index [val] = (index', lit)"
  shows "CheckForNumber P index s val =
         (case number_token_spec P lit of
            Inl e \<Rightarrow> Inl e
          | Inr result \<Rightarrow> Inr (result, index' - 1))"
proof -
  from number_scan_hd [OF assms(3)] have "lit \<noteq> []" "hd lit = val" by simp_all
  with assms(1,2) have "number_token P lit = number_token_spec P lit"
    by (intro number_token_narrowest) simp_all
  with assms(3) show ?thesis by (simp add: CheckForNumber_def)
qed

theorem CheckForNumber_narrowest_witness:
  "(long_bits (example_platform 64) = 32 \<or> long_bits (example_platform 64) = 64)
   \<and> \<not> isspace CHR ''-''
   \<and> number_scan ''[-2147483649,1.5]'' 2 ''-'' = (12, ''-2147483649'')
   \<and> CheckForNumber (example_platform 64) 2 ''[-2147483649,1.5]'' CHR ''-''
       = Inr (text_token TK_Long ''-2147483649'', 11)"
  using CheckForNumber_narrowest
    [of "example_platform 64" "CHR ''-''" "''[-2147483649,1.5]''" 2 12 "''-2147483649''"]
  by (simp add: example_platform_def number_token_spec_def narrowest_signed_def fits_signed_def
        number_eval)

lemma CheckForNumber_examples:
  "CheckForNumber (example_platform 32) 2 ''[-2147483649,1.5]'' CHR ''-''
     = Inr (text_token TK_Int64 ''-2147483649'', 11)"
  "CheckForNumber (example_platform 64) 14 ''[-2147483649,1.5]'' CHR ''1''
     = Inr (text_token TK_Double ''1.500000000000000'', 16)"
  "CheckForNumber (example_platform 64) 2 ''[4294967296]'' CHR ''4''
     = Inr (text_token TK_ULong ''4294967296'', 11)"
  "CheckForNumber (example_platform 32) 2 ''[4294967296]'' CHR ''4''
     = Inr (text_token TK_UInt64 ''4294967296'', 11)"
  "CheckForNumber (example_platform 64) 2 ''[18446744073709551616]'' CHR ''1''
     = Inl out_of_range"
  by (simp_all add: example_platform_def number_eval)


section \<open>Parsing and writing text\<close>

text \<open>
  Claim C4 as stated fails where \<^verbatim>\<open>long\<close> has 64 bits: \<^verbatim>\<open>std::stol\<close>
  then converts the literal, the token is a \<^verbatim>\<open>Long\<close>, and the value is of the
  wide kind, not of the 64-bit kind.
\<close>

theorem parse_int64_min_counterexample:
  \<open>ParseContent (example_platform 64) ''{"n":-9223372036854775808}''
     = Inr (True, havJSONData DT_Object
                    (V_map [(''n'', havJSONData DT_Long (V_long (- 9223372036854775808)))]))\<close>
  by (simp add: builder_eval lexer_eval example_platform_def)

text \<open>
  Claim C4, as amended. On every platform the text
  \<^verbatim>\<open>{"n":-9223372036854775808}\<close> parses without error to an object whose key
  \<^verbatim>\<open>n\<close> maps to the value \<open>-9223372036854775808\<close>; the value is of the 64-bit
  kind where \<^verbatim>\<open>long\<close> has 32 bits, and of the wide kind where it has 64.
\<close>

theorem parse_int64_min:
  \<open>ParseContent (P\<lparr>long_bits := 32\<rparr>) ''{"n":-9223372036854775808}''
     = Inr (True, havJSONData DT_Object
                    (V_map [(''n'', havJSONData DT_Int64 (V_int64 (- 9223372036854775808)))]))
   \<and> ParseContent (P\<lparr>long_bits := 64\<rparr>) ''{"n":-9223372036854775808}''
     = Inr (True, havJSONData DT_Object
                    (V_map [(''n'', havJSONData DT_Long (V_long (- 9223372036854775808)))]))\<close>
  by (simp add: builder_eval lexer_eval)

text \<open>
  Claim C1 fails on the code. The value \<open>[[1], 2]\<close> is built by the parser (from
  the text \<^verbatim>\<open>[[1 ],2]\<close>); its compact text is \<^verbatim>\<open>[[1],2]\<close>; and that text
  parses to \<open>[[1, 2]]\<close>: \<^verbatim>\<open>CheckForNumber\<close> reads on to a comma or white
  space, takes \<^verbatim>\<open>1]\<close> for the number and swallows the closing bracket.
\<close>

theorem text_roundtrip_fails:
  \<open>ParseContent (example_platform 64) ''[[1 ],2]''
     = Inr (True, havJSONData DT_Array
                    (V_vector [havJSONData DT_Array (V_vector [havJSONData DT_UInt (V_uint 1)]),
                               havJSONData DT_UInt (V_uint 2)]))
   \<and> ConvertJSONToString (example_platform 64)
         (havJSONData DT_Array
            (V_vector [havJSONData DT_Array (V_vector [havJSONData DT_UInt (V_uint 1)]),
                       havJSONData DT_UInt (V_uint 2)]))
     = Inr (True, ''[[1],2]'')
   \<and> ParseContent (example_platform 64) ''[[1],2]''
     = Inr (True, havJSONData DT_Array
                    (V_vector [havJSONData DT_Array
                                 (V_vector [havJSONData DT_UInt (V_uint 1),
                                            havJSONData DT_UInt (V_uint 2)])]))\<close>
  by (simp add: builder_eval lexer_eval writer_eval example_platform_def)


section \<open>Reading and writing the binary format\<close>

text \<open>
  Claim C2. On a host that stores the least significant byte first, the 22 bytes
  \<^verbatim>\<open>16 00 00 00 02 68 65 6C 6C 6F 00 06 00 00 00 77 6F 72 6C 64 00 00\<close> decode
  to the object with the one key \<^verbatim>\<open>hello\<close> and the string \<^verbatim>\<open>world\<close> under
  it, and writing that object in the binary format (the four bytes of the total
  length, then the payload) gives the same 22 bytes.
\<close>

theorem bson_hello_world:
  assumes "little_endian P"
  shows "ParseFile_BSON P
           [CHR 0x16, NUL, NUL, NUL, CHR 0x02, CHR ''h'', CHR ''e'', CHR ''l'', CHR ''l'',
            CHR ''o'', NUL, CHR 0x06, NUL, NUL, NUL, CHR ''w'', CHR ''o'', CHR ''r'',
            CHR ''l'', CHR ''d'', NUL, NUL]
         = Inr (True, havJSONData DT_Object
                        (V_map [(''hello'', havJSONData DT_String (V_string ''world''))]))
       \<and> WriteBSONFile P
           (havJSONData DT_Object
              (V_map [(''hello'', havJSONData DT_String (V_string ''world''))])) []
         = Inr (True,
                [CHR 0x16, NUL, NUL, NUL, CHR 0x02, CHR ''h'', CHR ''e'', CHR ''l'', CHR ''l'',
                 CHR ''o'', NUL, CHR 0x06, NUL, NUL, NUL, CHR ''w'', CHR ''o'', CHR ''r'',
                 CHR ''l'', CHR ''d'', NUL, NUL])"
  using assms
  by (simp add: bson_eval escape_eval builder_eval lexer_eval writer_eval)

theorem bson_hello_world_witness:
  "little_endian (example_platform 64)
   \<and> ParseFile_BSON (example_platform 64)
           [CHR 0x16, NUL, NUL, NUL, CHR 0x02, CHR ''h'', CHR ''e'', CHR ''l'', CHR ''l'',
            CHR ''o'', NUL, CHR 0x06, NUL, NUL, NUL, CHR ''w'', CHR ''o'', CHR ''r'',
            CHR ''l'', CHR ''d'', NUL, NUL]
         = Inr (True, havJSONData DT_Object
                        (V_map [(''hello'', havJSONData DT_String (V_string ''world''))]))
   \<and> WriteBSONFile (example_platform 64)
           (havJSONData DT_Object
              (V_map [(''hello'', havJSONData DT_String (V_string ''world''))])) []
         = Inr (True,
                [CHR 0x16, NUL, NUL, NUL, CHR 0x02, CHR ''h'', CHR ''e'', CHR ''l'', CHR ''l'',
                 CHR ''o'', NUL, CHR 0x06, NUL, NUL, NUL, CHR ''w'', CHR ''o'', CHR ''r'',
                 CHR ''l'', CHR ''d'', NUL, NUL])"
  using bson_hello_world [of "example_platform 64"]
  by (simp add: example_platform_def)


section \<open>Object keys: uniqueness and order\<close>

subsection \<open>The order of keys and the operations of \<^verbatim>\<open>std::map\<close>\<close>



lemma string_less_total: "\<not> string_less a b \<Longrightarrow> \<not> string_less b a \<Longrightarrow> a = b"
  by (induction a b rule: string_less.induct) auto










subsection \<open>The builder keeps every object in key order\<close>

lemma well_formed_vector [simp]:
  "well_formed (havJSONData t (V_vector xs)) = list_all well_formed xs"
  by simp

lemma well_formed_map [simp]:
  "well_formed (havJSONData t (V_map m))
     = (object_invariant m \<and> list_all well_formed (map snd m))"
  by simp

























subsection \<open>The linearizer emits the entries of an object in the order of the map\<close>














subsection \<open>The operations on objects\<close>








lemma descending_keys_rejected:
  "\<not> ascending_keys []
        [structural TK_LeftCurlyBracket,
         text_token TK_String ''b'', structural TK_Colon, text_token TK_UInt ''1'',
         structural TK_Comma,
         text_token TK_String ''a'', structural TK_Colon, text_token TK_UInt ''2'',
         structural TK_RightCurlyBracket]"
  by (simp add: structural_def text_token_def is_open_def is_close_def)










subsection \<open>The binary encoder writes the keys in the order of the tokens\<close>



lemma e_out_simps [simp]:
  "e_out (written n st) = e_out st"
  "e_out (push_bytes bs st) = e_out st @ bs"
  "e_out (set_currentType currentType st) = e_out st"
  by (simp_all add: written_def push_bytes_def set_currentType_def Let_def)









subsection \<open>The elements of a flat object\<close>

lemma e_tokenTypes_simps [simp]:
  "e_tokenTypes (push_bytes bs st) = e_tokenTypes st"
  "mDataType (last (e_tokenTypes st)) \<noteq> DT_Array \<Longrightarrow> e_tokenTypes (written n st) = e_tokenTypes st"
  by (simp_all add: written_def push_bytes_def Let_def)

















end
